(* ===== verification/Bridge_Prelude.thy ===== *)
theory Bridge_Prelude
  imports Main "HOL-Library.Signed_Division" "HOL-Library.AList"
    "HOL-Library.List_Lexorder" "HOL-Library.Char_ord"
begin

text \<open>
  What the components share: Rust's machine arithmetic on bounded integers (saturating and
  wrapping operations of \<^verbatim>\<open>i64\<close> and \<^verbatim>\<open>i128\<close>), \<^verbatim>\<open>Option::or\<close> and friends, the
  \<^verbatim>\<open>Result\<close> type as a sum with its early return \<^verbatim>\<open>?\<close>, and \<^verbatim>\<open>HashMap\<close> as an
  association list. An integer of the program is an \<open>int\<close>; the width enters where the code
  saturates, wraps or converts. Overflowing \<^verbatim>\<open>+\<close> wraps, as in the release profile
  (Cargo.toml does not turn overflow checks on there).
\<close>

named_theorems arith_defs "definitions of the bounded arithmetic"
named_theorems result_simps "rules that open a chain of results"

section \<open>Bounded integers\<close>

definition i64_min :: int where [arith_defs]: "i64_min = - (2 ^ 63)"
definition i64_max :: int where [arith_defs]: "i64_max = 2 ^ 63 - 1"
definition i128_min :: int where [arith_defs]: "i128_min = - (2 ^ 127)"
definition i128_max :: int where [arith_defs]: "i128_max = 2 ^ 127 - 1"

definition clamp :: "int \<Rightarrow> int \<Rightarrow> int \<Rightarrow> int" where
  "clamp lo hi x = (if x < lo then lo else if hi < x then hi else x)"

definition wrap_i64 :: "int \<Rightarrow> int" where
  "wrap_i64 x = (x + 2 ^ 63) mod 2 ^ 64 - 2 ^ 63"

definition sat_mul_i64 :: "int \<Rightarrow> int \<Rightarrow> int" where
  "sat_mul_i64 a b = clamp i64_min i64_max (a * b)"

definition sat_mul_i128 :: "int \<Rightarrow> int \<Rightarrow> int" where
  "sat_mul_i128 a b = clamp i128_min i128_max (a * b)"

text \<open>\<^verbatim>\<open>10i64.saturating_pow(n)\<close> and \<^verbatim>\<open>10i128.saturating_pow(n)\<close>: the base is positive.\<close>

definition sat_pow10_i64 :: "nat \<Rightarrow> int" where
  "sat_pow10_i64 n = min i64_max (10 ^ n)"

definition sat_pow10_i128 :: "nat \<Rightarrow> int" where
  "sat_pow10_i128 n = min i128_max (10 ^ n)"

lemma clamp_id [simp]: "lo \<le> x \<Longrightarrow> x \<le> hi \<Longrightarrow> clamp lo hi x = x"
  by (simp add: clamp_def)

lemma clamp_bounds [simp]:
  assumes "lo \<le> hi"
  shows "lo \<le> clamp lo hi x" "clamp lo hi x \<le> hi"
  using assms by (auto simp: clamp_def)

lemma clamp_clamp:
  assumes "lo' \<le> lo" "hi \<le> hi'" "lo \<le> hi"
  shows "clamp lo hi (clamp lo' hi' x) = clamp lo hi x"
  using assms by (auto simp: clamp_def)

lemma clamp_mono: "lo \<le> hi \<Longrightarrow> x \<le> y \<Longrightarrow> clamp lo hi x \<le> clamp lo hi y"
  by (auto simp: clamp_def)

lemma wrap_i64_id [simp]: "i64_min \<le> x \<Longrightarrow> x \<le> i64_max \<Longrightarrow> wrap_i64 x = x"
  by (simp add: wrap_i64_def i64_min_def i64_max_def)

lemma wrap_i64_bounds: "i64_min \<le> wrap_i64 x" "wrap_i64 x \<le> i64_max"
  using pos_mod_bound [of "2 ^ 64" "x + 2 ^ 63"] pos_mod_sign [of "2 ^ 64" "x + 2 ^ 63"]
  by (simp_all add: wrap_i64_def i64_min_def i64_max_def)

lemma sat_pow10_i64_pos [simp]: "0 < sat_pow10_i64 n"
  by (simp add: sat_pow10_i64_def i64_max_def)

lemma sat_pow10_i64_le_max [simp]: "sat_pow10_i64 n \<le> i64_max"
  by (simp add: sat_pow10_i64_def)

lemma sat_pow10_i128_pos [simp]: "0 < sat_pow10_i128 n"
  by (simp add: sat_pow10_i128_def i128_max_def)

lemma pow10_less_mono: "n < m \<Longrightarrow> (10::int) ^ n < 10 ^ m"
  by (rule power_strict_increasing) simp_all

lemma sat_pow10_i64_small: "n \<le> 18 \<Longrightarrow> sat_pow10_i64 n = 10 ^ n"
proof -
  assume "n \<le> 18"
  then have "(10::int) ^ n \<le> 10 ^ 18" by (intro power_increasing) simp_all
  then show ?thesis by (simp add: sat_pow10_i64_def i64_max_def)
qed

lemma sat_pow10_i64_large: "18 < n \<Longrightarrow> sat_pow10_i64 n = i64_max"
proof -
  assume "18 < n"
  then have "(10::int) ^ 19 \<le> 10 ^ n" by (intro power_increasing) simp_all
  then show ?thesis by (simp add: sat_pow10_i64_def i64_max_def)
qed

section \<open>Truncating division\<close>

text \<open>Rust's \<^verbatim>\<open>/\<close> on signed integers truncates toward zero: \<open>sdiv\<close> of the library.\<close>

lemma sdiv_nonneg: "0 \<le> a \<Longrightarrow> 0 < b \<Longrightarrow> (a::int) sdiv b = a div b"
  by (cases "a = 0") (simp_all add: signed_divide_int_def)

lemma sdiv_neg: "a < 0 \<Longrightarrow> 0 < b \<Longrightarrow> (a::int) sdiv b = - ((- a) div b)"
  by (simp add: signed_divide_int_def)

section \<open>Options and results\<close>

fun or_else :: "'a option \<Rightarrow> 'a option \<Rightarrow> 'a option" where
  "or_else (Some x) _ = Some x"
| "or_else None y = y"

lemma or_else_None_right [simp]: "or_else x None = x"
  by (cases x) simp_all

lemma or_else_assoc: "or_else (or_else x y) z = or_else x (or_else y z)"
  by (cases x) simp_all

lemma or_else_idem [simp]: "or_else x x = x"
  by (cases x) simp_all

lemma or_else_eq_None [simp]: "or_else x y = None \<longleftrightarrow> x = None \<and> y = None"
  by (cases x) simp_all

fun is_some :: "'a option \<Rightarrow> bool" where
  "is_some None = False"
| "is_some (Some _) = True"

lemma is_some_iff: "is_some x \<longleftrightarrow> x \<noteq> None"
  by (cases x) simp_all

text \<open>
  \<^verbatim>\<open>Result<T, E>\<close> is \<open>'e + 'a\<close>, \<open>Inl\<close> the error. \<open>rbind\<close> is the early return of
  \<^verbatim>\<open>?\<close>, \<open>transpose\<close> is \<^verbatim>\<open>Option::transpose\<close> and \<open>rmapM\<close> is
  \<^verbatim>\<open>collect::<Result<Vec<_>, _>>()\<close>, which stops at the first error.
\<close>

fun rbind :: "'e + 'a \<Rightarrow> ('a \<Rightarrow> 'e + 'b) \<Rightarrow> 'e + 'b" where
  "rbind (Inl e) f = Inl e"
| "rbind (Inr x) f = f x"

fun map_err :: "('e \<Rightarrow> 'f) \<Rightarrow> 'e + 'a \<Rightarrow> 'f + 'a" where
  "map_err g (Inl e) = Inl (g e)"
| "map_err g (Inr x) = Inr x"

fun transpose_opt :: "('e + 'a) option \<Rightarrow> 'e + 'a option" where
  "transpose_opt None = Inr None"
| "transpose_opt (Some (Inl e)) = Inl e"
| "transpose_opt (Some (Inr x)) = Inr (Some x)"

fun rmapM :: "('a \<Rightarrow> 'e + 'b) \<Rightarrow> 'a list \<Rightarrow> 'e + 'b list" where
  "rmapM f [] = Inr []"
| "rmapM f (x # xs) = rbind (f x) (\<lambda>y. rbind (rmapM f xs) (\<lambda>ys. Inr (y # ys)))"

lemma rbind_eq_Inr [result_simps]:
  "rbind m f = Inr y \<longleftrightarrow> (\<exists>x. m = Inr x \<and> f x = Inr y)"
  by (cases m) simp_all

lemma rbind_eq_Inl [result_simps]:
  "rbind m f = Inl e \<longleftrightarrow> m = Inl e \<or> (\<exists>x. m = Inr x \<and> f x = Inl e)"
  by (cases m) simp_all

lemma map_err_eq_Inr [result_simps]: "map_err g m = Inr y \<longleftrightarrow> m = Inr y"
  by (cases m) simp_all

lemma map_err_eq_Inl [result_simps]: "map_err g m = Inl e \<longleftrightarrow> (\<exists>e'. m = Inl e' \<and> e = g e')"
  by (cases m) auto

lemma transpose_opt_eq_Inr [result_simps]:
  "transpose_opt m = Inr y \<longleftrightarrow>
     (m = None \<and> y = None) \<or> (\<exists>x. m = Some (Inr x) \<and> y = Some x)"
  by (cases m rule: transpose_opt.cases) auto

lemma transpose_opt_eq_Inl [result_simps]:
  "transpose_opt m = Inl e \<longleftrightarrow> m = Some (Inl e)"
  by (cases m rule: transpose_opt.cases) auto

lemma rmapM_eq_Inr: "rmapM f xs = Inr ys \<longleftrightarrow> list_all2 (\<lambda>x y. f x = Inr y) xs ys"
  by (induction xs arbitrary: ys) (auto simp: result_simps list_all2_Cons1)

lemma rmapM_length: "rmapM f xs = Inr ys \<Longrightarrow> length ys = length xs"
  by (simp add: rmapM_eq_Inr list_all2_lengthD)

lemma rmapM_total: "(\<forall>x \<in> set xs. \<exists>y. f x = Inr y) \<Longrightarrow> \<exists>ys. rmapM f xs = Inr ys"
  by (induction xs) (auto simp: result_simps)

lemma in_set_map_filter: "y \<in> set (List.map_filter f xs) \<longleftrightarrow> (\<exists>x \<in> set xs. f x = Some y)"
  by (induction xs) (auto simp: map_filter_simps split: option.splits)

lemma in_set_map_filter_id: "y \<in> set (List.map_filter (\<lambda>x. x) xs) \<longleftrightarrow> Some y \<in> set xs"
  by (auto simp: in_set_map_filter)

section \<open>HashMap as an association list\<close>

text \<open>
  A \<^verbatim>\<open>HashMap\<close> is a list of key-value pairs with distinct keys; the position of a pair
  stands for the iteration order, which Rust leaves unspecified. \<^verbatim>\<open>get\<close> is \<open>map_of\<close>,
  \<^verbatim>\<open>insert\<close> is \<open>AList.update\<close> and \<^verbatim>\<open>retain\<close> is \<open>filter\<close>.
\<close>

definition hm_ok :: "('k \<times> 'v) list \<Rightarrow> bool" where
  "hm_ok m \<longleftrightarrow> distinct (map fst m)"

definition hm_insert :: "'k \<Rightarrow> 'v \<Rightarrow> ('k \<times> 'v) list \<Rightarrow> ('k \<times> 'v) list" where
  "hm_insert k v m = AList.update k v m"

definition hm_retain :: "('k \<Rightarrow> 'v \<Rightarrow> bool) \<Rightarrow> ('k \<times> 'v) list \<Rightarrow> ('k \<times> 'v) list" where
  "hm_retain p m = filter (\<lambda>(k, v). p k v) m"

lemma map_of_hm_insert [simp]: "map_of (hm_insert k v m) = (map_of m)(k \<mapsto> v)"
  by (simp add: hm_insert_def update_conv')

lemma hm_ok_insert [simp]: "hm_ok m \<Longrightarrow> hm_ok (hm_insert k v m)"
  by (simp add: hm_ok_def hm_insert_def distinct_update)

lemma hm_ok_retain [simp]: "hm_ok m \<Longrightarrow> hm_ok (hm_retain p m)"
  unfolding hm_ok_def hm_retain_def by (induction m) auto

lemma hm_ok_Nil [simp]: "hm_ok []"
  by (simp add: hm_ok_def)

lemma map_of_hm_retain:
  assumes "hm_ok m"
  shows "map_of (hm_retain p m) k =
    (case map_of m k of None \<Rightarrow> None | Some v \<Rightarrow> if p k v then Some v else None)"
  using assms unfolding hm_ok_def hm_retain_def
proof (induction m)
  case Nil
  then show ?case by simp
next
  case (Cons a m)
  obtain k' v' where a: "a = (k', v')" by (cases a)
  have none: "map_of m k' = None"
    using Cons.prems a by (simp add: map_of_eq_None_iff)
  show ?case using Cons a none by auto
qed

lemma set_hm_retain: "set (hm_retain p m) = {(k, v) \<in> set m. p k v}"
  by (auto simp: hm_retain_def)

end
