(* ===== verification/Ordered_Map.thy ===== *)
theory Ordered_Map
  imports Bridge_Prelude "HOL-Library.Multiset"
begin

text \<open>
  The two pieces of Rust's standard library whose order the scheduler's results depend on:
  \<^verbatim>\<open>BTreeMap\<close> (iteration in key order, a later \<^verbatim>\<open>insert\<close> or \<^verbatim>\<open>collect\<close> entry
  overwrites an earlier one), as a sorted association list, and the stable
  \<^verbatim>\<open>slice::sort_by\<close>, as an insertion sort that asks the comparator only whether one
  element is \<^verbatim>\<open>Less\<close> than another, which is all the library's merge sort asks.
\<close>

section \<open>BTreeMap\<close>

fun bt_insert :: "'k::linorder \<Rightarrow> 'v \<Rightarrow> ('k \<times> 'v) list \<Rightarrow> ('k \<times> 'v) list" where
  "bt_insert k v [] = [(k, v)]"
| "bt_insert k v ((k', v') # m) =
     (if k < k' then (k, v) # (k', v') # m
      else if k = k' then (k, v) # m
      else (k', v') # bt_insert k v m)"

definition bt_ok :: "('k::linorder \<times> 'v) list \<Rightarrow> bool" where
  "bt_ok m \<longleftrightarrow> sorted_wrt (<) (map fst m)"

definition bt_extend :: "('k::linorder \<times> 'v) list \<Rightarrow> ('k \<times> 'v) list \<Rightarrow> ('k \<times> 'v) list" where
  "bt_extend m kvs = fold (\<lambda>(k, v). bt_insert k v) kvs m"

definition bt_collect :: "('k::linorder \<times> 'v) list \<Rightarrow> ('k \<times> 'v) list" where
  "bt_collect kvs = bt_extend [] kvs"

definition bt_get :: "('k \<times> 'v) list \<Rightarrow> 'k \<Rightarrow> 'v option" where
  "bt_get m k = map_of m k"

definition bt_contains :: "('k \<times> 'v) list \<Rightarrow> 'k \<Rightarrow> bool" where
  "bt_contains m k \<longleftrightarrow> map_of m k \<noteq> None"

lemma bt_ok_Nil [simp]: "bt_ok []"
  by (simp add: bt_ok_def)

lemma bt_insert_keys: "fst ` set (bt_insert k v m) = insert k (fst ` set m)"
  by (induction k v m rule: bt_insert.induct) auto

lemma bt_ok_insert [simp]: "bt_ok m \<Longrightarrow> bt_ok (bt_insert k v m)"
proof (induction k v m rule: bt_insert.induct)
  case (2 k v k' v' m)
  have "x \<in> fst ` set (bt_insert k v m) \<Longrightarrow> x = k \<or> x \<in> fst ` set m" for x
    by (simp add: bt_insert_keys)
  then show ?case using 2 by (fastforce simp: bt_ok_def)
qed (simp add: bt_ok_def)

lemma map_of_bt_insert [simp]: "bt_ok m \<Longrightarrow> map_of (bt_insert k v m) = (map_of m)(k \<mapsto> v)"
proof (induction k v m rule: bt_insert.induct)
  case (2 k v k' v' m)
  then show ?case by (auto simp: bt_ok_def fun_eq_iff)
qed (simp add: fun_eq_iff)

lemma bt_ok_distinct: "bt_ok m \<Longrightarrow> distinct (map fst m)"
  by (auto simp: bt_ok_def strict_sorted_iff)

lemma bt_extend_ok [simp]: "bt_ok m \<Longrightarrow> bt_ok (bt_extend m kvs)"
  unfolding bt_extend_def by (induction kvs arbitrary: m) auto

lemma map_of_bt_extend [simp]:
  "bt_ok m \<Longrightarrow> map_of (bt_extend m kvs) = map_of m ++ map_of (rev kvs)"
  unfolding bt_extend_def
proof (induction kvs arbitrary: m)
  case (Cons kv kvs)
  obtain k v where kv: "kv = (k, v)" by (cases kv)
  show ?case using Cons.IH [of "bt_insert k v m"] Cons.prems kv
    by (auto simp: map_add_def fun_eq_iff split: option.splits)
qed simp

lemma bt_collect_ok [simp]: "bt_ok (bt_collect kvs)"
  by (simp add: bt_collect_def)

lemma map_of_bt_collect [simp]: "map_of (bt_collect kvs) = map_of (rev kvs)"
  by (simp add: bt_collect_def)

lemma set_bt_collect_keys: "fst ` set (bt_collect kvs) = fst ` set kvs"
proof -
  have "dom (map_of (bt_collect kvs)) = dom (map_of (rev kvs))" by simp
  then show ?thesis by (simp only: dom_map_of_conv_image_fst set_rev)
qed

text \<open>A \<^verbatim>\<open>BTreeMap\<close> is determined by what it maps: equality is extensional.\<close>

lemma bt_ok_Cons: "bt_ok ((k, v) # m) \<longleftrightarrow> bt_ok m \<and> (\<forall>k' \<in> fst ` set m. k < k')"
  by (auto simp: bt_ok_def)

lemma bt_ext:
  assumes "bt_ok m" "bt_ok m'" "map_of m = map_of m'"
  shows "m = m'"
proof -
  have "map fst m = map fst m'"
  proof (rule strict_sorted_equal)
    show "set (map fst m) = set (map fst m')"
      using arg_cong [OF assms(3), of dom] by (simp add: dom_map_of_conv_image_fst)
  qed (use assms in \<open>simp_all add: bt_ok_def\<close>)
  moreover have "map (\<lambda>k. (k, the (map_of m k))) (map fst m) = m" if "bt_ok m" for m :: "('a \<times> 'b) list"
    using bt_ok_distinct [OF that] by (auto intro!: map_idI)
  ultimately show ?thesis using assms by metis
qed

lemma bt_collect_id: "bt_ok m \<Longrightarrow> bt_collect m = m"
proof (rule bt_ext)
  assume "bt_ok m"
  then have "distinct (map fst m)" by (rule bt_ok_distinct)
  then have "map_of (rev m) = map_of m"
    by (subst map_of_inject_set) (simp_all add: rev_map [symmetric])
  then show "map_of (bt_collect m) = map_of m" by simp
qed simp_all

section \<open>Stable sorting\<close>

datatype ordering = Less | Equal | Greater

fun reverse_ordering :: "ordering \<Rightarrow> ordering" where
  "reverse_ordering Less = Greater"
| "reverse_ordering Equal = Equal"
| "reverse_ordering Greater = Less"

fun then_with :: "ordering \<Rightarrow> ordering \<Rightarrow> ordering" where
  "then_with Equal o2 = o2"
| "then_with o1 _ = o1"

definition cmp_ord :: "'a::linorder \<Rightarrow> 'a \<Rightarrow> ordering" where
  "cmp_ord x y = (if x < y then Less else if x = y then Equal else Greater)"

fun insert_by :: "('a \<Rightarrow> 'a \<Rightarrow> ordering) \<Rightarrow> 'a \<Rightarrow> 'a list \<Rightarrow> 'a list" where
  "insert_by cmp x [] = [x]"
| "insert_by cmp x (y # ys) =
     (if cmp y x = Less then y # insert_by cmp x ys else x # y # ys)"

definition sort_by :: "('a \<Rightarrow> 'a \<Rightarrow> ordering) \<Rightarrow> 'a list \<Rightarrow> 'a list" where
  "sort_by cmp xs = foldr (insert_by cmp) xs []"

lemma mset_insert_by [simp]: "mset (insert_by cmp x xs) = add_mset x (mset xs)"
  by (induction xs) auto

lemma mset_sort_by [simp]: "mset (sort_by cmp xs) = mset xs"
  by (induction xs) (simp_all add: sort_by_def)

lemma set_sort_by [simp]: "set (sort_by cmp xs) = set xs"
  by (metis mset_sort_by set_mset_mset)

lemma set_insert_by [simp]: "set (insert_by cmp x xs) = insert x (set xs)"
  by (metis mset_insert_by set_mset_add_mset_insert set_mset_mset)

text \<open>
  What \<^verbatim>\<open>sort_by\<close> needs of its comparator: \<^verbatim>\<open>Less\<close> is a strict weak order. (Rust's
  documentation asks for a total order; see \<open>Sep2_Model\<close> for the comparator that is none.)
\<close>

locale weak_order =
  fixes cmp :: "'a \<Rightarrow> 'a \<Rightarrow> ordering"
  assumes less_asym: "cmp x y = Less \<Longrightarrow> cmp y x \<noteq> Less"
    and not_less_trans: "cmp y x \<noteq> Less \<Longrightarrow> cmp z y \<noteq> Less \<Longrightarrow> cmp z x \<noteq> Less"
begin

definition le :: "'a \<Rightarrow> 'a \<Rightarrow> bool" where "le x y \<longleftrightarrow> cmp y x \<noteq> Less"

lemma le_trans: "le x y \<Longrightarrow> le y z \<Longrightarrow> le x z"
  unfolding le_def by (rule not_less_trans)

lemma less_imp_le: "cmp x y = Less \<Longrightarrow> le x y"
  unfolding le_def by (rule less_asym)

lemma sorted_insert_by: "sorted_wrt le xs \<Longrightarrow> sorted_wrt le (insert_by cmp x xs)"
proof (induction xs)
  case (Cons y ys)
  show ?case
  proof (cases "cmp y x = Less")
    case True
    then show ?thesis using Cons less_imp_le by auto
  next
    case False
    then have "le x y" by (simp add: le_def)
    then show ?thesis using Cons False le_trans by auto
  qed
qed simp

lemma sorted_sort_by: "sorted_wrt le (sort_by cmp xs)"
  unfolding sort_by_def by (induction xs) (simp_all add: sorted_insert_by)

lemma insert_by_stable:
  assumes "sorted_wrt le xs" "\<And>y z. P y \<Longrightarrow> P z \<Longrightarrow> cmp y z \<noteq> Less"
  shows "filter P (insert_by cmp x xs) = (if P x then x # filter P xs else filter P xs)"
  using assms
proof (induction xs)
  case (Cons y ys)
  then show ?case by (cases "P x"; cases "P y"; cases "cmp y x = Less") auto
qed simp

text \<open>Elements none of which is less than another keep their order.\<close>

lemma sort_by_stable:
  assumes "\<And>y z. P y \<Longrightarrow> P z \<Longrightarrow> cmp y z \<noteq> Less"
  shows "filter P (sort_by cmp xs) = filter P xs"
proof (induction xs)
  case Nil
  show ?case by (simp add: sort_by_def)
next
  case (Cons x xs)
  have "filter P (insert_by cmp x (sort_by cmp xs)) =
      (if P x then x # filter P (sort_by cmp xs) else filter P (sort_by cmp xs))"
    using sorted_sort_by assms by (rule insert_by_stable)
  then show ?case using Cons by (simp add: sort_by_def)
qed

end

end
