(* ===== verification/Sep2_Types.thy ===== *)
theory Sep2_Types
  imports Ordered_Map "HOL-Library.Word"
begin

text \<open>
  The SEP2 (IEEE 2030.5) data the bridge reads and writes. The types come from the package
  \<^verbatim>\<open>sep2_common\<close>, which is not part of the repository: each record holds the fields the
  program reads, under the program's names, and an enumeration the constructors it names.
  A payload the program only carries from one place to another (it never looks inside) has the
  type \<open>sep2_opaque\<close>. Integers of SEP2 (\<^verbatim>\<open>Int16\<close>, \<^verbatim>\<open>Uint32\<close>, \<^verbatim>\<open>Int64\<close>) are \<open>int\<close>;
  an mRID and an LFDI, only compared, are words of their width; a link is its href.
\<close>

typedecl sep2_opaque

type_synonym href = string
type_synonym mrid = "128 word"
type_synonym lfdi = "160 word"

text \<open>\<^verbatim>\<open>src/lib.rs\<close>: \<^verbatim>\<open>ResourceKind\<close>.\<close>

datatype resource_kind =
  Time | EndDeviceList | EndDevice | FunctionSetAssignmentsList | FunctionSetAssignments
| DERProgramList | DERProgram | DefaultDERControl | DERControlList | DERControl
| DERCurveList | DERCurve | DERList | MirrorUsagePointList

section \<open>Values\<close>

datatype potm =
  Nano | NegativeEight | NegativeSeven | Micro | NegativeFive | NegativeFour | Milli | Centi
| Deci | PotNone | Deca | Hecto | Kilo | Four | Five | Mega | Seven | Eight | Giga

datatype der_unit_ref =
  SetMaxW | SetMaxVar | StatVarAvail | StatWAvail | SetEffectiveV | SetMaxChargeRateW
| SetMaxDischargeRateW | NotApplicable

record active_power =
  ap_value :: int
  ap_multiplier :: potm

record pf_excitation =
  pfe_displacement :: int
  pfe_multiplier :: potm
  pfe_excitation :: bool

record fixed_var =
  fv_ref_type :: der_unit_ref
  fv_value :: int

record freq_droop =
  fd_d_bof :: int
  fd_d_buf :: int
  fd_k_of :: int
  fd_k_uf :: int
  fd_open_loop_tms :: int

section \<open>Controls\<close>

text \<open>\<^verbatim>\<open>DERControlBase\<close>: all thirty attributes, as \<^verbatim>\<open>overlay_controls\<close> lists them.\<close>

record der_control_base =
  op_mod_connect :: "bool option"
  op_mod_energize :: "sep2_opaque option"
  op_mod_fixed_pf_absorb_w :: "pf_excitation option"
  op_mod_fixed_pf_inject_w :: "pf_excitation option"
  op_mod_fixed_var :: "fixed_var option"
  op_mod_fixed_w :: "int option"
  op_mod_freq_droop :: "freq_droop option"
  op_mod_freq_watt :: "href option"
  op_mod_hfrt_may_trip :: "href option"
  op_mod_hfrt_must_trip :: "href option"
  op_mod_hvrt_may_trip :: "href option"
  op_mod_hvrt_momentary_cessation :: "href option"
  op_mod_hvrt_must_trip :: "href option"
  op_mod_lfrt_may_trip :: "href option"
  op_mod_lfrt_must_trip :: "href option"
  op_mod_lvrt_may_trip :: "href option"
  op_mod_lvrt_momentary_cessation :: "href option"
  op_mod_lvrt_must_trip :: "href option"
  op_mod_max_lim_w :: "int option"
  op_mod_target_var :: "sep2_opaque option"
  op_mod_target_w :: "active_power option"
  op_mod_volt_var :: "href option"
  op_mod_volt_watt :: "href option"
  op_mod_watt_pf :: "href option"
  op_mod_watt_var :: "href option"
  ramp_tms :: "sep2_opaque option"
  op_mod_imp_lim_w :: "active_power option"
  op_mod_exp_lim_w :: "active_power option"
  op_mod_gen_lim_w :: "active_power option"
  op_mod_load_lim_w :: "active_power option"

definition default_der_control_base :: der_control_base where
  "default_der_control_base =
    \<lparr> op_mod_connect = None, op_mod_energize = None, op_mod_fixed_pf_absorb_w = None,
      op_mod_fixed_pf_inject_w = None, op_mod_fixed_var = None, op_mod_fixed_w = None,
      op_mod_freq_droop = None, op_mod_freq_watt = None, op_mod_hfrt_may_trip = None,
      op_mod_hfrt_must_trip = None, op_mod_hvrt_may_trip = None,
      op_mod_hvrt_momentary_cessation = None, op_mod_hvrt_must_trip = None,
      op_mod_lfrt_may_trip = None, op_mod_lfrt_must_trip = None, op_mod_lvrt_may_trip = None,
      op_mod_lvrt_momentary_cessation = None, op_mod_lvrt_must_trip = None,
      op_mod_max_lim_w = None, op_mod_target_var = None, op_mod_target_w = None,
      op_mod_volt_var = None, op_mod_volt_watt = None, op_mod_watt_pf = None,
      op_mod_watt_var = None, ramp_tms = None, op_mod_imp_lim_w = None,
      op_mod_exp_lim_w = None, op_mod_gen_lim_w = None, op_mod_load_lim_w = None \<rparr>"

text \<open>\<^verbatim>\<open>DefaultDERControl\<close>: the base, nine attributes of its own, and its href.\<close>

record default_der_control =
  dd_href :: "href option"
  dd_base :: der_control_base
  set_es_delay :: "int option"
  set_es_high_freq :: "int option"
  set_es_high_volt :: "int option"
  set_es_low_freq :: "int option"
  set_es_low_volt :: "int option"
  set_es_ramp_tms :: "int option"
  set_es_random_delay :: "int option"
  set_grad_w :: "int option"
  set_soft_grad_w :: "int option"

definition default_default_der_control :: default_der_control where
  "default_default_der_control =
    \<lparr> dd_href = None, dd_base = default_der_control_base, set_es_delay = None,
      set_es_high_freq = None, set_es_high_volt = None, set_es_low_freq = None,
      set_es_low_volt = None, set_es_ramp_tms = None, set_es_random_delay = None,
      set_grad_w = None, set_soft_grad_w = None \<rparr>"

datatype event_status_type =
  Scheduled | Active | Cancelled | Superseded | OtherStatus nat

datatype response_flag = MessageReceived | SpecificResponse | OtherResponse nat

datatype response_status =
  EventReceived | EventStarted | EventCompleted | EventCancelled | EventSuperseded

text \<open>
  \<^verbatim>\<open>response_required\<close> is a bit set: the list of its flags. The randomisation bounds are the
  seconds of SEP2's one-hour range, from -3600 to 3600.
\<close>

record der_control =
  dc_href :: "href option"
  dc_mrid :: mrid
  dc_creation_time :: int
  dc_current_status :: event_status_type
  dc_interval_start :: int
  dc_interval_duration :: int
  dc_randomize_start :: "int option"
  dc_randomize_duration :: "int option"
  dc_response_required :: "response_flag list option"
  dc_reply_to :: "href option"
  dc_base :: der_control_base

record curve_data =
  cd_xvalue :: int
  cd_yvalue :: int

record der_curve =
  cv_href :: "href option"
  cv_mrid :: mrid
  cv_curve_data :: "curve_data list"
  cv_x_multiplier :: potm
  cv_y_multiplier :: potm
  cv_y_ref_type :: der_unit_ref
  cv_open_loop_tms :: "int option"
  cv_v_ref :: "int option"
  cv_autonomous_v_ref_enable :: "bool option"
  cv_autonomous_v_ref_time_constant :: "int option"

section \<open>Meter readings\<close>

datatype flow_direction = FlowForward | FlowReverse

datatype uom = Uom_W | Uom_VAr | Uom_Voltage | Uom_Hz | Uom_Other nat

datatype phase_code =
  PhaseABC | PhaseAN | PhaseA | PhaseB | PhaseC | PhaseAB | PhaseBC | PhaseCA
| PhaseOther nat

text \<open>
  The reading type of every reading also has kind \<^verbatim>\<open>Power\<close>, the accumulation behaviour
  \<^verbatim>\<open>Instantaneous\<close> and the commodity \<^verbatim>\<open>ElectricitySecondaryMetered\<close> of the template.
\<close>

datatype kind_type = KindPower
datatype accumulation_behaviour = Instantaneous
datatype commodity = ElectricitySecondaryMetered

record reading_type =
  rt_kind :: kind_type
  rt_accumulation_behaviour :: accumulation_behaviour
  rt_commodity :: commodity
  rt_flow_direction :: flow_direction
  rt_uom :: "uom option"
  rt_multiplier :: "potm option"
  rt_phase :: "phase_code option"

record reading =
  rd_value :: int
  rd_start :: int
  rd_duration :: int

record mirror_meter_reading =
  mmr_mrid :: mrid
  mmr_description :: string
  mmr_reading_type :: "reading_type option"
  mmr_reading :: reading

section \<open>Resources and lists\<close>

record end_device =
  ed_href :: "href option"
  ed_lfdi :: "lfdi option"
  ed_fsa_list_link :: "href option"
  ed_der_list_link :: "href option"
  ed_registration_link :: "href option"

record end_device_list =
  edl_href :: "href option"
  edl_poll_rate :: "int option"
  edl_end_device :: "end_device list"
  edl_all :: int

record fsa =
  fsa_href :: "href option"
  fsa_mrid :: mrid
  fsa_program_list_link :: "href option"

record fsa_list =
  fsal_href :: "href option"
  fsal_poll_rate :: "int option"
  fsal_items :: "fsa list"

record der_program =
  dp_href :: "href option"
  dp_mrid :: mrid
  dp_primacy :: nat
  dp_default_control_link :: "href option"
  dp_control_list_link :: "href option"
  dp_curve_list_link :: "href option"

record der_program_list =
  dpl_href :: "href option"
  dpl_poll_rate :: "int option"
  dpl_items :: "der_program list"

record der_control_list =
  dcl_href :: "href option"
  dcl_items :: "der_control list"

record der_curve_list =
  cvl_href :: "href option"
  cvl_items :: "der_curve list"

record der =
  der_status_link :: "href option"
  der_settings_link :: "href option"
  der_capability_link :: "href option"

record der_list =
  dl_href :: "href option"
  dl_poll_rate :: "int option"
  dl_der :: "der list"

datatype usage_point_status = UsagePointOff | UsagePointOn | UsagePointOther nat

record mirror_usage_point =
  mup_href :: "href option"
  mup_mrid :: mrid
  mup_device_lfdi :: lfdi
  mup_status :: usage_point_status
  mup_readings :: "mirror_meter_reading list"
  mup_post_rate :: "int option"

record mup_list =
  mupl_href :: "href option"
  mupl_poll_rate :: "int option"
  mupl_items :: "mirror_usage_point list"

record sep2_time =
  tm_poll_rate :: "int option"

record device_capability =
  dcap_time_link :: "href option"
  dcap_end_device_list_link :: "href option"
  dcap_mup_list_link :: "href option"

text \<open>\<^verbatim>\<open>src/sep2_connection.rs\<close>: \<^verbatim>\<open>Sep2ResourceEvent\<close>.\<close>

datatype sep2_resource_event =
  EvDeviceCapability device_capability
| EvTime sep2_time
| EvEndDeviceList end_device_list
| EvFunctionSetAssignmentsList fsa_list
| EvDERProgramList der_program_list
| EvDefaultDERControl default_der_control
| EvDERControlList der_control_list
| EvDERCurveList der_curve_list
| EvDERList der_list
| EvMirrorUsagePointList mup_list

section \<open>What the scheduler emits\<close>

text \<open>
  \<^verbatim>\<open>src/scheduler/attributes.rs\<close>: \<^verbatim>\<open>ControlAttributes\<close>. The curves, a \<^verbatim>\<open>HashMap\<close>
  that is compared as a whole, are kept as a \<^verbatim>\<open>BTreeMap\<close> so that equal maps are equal values.
\<close>

record control_attributes =
  ca_inner :: default_der_control
  ca_curves :: "(href \<times> der_curve) list"

text \<open>\<^verbatim>\<open>src/scheduler.rs\<close>: \<^verbatim>\<open>PostRates\<close>, \<^verbatim>\<open>Event\<close>.\<close>

record post_rates =
  pr_der :: "int option"
  pr_mirror_usage_point :: "int option"

datatype event =
  LinkAddedOrUpdated href resource_kind "int option"
| LinkRemoved href resource_kind
| ParametersChanged control_attributes
| DERControlStatusChanged mrid response_status href
| PostRatesChanged post_rates

end
