(* ===== verification/Attributes.thy ===== *)
theory Attributes
  imports Sep2_Types
begin

text \<open>
  \<^verbatim>\<open>src/scheduler/attributes.rs\<close>: the set of control attributes the scheduler puts
  together, how two sets are laid over one another, and which curves a set refers to. The locale
  \<open>layering\<close> is the contract of one attribute under the overlay; it is interpreted for every
  attribute the later components rest on.
\<close>

named_theorems overlay_simps "the overlay, attribute by attribute"

section \<open>Definitions\<close>

definition default_control_attributes :: control_attributes where
  "default_control_attributes = \<lparr>ca_inner = default_default_der_control, ca_curves = []\<rparr>"

text \<open>\<^verbatim>\<open>is_some() as u32\<close>.\<close>

definition some_as_u32 :: "'a option \<Rightarrow> nat" where
  "some_as_u32 x = (if is_some x then 1 else 0)"

definition num_active :: "control_attributes \<Rightarrow> nat" where
  "num_active self =
    (let b = dd_base (ca_inner self); d = ca_inner self in
       some_as_u32 (op_mod_connect b)
     + some_as_u32 (op_mod_energize b)
     + some_as_u32 (op_mod_fixed_pf_absorb_w b)
     + some_as_u32 (op_mod_fixed_pf_inject_w b)
     + some_as_u32 (op_mod_fixed_var b)
     + some_as_u32 (op_mod_fixed_w b)
     + some_as_u32 (op_mod_freq_droop b)
     + some_as_u32 (op_mod_freq_watt b)
     + some_as_u32 (op_mod_hfrt_may_trip b)
     + some_as_u32 (op_mod_hfrt_must_trip b)
     + some_as_u32 (op_mod_hvrt_may_trip b)
     + some_as_u32 (op_mod_hvrt_momentary_cessation b)
     + some_as_u32 (op_mod_hvrt_must_trip b)
     + some_as_u32 (op_mod_lfrt_may_trip b)
     + some_as_u32 (op_mod_lfrt_must_trip b)
     + some_as_u32 (op_mod_lvrt_may_trip b)
     + some_as_u32 (op_mod_lvrt_momentary_cessation b)
     + some_as_u32 (op_mod_lvrt_must_trip b)
     + some_as_u32 (op_mod_max_lim_w b)
     + some_as_u32 (op_mod_target_var b)
     + some_as_u32 (op_mod_target_w b)
     + some_as_u32 (op_mod_volt_var b)
     + some_as_u32 (op_mod_volt_watt b)
     + some_as_u32 (op_mod_watt_pf b)
     + some_as_u32 (op_mod_watt_var b)
     + some_as_u32 (ramp_tms b)
     + some_as_u32 (op_mod_imp_lim_w b)
     + some_as_u32 (op_mod_exp_lim_w b)
     + some_as_u32 (op_mod_gen_lim_w b)
     + some_as_u32 (op_mod_load_lim_w b)
     + some_as_u32 (set_es_delay d)
     + some_as_u32 (set_es_high_freq d)
     + some_as_u32 (set_es_high_volt d)
     + some_as_u32 (set_es_low_freq d)
     + some_as_u32 (set_es_low_volt d)
     + some_as_u32 (set_es_ramp_tms d)
     + some_as_u32 (set_es_random_delay d)
     + some_as_u32 (set_grad_w d)
     + some_as_u32 (set_soft_grad_w d))"

definition overlay_base :: "der_control_base \<Rightarrow> der_control_base \<Rightarrow> der_control_base" where
  "overlay_base first overlay =
    \<lparr> op_mod_connect = or_else (op_mod_connect first) (op_mod_connect overlay),
      op_mod_energize = or_else (op_mod_energize first) (op_mod_energize overlay),
      op_mod_fixed_pf_absorb_w =
        or_else (op_mod_fixed_pf_absorb_w first) (op_mod_fixed_pf_absorb_w overlay),
      op_mod_fixed_pf_inject_w =
        or_else (op_mod_fixed_pf_inject_w first) (op_mod_fixed_pf_inject_w overlay),
      op_mod_fixed_var = or_else (op_mod_fixed_var first) (op_mod_fixed_var overlay),
      op_mod_fixed_w = or_else (op_mod_fixed_w first) (op_mod_fixed_w overlay),
      op_mod_freq_droop = or_else (op_mod_freq_droop first) (op_mod_freq_droop overlay),
      op_mod_freq_watt = or_else (op_mod_freq_watt first) (op_mod_freq_watt overlay),
      op_mod_hfrt_may_trip = or_else (op_mod_hfrt_may_trip first) (op_mod_hfrt_may_trip overlay),
      op_mod_hfrt_must_trip =
        or_else (op_mod_hfrt_must_trip first) (op_mod_hfrt_must_trip overlay),
      op_mod_hvrt_may_trip = or_else (op_mod_hvrt_may_trip first) (op_mod_hvrt_may_trip overlay),
      op_mod_hvrt_momentary_cessation =
        or_else (op_mod_hvrt_momentary_cessation first) (op_mod_hvrt_momentary_cessation overlay),
      op_mod_hvrt_must_trip =
        or_else (op_mod_hvrt_must_trip first) (op_mod_hvrt_must_trip overlay),
      op_mod_lfrt_may_trip = or_else (op_mod_lfrt_may_trip first) (op_mod_lfrt_may_trip overlay),
      op_mod_lfrt_must_trip =
        or_else (op_mod_lfrt_must_trip first) (op_mod_lfrt_must_trip overlay),
      op_mod_lvrt_may_trip = or_else (op_mod_lvrt_may_trip first) (op_mod_lvrt_may_trip overlay),
      op_mod_lvrt_momentary_cessation =
        or_else (op_mod_lvrt_momentary_cessation first) (op_mod_lvrt_momentary_cessation overlay),
      op_mod_lvrt_must_trip =
        or_else (op_mod_lvrt_must_trip first) (op_mod_lvrt_must_trip overlay),
      op_mod_max_lim_w = or_else (op_mod_max_lim_w first) (op_mod_max_lim_w overlay),
      op_mod_target_var = or_else (op_mod_target_var first) (op_mod_target_var overlay),
      op_mod_target_w = or_else (op_mod_target_w first) (op_mod_target_w overlay),
      op_mod_volt_var = or_else (op_mod_volt_var first) (op_mod_volt_var overlay),
      op_mod_volt_watt = or_else (op_mod_volt_watt first) (op_mod_volt_watt overlay),
      op_mod_watt_pf = or_else (op_mod_watt_pf first) (op_mod_watt_pf overlay),
      op_mod_watt_var = or_else (op_mod_watt_var first) (op_mod_watt_var overlay),
      ramp_tms = or_else (ramp_tms first) (ramp_tms overlay),
      op_mod_imp_lim_w = or_else (op_mod_imp_lim_w first) (op_mod_imp_lim_w overlay),
      op_mod_exp_lim_w = or_else (op_mod_exp_lim_w first) (op_mod_exp_lim_w overlay),
      op_mod_gen_lim_w = or_else (op_mod_gen_lim_w first) (op_mod_gen_lim_w overlay),
      op_mod_load_lim_w = or_else (op_mod_load_lim_w first) (op_mod_load_lim_w overlay) \<rparr>"

definition overlay_controls ::
  "default_der_control \<Rightarrow> default_der_control \<Rightarrow> default_der_control" where
  "overlay_controls first overlay =
    \<lparr> dd_href = dd_href default_default_der_control,
      dd_base = overlay_base (dd_base first) (dd_base overlay),
      set_es_delay = or_else (set_es_delay first) (set_es_delay overlay),
      set_es_high_freq = or_else (set_es_high_freq first) (set_es_high_freq overlay),
      set_es_high_volt = or_else (set_es_high_volt first) (set_es_high_volt overlay),
      set_es_low_freq = or_else (set_es_low_freq first) (set_es_low_freq overlay),
      set_es_low_volt = or_else (set_es_low_volt first) (set_es_low_volt overlay),
      set_es_ramp_tms = or_else (set_es_ramp_tms first) (set_es_ramp_tms overlay),
      set_es_random_delay = or_else (set_es_random_delay first) (set_es_random_delay overlay),
      set_grad_w = or_else (set_grad_w first) (set_grad_w overlay),
      set_soft_grad_w = or_else (set_soft_grad_w first) (set_soft_grad_w overlay) \<rparr>"

definition all_curve_hrefs :: "der_control_base \<Rightarrow> href list" where
  "all_curve_hrefs control = List.map_filter (\<lambda>link. link)
    [ op_mod_freq_watt control,
      op_mod_hfrt_may_trip control,
      op_mod_hfrt_must_trip control,
      op_mod_lfrt_may_trip control,
      op_mod_lfrt_must_trip control,
      op_mod_hvrt_may_trip control,
      op_mod_hvrt_must_trip control,
      op_mod_hvrt_momentary_cessation control,
      op_mod_lvrt_may_trip control,
      op_mod_lvrt_must_trip control,
      op_mod_lvrt_momentary_cessation control,
      op_mod_volt_var control,
      op_mod_volt_watt control,
      op_mod_watt_pf control,
      op_mod_watt_var control ]"

section \<open>The overlay\<close>

lemma overlay_base_assoc:
  "overlay_base (overlay_base a b) c = overlay_base a (overlay_base b c)"
  by (simp add: overlay_base_def or_else_assoc)

lemma overlay_base_idem: "overlay_base a a = a"
  by (simp add: overlay_base_def)

lemma overlay_base_default:
  "overlay_base a default_der_control_base = a" "overlay_base default_der_control_base a = a"
  by (simp_all add: overlay_base_def default_der_control_base_def)

lemma overlay_controls_assoc:
  "overlay_controls (overlay_controls a b) c = overlay_controls a (overlay_controls b c)"
  by (simp add: overlay_controls_def overlay_base_assoc or_else_assoc)

text \<open>The overlay keeps the attributes only: the href of its arguments is gone.\<close>

lemma overlay_controls_idem: "overlay_controls a a = a\<lparr>dd_href := None\<rparr>"
  by (simp add: overlay_controls_def overlay_base_idem default_default_der_control_def)

lemma overlay_controls_default:
  "overlay_controls a default_default_der_control = a\<lparr>dd_href := None\<rparr>"
  "overlay_controls default_default_der_control a = a\<lparr>dd_href := None\<rparr>"
  by (simp_all add: overlay_controls_def overlay_base_default default_default_der_control_def)

text \<open>
  One attribute under the overlay: \<open>get\<close> reads it, \<open>layer\<close> lays one set over another, the first
  winning, and \<open>bottom\<close> sets nothing. A stack of layers then holds the first value set.
\<close>

fun first_some :: "('a \<Rightarrow> 'b option) \<Rightarrow> 'a list \<Rightarrow> 'b option" where
  "first_some f [] = None"
| "first_some f (x # xs) = or_else (f x) (first_some f xs)"

locale layering =
  fixes layer :: "'c \<Rightarrow> 'c \<Rightarrow> 'c" and bottom :: 'c and get :: "'c \<Rightarrow> 'f option"
  assumes get_layer: "get (layer a b) = or_else (get a) (get b)"
    and get_bottom: "get bottom = None"
begin

lemma get_foldl: "get (foldl layer a xs) = or_else (get a) (first_some get xs)"
  by (induction xs arbitrary: a) (simp_all add: get_layer or_else_assoc)

lemma get_stack: "get (foldl layer bottom xs) = first_some get xs"
  by (simp add: get_foldl get_bottom)

lemma get_prefers_first: "get a = Some v \<Longrightarrow> get (layer a b) = Some v"
  by (simp add: get_layer)

lemma count_le_one: "some_as_u32 (get a) \<le> 1"
  by (simp add: some_as_u32_def)

lemma count_le_first: "some_as_u32 (get a) \<le> some_as_u32 (get (layer a b))"
  by (cases "get a") (simp_all add: get_layer some_as_u32_def)

lemma count_le_second: "some_as_u32 (get b) \<le> some_as_u32 (get (layer a b))"
  by (cases "get a"; cases "get b") (simp_all add: get_layer some_as_u32_def)

lemma count_le_sum:
  "some_as_u32 (get (layer a b)) \<le> some_as_u32 (get a) + some_as_u32 (get b)"
  by (cases "get a") (simp_all add: get_layer some_as_u32_def)

end

lemma first_some_append: "first_some f (xs @ ys) = or_else (first_some f xs) (first_some f ys)"
  by (induction xs) (simp_all add: or_else_assoc)

lemma first_some_eq_Some:
  "first_some f xs = Some v \<longleftrightarrow>
     (\<exists>ys x zs. xs = ys @ x # zs \<and> f x = Some v \<and> (\<forall>y \<in> set ys. f y = None))"
proof (induction xs)
  case (Cons x xs)
  show ?case
  proof (cases "f x")
    case None
    have "(\<exists>ys y zs. x # xs = ys @ y # zs \<and> f y = Some v \<and> (\<forall>w \<in> set ys. f w = None)) \<longleftrightarrow>
        (\<exists>ys y zs. xs = ys @ y # zs \<and> f y = Some v \<and> (\<forall>w \<in> set ys. f w = None))"
      (is "?l \<longleftrightarrow> ?r")
    proof
      assume ?l
      then obtain ys y zs where *: "x # xs = ys @ y # zs" "f y = Some v" "\<forall>w \<in> set ys. f w = None"
        by blast
      with None show ?r by (cases ys) auto
    next
      assume ?r
      then obtain ys y zs where "xs = ys @ y # zs" "f y = Some v" "\<forall>w \<in> set ys. f w = None"
        by blast
      with None have "x # xs = (x # ys) @ y # zs \<and> f y = Some v \<and> (\<forall>w \<in> set (x # ys). f w = None)"
        by simp
      then show ?l by blast
    qed
    with None Cons show ?thesis by simp
  next
    case (Some w)
    then have "x # xs = [] @ x # xs \<and> f x = Some w \<and> (\<forall>y \<in> set []. f y = None)" by simp
    moreover have "w = v" if "x # xs = ys @ y # zs" "f y = Some v" "\<forall>u \<in> set ys. f u = None" for ys y zs
      using that Some by (cases ys) auto
    ultimately show ?thesis using Some by (metis first_some.simps(2) option.inject or_else.simps(1))
  qed
qed simp

lemma first_some_eq_None: "first_some f xs = None \<longleftrightarrow> (\<forall>x \<in> set xs. f x = None)"
  by (induction xs) simp_all

lemmas overlay_unfold = overlay_controls_def overlay_base_def default_default_der_control_def
  default_der_control_base_def

interpretation ov_connect: layering overlay_controls default_default_der_control "\<lambda>d. op_mod_connect (dd_base d)"
  by unfold_locales (simp_all add: overlay_unfold)
interpretation ov_energize: layering overlay_controls default_default_der_control "\<lambda>d. op_mod_energize (dd_base d)"
  by unfold_locales (simp_all add: overlay_unfold)
interpretation ov_fixed_pf_absorb_w: layering overlay_controls default_default_der_control "\<lambda>d. op_mod_fixed_pf_absorb_w (dd_base d)"
  by unfold_locales (simp_all add: overlay_unfold)
interpretation ov_fixed_pf_inject_w: layering overlay_controls default_default_der_control "\<lambda>d. op_mod_fixed_pf_inject_w (dd_base d)"
  by unfold_locales (simp_all add: overlay_unfold)
interpretation ov_fixed_var: layering overlay_controls default_default_der_control "\<lambda>d. op_mod_fixed_var (dd_base d)"
  by unfold_locales (simp_all add: overlay_unfold)
interpretation ov_fixed_w: layering overlay_controls default_default_der_control "\<lambda>d. op_mod_fixed_w (dd_base d)"
  by unfold_locales (simp_all add: overlay_unfold)
interpretation ov_freq_droop: layering overlay_controls default_default_der_control "\<lambda>d. op_mod_freq_droop (dd_base d)"
  by unfold_locales (simp_all add: overlay_unfold)
interpretation ov_freq_watt: layering overlay_controls default_default_der_control "\<lambda>d. op_mod_freq_watt (dd_base d)"
  by unfold_locales (simp_all add: overlay_unfold)
interpretation ov_hfrt_may_trip: layering overlay_controls default_default_der_control "\<lambda>d. op_mod_hfrt_may_trip (dd_base d)"
  by unfold_locales (simp_all add: overlay_unfold)
interpretation ov_hfrt_must_trip: layering overlay_controls default_default_der_control "\<lambda>d. op_mod_hfrt_must_trip (dd_base d)"
  by unfold_locales (simp_all add: overlay_unfold)
interpretation ov_hvrt_may_trip: layering overlay_controls default_default_der_control "\<lambda>d. op_mod_hvrt_may_trip (dd_base d)"
  by unfold_locales (simp_all add: overlay_unfold)
interpretation ov_hvrt_momentary_cessation: layering overlay_controls default_default_der_control "\<lambda>d. op_mod_hvrt_momentary_cessation (dd_base d)"
  by unfold_locales (simp_all add: overlay_unfold)
interpretation ov_hvrt_must_trip: layering overlay_controls default_default_der_control "\<lambda>d. op_mod_hvrt_must_trip (dd_base d)"
  by unfold_locales (simp_all add: overlay_unfold)
interpretation ov_lfrt_may_trip: layering overlay_controls default_default_der_control "\<lambda>d. op_mod_lfrt_may_trip (dd_base d)"
  by unfold_locales (simp_all add: overlay_unfold)
interpretation ov_lfrt_must_trip: layering overlay_controls default_default_der_control "\<lambda>d. op_mod_lfrt_must_trip (dd_base d)"
  by unfold_locales (simp_all add: overlay_unfold)
interpretation ov_lvrt_may_trip: layering overlay_controls default_default_der_control "\<lambda>d. op_mod_lvrt_may_trip (dd_base d)"
  by unfold_locales (simp_all add: overlay_unfold)
interpretation ov_lvrt_momentary_cessation: layering overlay_controls default_default_der_control "\<lambda>d. op_mod_lvrt_momentary_cessation (dd_base d)"
  by unfold_locales (simp_all add: overlay_unfold)
interpretation ov_lvrt_must_trip: layering overlay_controls default_default_der_control "\<lambda>d. op_mod_lvrt_must_trip (dd_base d)"
  by unfold_locales (simp_all add: overlay_unfold)
interpretation ov_max_lim_w: layering overlay_controls default_default_der_control "\<lambda>d. op_mod_max_lim_w (dd_base d)"
  by unfold_locales (simp_all add: overlay_unfold)
interpretation ov_target_var: layering overlay_controls default_default_der_control "\<lambda>d. op_mod_target_var (dd_base d)"
  by unfold_locales (simp_all add: overlay_unfold)
interpretation ov_target_w: layering overlay_controls default_default_der_control "\<lambda>d. op_mod_target_w (dd_base d)"
  by unfold_locales (simp_all add: overlay_unfold)
interpretation ov_volt_var: layering overlay_controls default_default_der_control "\<lambda>d. op_mod_volt_var (dd_base d)"
  by unfold_locales (simp_all add: overlay_unfold)
interpretation ov_volt_watt: layering overlay_controls default_default_der_control "\<lambda>d. op_mod_volt_watt (dd_base d)"
  by unfold_locales (simp_all add: overlay_unfold)
interpretation ov_watt_pf: layering overlay_controls default_default_der_control "\<lambda>d. op_mod_watt_pf (dd_base d)"
  by unfold_locales (simp_all add: overlay_unfold)
interpretation ov_watt_var: layering overlay_controls default_default_der_control "\<lambda>d. op_mod_watt_var (dd_base d)"
  by unfold_locales (simp_all add: overlay_unfold)
interpretation ov_ramp_tms: layering overlay_controls default_default_der_control "\<lambda>d. ramp_tms (dd_base d)"
  by unfold_locales (simp_all add: overlay_unfold)
interpretation ov_imp_lim_w: layering overlay_controls default_default_der_control "\<lambda>d. op_mod_imp_lim_w (dd_base d)"
  by unfold_locales (simp_all add: overlay_unfold)
interpretation ov_exp_lim_w: layering overlay_controls default_default_der_control "\<lambda>d. op_mod_exp_lim_w (dd_base d)"
  by unfold_locales (simp_all add: overlay_unfold)
interpretation ov_gen_lim_w: layering overlay_controls default_default_der_control "\<lambda>d. op_mod_gen_lim_w (dd_base d)"
  by unfold_locales (simp_all add: overlay_unfold)
interpretation ov_load_lim_w: layering overlay_controls default_default_der_control "\<lambda>d. op_mod_load_lim_w (dd_base d)"
  by unfold_locales (simp_all add: overlay_unfold)
interpretation ov_set_es_delay: layering overlay_controls default_default_der_control "set_es_delay"
  by unfold_locales (simp_all add: overlay_unfold)
interpretation ov_set_es_high_freq: layering overlay_controls default_default_der_control "set_es_high_freq"
  by unfold_locales (simp_all add: overlay_unfold)
interpretation ov_set_es_high_volt: layering overlay_controls default_default_der_control "set_es_high_volt"
  by unfold_locales (simp_all add: overlay_unfold)
interpretation ov_set_es_low_freq: layering overlay_controls default_default_der_control "set_es_low_freq"
  by unfold_locales (simp_all add: overlay_unfold)
interpretation ov_set_es_low_volt: layering overlay_controls default_default_der_control "set_es_low_volt"
  by unfold_locales (simp_all add: overlay_unfold)
interpretation ov_set_es_ramp_tms: layering overlay_controls default_default_der_control "set_es_ramp_tms"
  by unfold_locales (simp_all add: overlay_unfold)
interpretation ov_set_es_random_delay: layering overlay_controls default_default_der_control "set_es_random_delay"
  by unfold_locales (simp_all add: overlay_unfold)
interpretation ov_set_grad_w: layering overlay_controls default_default_der_control "set_grad_w"
  by unfold_locales (simp_all add: overlay_unfold)
interpretation ov_set_soft_grad_w: layering overlay_controls default_default_der_control "set_soft_grad_w"
  by unfold_locales (simp_all add: overlay_unfold)


lemmas attribute_stack = ov_connect.get_stack
  ov_energize.get_stack
  ov_fixed_pf_absorb_w.get_stack
  ov_fixed_pf_inject_w.get_stack
  ov_fixed_var.get_stack
  ov_fixed_w.get_stack
  ov_freq_droop.get_stack
  ov_freq_watt.get_stack
  ov_hfrt_may_trip.get_stack
  ov_hfrt_must_trip.get_stack
  ov_hvrt_may_trip.get_stack
  ov_hvrt_momentary_cessation.get_stack
  ov_hvrt_must_trip.get_stack
  ov_lfrt_may_trip.get_stack
  ov_lfrt_must_trip.get_stack
  ov_lvrt_may_trip.get_stack
  ov_lvrt_momentary_cessation.get_stack
  ov_lvrt_must_trip.get_stack
  ov_max_lim_w.get_stack
  ov_target_var.get_stack
  ov_target_w.get_stack
  ov_volt_var.get_stack
  ov_volt_watt.get_stack
  ov_watt_pf.get_stack
  ov_watt_var.get_stack
  ov_ramp_tms.get_stack
  ov_imp_lim_w.get_stack
  ov_exp_lim_w.get_stack
  ov_gen_lim_w.get_stack
  ov_load_lim_w.get_stack
  ov_set_es_delay.get_stack
  ov_set_es_high_freq.get_stack
  ov_set_es_high_volt.get_stack
  ov_set_es_low_freq.get_stack
  ov_set_es_low_volt.get_stack
  ov_set_es_ramp_tms.get_stack
  ov_set_es_random_delay.get_stack
  ov_set_grad_w.get_stack
  ov_set_soft_grad_w.get_stack

lemmas attribute_le_one =
  ov_connect.count_le_one
  ov_energize.count_le_one
  ov_fixed_pf_absorb_w.count_le_one
  ov_fixed_pf_inject_w.count_le_one
  ov_fixed_var.count_le_one
  ov_fixed_w.count_le_one
  ov_freq_droop.count_le_one
  ov_freq_watt.count_le_one
  ov_hfrt_may_trip.count_le_one
  ov_hfrt_must_trip.count_le_one
  ov_hvrt_may_trip.count_le_one
  ov_hvrt_momentary_cessation.count_le_one
  ov_hvrt_must_trip.count_le_one
  ov_lfrt_may_trip.count_le_one
  ov_lfrt_must_trip.count_le_one
  ov_lvrt_may_trip.count_le_one
  ov_lvrt_momentary_cessation.count_le_one
  ov_lvrt_must_trip.count_le_one
  ov_max_lim_w.count_le_one
  ov_target_var.count_le_one
  ov_target_w.count_le_one
  ov_volt_var.count_le_one
  ov_volt_watt.count_le_one
  ov_watt_pf.count_le_one
  ov_watt_var.count_le_one
  ov_ramp_tms.count_le_one
  ov_imp_lim_w.count_le_one
  ov_exp_lim_w.count_le_one
  ov_gen_lim_w.count_le_one
  ov_load_lim_w.count_le_one
  ov_set_es_delay.count_le_one
  ov_set_es_high_freq.count_le_one
  ov_set_es_high_volt.count_le_one
  ov_set_es_low_freq.count_le_one
  ov_set_es_low_volt.count_le_one
  ov_set_es_ramp_tms.count_le_one
  ov_set_es_random_delay.count_le_one
  ov_set_grad_w.count_le_one
  ov_set_soft_grad_w.count_le_one

lemmas attribute_le_first =
  ov_connect.count_le_first
  ov_energize.count_le_first
  ov_fixed_pf_absorb_w.count_le_first
  ov_fixed_pf_inject_w.count_le_first
  ov_fixed_var.count_le_first
  ov_fixed_w.count_le_first
  ov_freq_droop.count_le_first
  ov_freq_watt.count_le_first
  ov_hfrt_may_trip.count_le_first
  ov_hfrt_must_trip.count_le_first
  ov_hvrt_may_trip.count_le_first
  ov_hvrt_momentary_cessation.count_le_first
  ov_hvrt_must_trip.count_le_first
  ov_lfrt_may_trip.count_le_first
  ov_lfrt_must_trip.count_le_first
  ov_lvrt_may_trip.count_le_first
  ov_lvrt_momentary_cessation.count_le_first
  ov_lvrt_must_trip.count_le_first
  ov_max_lim_w.count_le_first
  ov_target_var.count_le_first
  ov_target_w.count_le_first
  ov_volt_var.count_le_first
  ov_volt_watt.count_le_first
  ov_watt_pf.count_le_first
  ov_watt_var.count_le_first
  ov_ramp_tms.count_le_first
  ov_imp_lim_w.count_le_first
  ov_exp_lim_w.count_le_first
  ov_gen_lim_w.count_le_first
  ov_load_lim_w.count_le_first
  ov_set_es_delay.count_le_first
  ov_set_es_high_freq.count_le_first
  ov_set_es_high_volt.count_le_first
  ov_set_es_low_freq.count_le_first
  ov_set_es_low_volt.count_le_first
  ov_set_es_ramp_tms.count_le_first
  ov_set_es_random_delay.count_le_first
  ov_set_grad_w.count_le_first
  ov_set_soft_grad_w.count_le_first

lemmas attribute_le_second =
  ov_connect.count_le_second
  ov_energize.count_le_second
  ov_fixed_pf_absorb_w.count_le_second
  ov_fixed_pf_inject_w.count_le_second
  ov_fixed_var.count_le_second
  ov_fixed_w.count_le_second
  ov_freq_droop.count_le_second
  ov_freq_watt.count_le_second
  ov_hfrt_may_trip.count_le_second
  ov_hfrt_must_trip.count_le_second
  ov_hvrt_may_trip.count_le_second
  ov_hvrt_momentary_cessation.count_le_second
  ov_hvrt_must_trip.count_le_second
  ov_lfrt_may_trip.count_le_second
  ov_lfrt_must_trip.count_le_second
  ov_lvrt_may_trip.count_le_second
  ov_lvrt_momentary_cessation.count_le_second
  ov_lvrt_must_trip.count_le_second
  ov_max_lim_w.count_le_second
  ov_target_var.count_le_second
  ov_target_w.count_le_second
  ov_volt_var.count_le_second
  ov_volt_watt.count_le_second
  ov_watt_pf.count_le_second
  ov_watt_var.count_le_second
  ov_ramp_tms.count_le_second
  ov_imp_lim_w.count_le_second
  ov_exp_lim_w.count_le_second
  ov_gen_lim_w.count_le_second
  ov_load_lim_w.count_le_second
  ov_set_es_delay.count_le_second
  ov_set_es_high_freq.count_le_second
  ov_set_es_high_volt.count_le_second
  ov_set_es_low_freq.count_le_second
  ov_set_es_low_volt.count_le_second
  ov_set_es_ramp_tms.count_le_second
  ov_set_es_random_delay.count_le_second
  ov_set_grad_w.count_le_second
  ov_set_soft_grad_w.count_le_second

lemmas attribute_le_sum =
  ov_connect.count_le_sum
  ov_energize.count_le_sum
  ov_fixed_pf_absorb_w.count_le_sum
  ov_fixed_pf_inject_w.count_le_sum
  ov_fixed_var.count_le_sum
  ov_fixed_w.count_le_sum
  ov_freq_droop.count_le_sum
  ov_freq_watt.count_le_sum
  ov_hfrt_may_trip.count_le_sum
  ov_hfrt_must_trip.count_le_sum
  ov_hvrt_may_trip.count_le_sum
  ov_hvrt_momentary_cessation.count_le_sum
  ov_hvrt_must_trip.count_le_sum
  ov_lfrt_may_trip.count_le_sum
  ov_lfrt_must_trip.count_le_sum
  ov_lvrt_may_trip.count_le_sum
  ov_lvrt_momentary_cessation.count_le_sum
  ov_lvrt_must_trip.count_le_sum
  ov_max_lim_w.count_le_sum
  ov_target_var.count_le_sum
  ov_target_w.count_le_sum
  ov_volt_var.count_le_sum
  ov_volt_watt.count_le_sum
  ov_watt_pf.count_le_sum
  ov_watt_var.count_le_sum
  ov_ramp_tms.count_le_sum
  ov_imp_lim_w.count_le_sum
  ov_exp_lim_w.count_le_sum
  ov_gen_lim_w.count_le_sum
  ov_load_lim_w.count_le_sum
  ov_set_es_delay.count_le_sum
  ov_set_es_high_freq.count_le_sum
  ov_set_es_high_volt.count_le_sum
  ov_set_es_low_freq.count_le_sum
  ov_set_es_low_volt.count_le_sum
  ov_set_es_ramp_tms.count_le_sum
  ov_set_es_random_delay.count_le_sum
  ov_set_grad_w.count_le_sum
  ov_set_soft_grad_w.count_le_sum

lemma num_active_inner:
  "num_active (ca\<lparr>ca_inner := a\<rparr>) =
    (let b = dd_base a; d = a in
       some_as_u32 (op_mod_connect b)
     + some_as_u32 (op_mod_energize b)
     + some_as_u32 (op_mod_fixed_pf_absorb_w b)
     + some_as_u32 (op_mod_fixed_pf_inject_w b)
     + some_as_u32 (op_mod_fixed_var b)
     + some_as_u32 (op_mod_fixed_w b)
     + some_as_u32 (op_mod_freq_droop b)
     + some_as_u32 (op_mod_freq_watt b)
     + some_as_u32 (op_mod_hfrt_may_trip b)
     + some_as_u32 (op_mod_hfrt_must_trip b)
     + some_as_u32 (op_mod_hvrt_may_trip b)
     + some_as_u32 (op_mod_hvrt_momentary_cessation b)
     + some_as_u32 (op_mod_hvrt_must_trip b)
     + some_as_u32 (op_mod_lfrt_may_trip b)
     + some_as_u32 (op_mod_lfrt_must_trip b)
     + some_as_u32 (op_mod_lvrt_may_trip b)
     + some_as_u32 (op_mod_lvrt_momentary_cessation b)
     + some_as_u32 (op_mod_lvrt_must_trip b)
     + some_as_u32 (op_mod_max_lim_w b)
     + some_as_u32 (op_mod_target_var b)
     + some_as_u32 (op_mod_target_w b)
     + some_as_u32 (op_mod_volt_var b)
     + some_as_u32 (op_mod_volt_watt b)
     + some_as_u32 (op_mod_watt_pf b)
     + some_as_u32 (op_mod_watt_var b)
     + some_as_u32 (ramp_tms b)
     + some_as_u32 (op_mod_imp_lim_w b)
     + some_as_u32 (op_mod_exp_lim_w b)
     + some_as_u32 (op_mod_gen_lim_w b)
     + some_as_u32 (op_mod_load_lim_w b)
     + some_as_u32 (set_es_delay d)
     + some_as_u32 (set_es_high_freq d)
     + some_as_u32 (set_es_high_volt d)
     + some_as_u32 (set_es_low_freq d)
     + some_as_u32 (set_es_low_volt d)
     + some_as_u32 (set_es_ramp_tms d)
     + some_as_u32 (set_es_random_delay d)
     + some_as_u32 (set_grad_w d)
     + some_as_u32 (set_soft_grad_w d))"
  by (simp add: num_active_def)

section \<open>Properties\<close>

text \<open>
  Laying sets of attributes over one another is a stack: the overlay is associative and
  idempotent, the empty set is neutral on either side, and a stack folded in order, as the
  scheduler folds it, may be folded in two parts and the results laid over each other. An overlay
  never carries the href of a layer.
\<close>

theorem overlay_is_a_stack:
  "overlay_controls (overlay_controls a b) c = overlay_controls a (overlay_controls b c) \<and>
   overlay_controls a a = a\<lparr>dd_href := None\<rparr> \<and>
   overlay_controls default_default_der_control a = a\<lparr>dd_href := None\<rparr> \<and>
   overlay_controls a default_default_der_control = a\<lparr>dd_href := None\<rparr> \<and>
   foldl overlay_controls a (xs @ ys) =
     (if xs = [] \<and> ys = [] then a
      else overlay_controls (foldl overlay_controls a xs)
             (foldl overlay_controls default_default_der_control ys))"
proof -
  have href: "dd_href (overlay_controls d e) = None" for d e
    by (simp add: overlay_unfold)
  have own: "dd_href d = None \<Longrightarrow> d\<lparr>dd_href := None\<rparr> = d" for d :: default_der_control
    by simp
  have fold_href: "dd_href (foldl overlay_controls d zs) = (if zs = [] then dd_href d else None)" for d zs
    by (induction zs arbitrary: d) (simp_all add: href)
  have split: "foldl overlay_controls d (z # zs) =
      overlay_controls d (foldl overlay_controls default_default_der_control (z # zs))" for d z zs
  proof (induction zs rule: rev_induct)
    case Nil
    show ?case by (simp add: overlay_controls_default) (simp add: overlay_controls_def)
  next
    case (snoc y zs)
    then show ?case by (simp add: overlay_controls_assoc)
  qed
  have "foldl overlay_controls a (xs @ ys) =
     (if xs = [] \<and> ys = [] then a
      else overlay_controls (foldl overlay_controls a xs)
             (foldl overlay_controls default_default_der_control ys))"
  proof (cases ys)
    case Nil
    then show ?thesis
      using fold_href [of a xs] by (simp add: overlay_controls_default)
  next
    case (Cons z zs)
    then show ?thesis
      using split [of "foldl overlay_controls a xs" z zs] by simp
  qed
  then show ?thesis
    by (simp add: overlay_controls_assoc overlay_controls_idem overlay_controls_default)
qed

text \<open>
  The number of active attributes of an overlay is at least that of either set and at most
  their sum.
\<close>

theorem num_active_overlay:
  "max (num_active (ca\<lparr>ca_inner := a\<rparr>)) (num_active (ca\<lparr>ca_inner := b\<rparr>))
     \<le> num_active (ca\<lparr>ca_inner := overlay_controls a b\<rparr>) \<and>
   num_active (ca\<lparr>ca_inner := overlay_controls a b\<rparr>)
     \<le> num_active (ca\<lparr>ca_inner := a\<rparr>) + num_active (ca\<lparr>ca_inner := b\<rparr>) \<and>
   num_active (ca\<lparr>ca_inner := a\<rparr>) \<le> 39"
proof -
  note inner = num_active_inner [unfolded Let_def]
  have "num_active (ca\<lparr>ca_inner := a\<rparr>) \<le> num_active (ca\<lparr>ca_inner := overlay_controls a b\<rparr>)"
    using attribute_le_first [of a b] unfolding inner by linarith
  moreover have "num_active (ca\<lparr>ca_inner := b\<rparr>) \<le> num_active (ca\<lparr>ca_inner := overlay_controls a b\<rparr>)"
    using attribute_le_second [of b a] unfolding inner by linarith
  moreover have "num_active (ca\<lparr>ca_inner := overlay_controls a b\<rparr>)
     \<le> num_active (ca\<lparr>ca_inner := a\<rparr>) + num_active (ca\<lparr>ca_inner := b\<rparr>)"
    using attribute_le_sum [of a b] unfolding inner by linarith
  moreover have "num_active (ca\<lparr>ca_inner := a\<rparr>) \<le> 39"
    using attribute_le_one [of a] unfolding inner by linarith
  ultimately show ?thesis by simp
qed

text \<open>
  The curves a set of controls refers to are exactly the links of its fifteen curve
  attributes, none missed and none invented.
\<close>

theorem all_curve_hrefs_complete:
  "h \<in> set (all_curve_hrefs c) \<longleftrightarrow>
     Some h \<in> {op_mod_freq_watt c, op_mod_hfrt_may_trip c, op_mod_hfrt_must_trip c,
       op_mod_lfrt_may_trip c, op_mod_lfrt_must_trip c, op_mod_hvrt_may_trip c,
       op_mod_hvrt_must_trip c, op_mod_hvrt_momentary_cessation c, op_mod_lvrt_may_trip c,
       op_mod_lvrt_must_trip c, op_mod_lvrt_momentary_cessation c, op_mod_volt_var c,
       op_mod_volt_watt c, op_mod_watt_pf c, op_mod_watt_var c}"
  unfolding all_curve_hrefs_def in_set_map_filter_id by auto

end
