(* ===== verification/Sep2_Model.thy ===== *)
theory Sep2_Model
  imports Attributes
begin

text \<open>
  \<^verbatim>\<open>src/scheduler/sep2_model.rs\<close>: the model of the upstream server the scheduler keeps,
  the upsert of every resource, the realisation of a control's randomised interval, and the
  ordered list of the controls that apply to a device. \<^verbatim>\<open>Resource_Links\<close> holds the second
  half of the file (links, garbage collection, \<^verbatim>\<open>apply_update\<close>).
\<close>

section \<open>State\<close>

record scheduled_control =
  sc_der_control :: der_control
  sc_start_time :: int
  sc_duration :: int

definition end_time :: "scheduled_control \<Rightarrow> int" where
  "end_time self = wrap_i64 (sc_start_time self + sc_duration self)"

record 'a id_list =
  idl_href :: href
  idl_items :: "'a list"
  idl_poll_rate :: "int option"

datatype control_ref =
  RefScheduled scheduled_control
| RefDefault default_der_control

record sep2_model =
  m_time :: sep2_time
  m_fsa_lists :: "(href \<times> mrid id_list) list"
  m_program_lists :: "(href \<times> mrid id_list) list"
  m_control_lists :: "(href \<times> mrid id_list) list"
  m_curve_lists :: "(href \<times> mrid id_list) list"
  m_end_device_list :: "lfdi id_list option"
  m_dcap :: "device_capability option"
  m_mup_list :: "mup_list option"
  m_der_lists :: "(href \<times> der_list) list"
  m_end_devices :: "(lfdi \<times> end_device) list"
  m_fsas :: "(mrid \<times> fsa) list"
  m_programs :: "(mrid \<times> der_program) list"
  m_controls :: "(mrid \<times> scheduled_control) list"
  m_curves :: "(mrid \<times> der_curve) list"
  m_default_controls :: "(href \<times> default_der_control) list"

definition default_sep2_model :: sep2_model where
  "default_sep2_model =
    \<lparr> m_time = \<lparr>tm_poll_rate = None\<rparr>, m_fsa_lists = [], m_program_lists = [],
      m_control_lists = [], m_curve_lists = [], m_end_device_list = None, m_dcap = None,
      m_mup_list = None, m_der_lists = [], m_end_devices = [], m_fsas = [], m_programs = [],
      m_controls = [], m_curves = [], m_default_controls = [] \<rparr>"

section \<open>Upserts\<close>

definition set_dcap :: "device_capability \<Rightarrow> sep2_model \<Rightarrow> sep2_model" where
  "set_dcap dcap m = m\<lparr>m_dcap := Some dcap\<rparr>"

definition set_time :: "sep2_time \<Rightarrow> sep2_model \<Rightarrow> sep2_model" where
  "set_time time m = m\<lparr>m_time := time\<rparr>"

definition set_end_device :: "end_device \<Rightarrow> sep2_model \<Rightarrow> sep2_model" where
  "set_end_device incoming m =
    (case ed_lfdi incoming of
       None \<Rightarrow> m
     | Some lfdi \<Rightarrow> m\<lparr>m_end_devices := hm_insert lfdi incoming (m_end_devices m)\<rparr>)"

definition set_end_device_list :: "end_device_list \<Rightarrow> sep2_model \<Rightarrow> sep2_model" where
  "set_end_device_list incoming m =
    (case edl_href incoming of
       None \<Rightarrow> m
     | Some href \<Rightarrow>
         fold set_end_device (edl_end_device incoming)
           (m\<lparr>m_end_device_list := Some \<lparr>idl_href = href,
                idl_items = List.map_filter ed_lfdi (edl_end_device incoming),
                idl_poll_rate = edl_poll_rate incoming\<rparr>\<rparr>))"

definition set_function_set_assignments :: "fsa \<Rightarrow> sep2_model \<Rightarrow> sep2_model" where
  "set_function_set_assignments incoming m =
    m\<lparr>m_fsas := hm_insert (fsa_mrid incoming) incoming (m_fsas m)\<rparr>"

definition set_function_set_assignments_list :: "fsa_list \<Rightarrow> sep2_model \<Rightarrow> sep2_model" where
  "set_function_set_assignments_list incoming m =
    (case fsal_href incoming of
       None \<Rightarrow> m
     | Some href \<Rightarrow>
         fold set_function_set_assignments (fsal_items incoming)
           (m\<lparr>m_fsa_lists := hm_insert href \<lparr>idl_href = href,
                idl_items = map fsa_mrid (fsal_items incoming),
                idl_poll_rate = fsal_poll_rate incoming\<rparr> (m_fsa_lists m)\<rparr>))"

definition set_der_program :: "der_program \<Rightarrow> sep2_model \<Rightarrow> sep2_model" where
  "set_der_program incoming m =
    m\<lparr>m_programs := hm_insert (dp_mrid incoming) incoming (m_programs m)\<rparr>"

definition set_der_program_list :: "der_program_list \<Rightarrow> sep2_model \<Rightarrow> sep2_model" where
  "set_der_program_list incoming m =
    (case dpl_href incoming of
       None \<Rightarrow> m
     | Some href \<Rightarrow>
         fold set_der_program (dpl_items incoming)
           (m\<lparr>m_program_lists := hm_insert href \<lparr>idl_href = href,
                idl_items = map dp_mrid (dpl_items incoming),
                idl_poll_rate = dpl_poll_rate incoming\<rparr> (m_program_lists m)\<rparr>))"

definition set_default_der_control :: "default_der_control \<Rightarrow> sep2_model \<Rightarrow> sep2_model" where
  "set_default_der_control incoming m =
    (case dd_href incoming of
       None \<Rightarrow> m
     | Some href \<Rightarrow> m\<lparr>m_default_controls := hm_insert href incoming (m_default_controls m)\<rparr>)"

definition set_der_list :: "der_list \<Rightarrow> sep2_model \<Rightarrow> sep2_model" where
  "set_der_list incoming m =
    (case dl_href incoming of
       None \<Rightarrow> m
     | Some href \<Rightarrow> m\<lparr>m_der_lists := hm_insert href incoming (m_der_lists m)\<rparr>)"

definition set_mirror_usage_point_list :: "mup_list \<Rightarrow> sep2_model \<Rightarrow> sep2_model" where
  "set_mirror_usage_point_list incoming m = m\<lparr>m_mup_list := Some incoming\<rparr>"

definition set_der_curve :: "der_curve \<Rightarrow> sep2_model \<Rightarrow> sep2_model" where
  "set_der_curve incoming m = m\<lparr>m_curves := hm_insert (cv_mrid incoming) incoming (m_curves m)\<rparr>"

definition set_der_curve_list :: "der_curve_list \<Rightarrow> sep2_model \<Rightarrow> sep2_model" where
  "set_der_curve_list incoming m =
    (case cvl_href incoming of
       None \<Rightarrow> m
     | Some href \<Rightarrow>
         fold set_der_curve (cvl_items incoming)
           (m\<lparr>m_curve_lists := hm_insert href \<lparr>idl_href = href,
                idl_items = map cv_mrid (cvl_items incoming),
                idl_poll_rate = None\<rparr> (m_curve_lists m)\<rparr>))"

section \<open>Controls: randomisation and responses\<close>

text \<open>
  \<^verbatim>\<open>src/scheduler.rs\<close>: \<^verbatim>\<open>reply_to_if_required\<close>.
\<close>

definition reply_to_if_required :: "der_control \<Rightarrow> response_flag \<Rightarrow> href option" where
  "reply_to_if_required control response_type =
    (case dc_response_required control of
       None \<Rightarrow> None
     | Some rr \<Rightarrow> if response_type \<in> set rr then dc_reply_to control else None)"

text \<open>
  The two sources of nondeterminism, the random number generator and the clock, are an
  environment: \<open>rnd n lo hi\<close> is what the \<open>n\<close>-th call of \<^verbatim>\<open>random_range(lo..=hi)\<close> returns
  and \<open>clk n\<close> what \<^verbatim>\<open>Utc::now().timestamp()\<close> returns after \<open>n\<close> calls of the generator.
  \<^verbatim>\<open>random_range\<close> panics on an empty range: \<open>None\<close>.
\<close>

record env =
  rnd :: "nat \<Rightarrow> int \<Rightarrow> int \<Rightarrow> int"
  clk :: "nat \<Rightarrow> int"

definition rng_ok :: "env \<Rightarrow> bool" where
  "rng_ok e \<longleftrightarrow> (\<forall>n lo hi. lo \<le> hi \<longrightarrow> lo \<le> rnd e n lo hi \<and> rnd e n lo hi \<le> hi)"

definition random_range :: "env \<Rightarrow> nat \<Rightarrow> int \<Rightarrow> int \<Rightarrow> int option" where
  "random_range e n lo hi = (if lo \<le> hi then Some (rnd e n lo hi) else None)"

definition unwrap_or :: "'a \<Rightarrow> 'a option \<Rightarrow> 'a" where
  "unwrap_or d x = (case x of None \<Rightarrow> d | Some y \<Rightarrow> y)"

text \<open>\<^verbatim>\<open>(i64::from(d) + i64::from(shift)).max(0) as u32\<close>: the cast keeps the low 32 bits.\<close>

definition shifted_duration :: "int \<Rightarrow> int \<Rightarrow> int" where
  "shifted_duration duration shift = max (duration + shift) 0 mod 2 ^ 32"

text \<open>The first branch: the control is known, only its inner part is replaced.\<close>

definition status_change_event :: "event_status_type \<Rightarrow> der_control \<Rightarrow> event list" where
  "status_change_event prior_status incoming =
    (let new_status = dc_current_status incoming;
         reply = reply_to_if_required incoming SpecificResponse
     in if prior_status = new_status then []
        else if new_status = Cancelled then
          (case reply of None \<Rightarrow> []
           | Some r \<Rightarrow> [DERControlStatusChanged (dc_mrid incoming) EventCancelled r])
        else if new_status = Superseded then
          (case reply of None \<Rightarrow> []
           | Some r \<Rightarrow> [DERControlStatusChanged (dc_mrid incoming) EventSuperseded r])
        else [])"

text \<open>The second: a new control is realised once, acknowledged, and perhaps already running.\<close>

definition realise_control :: "env \<Rightarrow> nat \<Rightarrow> der_control \<Rightarrow> scheduled_control option" where
  "realise_control e n incoming =
    (let randomize_start = unwrap_or 0 (dc_randomize_start incoming);
         randomize_duration = unwrap_or 0 (dc_randomize_duration incoming)
     in case random_range e n (- randomize_start) randomize_start of
          None \<Rightarrow> None
        | Some start_shift \<Rightarrow>
            (case random_range e (Suc n) (- randomize_duration) randomize_duration of
               None \<Rightarrow> None
             | Some duration_shift \<Rightarrow>
                 Some \<lparr> sc_der_control = incoming,
                        sc_start_time = wrap_i64 (dc_interval_start incoming + start_shift),
                        sc_duration = shifted_duration (dc_interval_duration incoming) duration_shift \<rparr>))"

definition new_control_events :: "int \<Rightarrow> scheduled_control \<Rightarrow> event list" where
  "new_control_events now control =
    (let incoming = sc_der_control control;
         already_started = (dc_current_status incoming = Active \<and> sc_start_time control \<le> now
           \<and> wrap_i64 (sc_start_time control + sc_duration control) > now)
     in (case reply_to_if_required incoming MessageReceived of None \<Rightarrow> []
         | Some r \<Rightarrow> [DERControlStatusChanged (dc_mrid incoming) EventReceived r])
        @ (if already_started then
             (case reply_to_if_required incoming SpecificResponse of None \<Rightarrow> []
              | Some r \<Rightarrow> [DERControlStatusChanged (dc_mrid incoming) EventStarted r])
           else []))"

definition set_der_control ::
  "env \<Rightarrow> nat \<Rightarrow> der_control \<Rightarrow> sep2_model \<Rightarrow> (sep2_model \<times> event list \<times> nat) option" where
  "set_der_control e n incoming m =
    (let mrid = dc_mrid incoming
     in case map_of (m_controls m) mrid of
          Some entry \<Rightarrow>
            Some (m\<lparr>m_controls := hm_insert mrid (entry\<lparr>sc_der_control := incoming\<rparr>) (m_controls m)\<rparr>,
                  status_change_event (dc_current_status (sc_der_control entry)) incoming, n)
        | None \<Rightarrow>
            (case realise_control e n incoming of
               None \<Rightarrow> None
             | Some control \<Rightarrow>
                 Some (m\<lparr>m_controls := hm_insert mrid control (m_controls m)\<rparr>,
                       new_control_events (clk e (n + 2)) control, n + 2)))"

fun set_der_controls ::
  "env \<Rightarrow> nat \<Rightarrow> der_control list \<Rightarrow> sep2_model \<Rightarrow> (sep2_model \<times> event list \<times> nat) option" where
  "set_der_controls e n [] m = Some (m, [], n)"
| "set_der_controls e n (derc # dercs) m =
    (case set_der_control e n derc m of
       None \<Rightarrow> None
     | Some (m', es, n') \<Rightarrow>
         (case set_der_controls e n' dercs m' of
            None \<Rightarrow> None
          | Some (m'', es', n'') \<Rightarrow> Some (m'', es @ es', n'')))"

definition set_der_control_list ::
  "env \<Rightarrow> der_control_list \<Rightarrow> sep2_model \<Rightarrow> (sep2_model \<times> event list) option" where
  "set_der_control_list e incoming m =
    (case dcl_href incoming of
       None \<Rightarrow> Some (m, [])
     | Some href \<Rightarrow>
         (case set_der_controls e 0 (dcl_items incoming)
                 (m\<lparr>m_control_lists := hm_insert href \<lparr>idl_href = href,
                      idl_items = map dc_mrid (dcl_items incoming),
                      idl_poll_rate = None\<rparr> (m_control_lists m)\<rparr>) of
            None \<Rightarrow> None
          | Some (m', es, _) \<Rightarrow> Some (m', es)))"

section \<open>Lookups\<close>

definition list_items :: "'k id_list option \<Rightarrow> ('k \<times> 'v) list \<Rightarrow> 'v list" where
  "list_items list items =
    (case list of None \<Rightarrow> [] | Some l \<Rightarrow> List.map_filter (map_of items) (idl_items l))"

definition der_list_poll_rate :: "sep2_model \<Rightarrow> lfdi \<Rightarrow> int option" where
  "der_list_poll_rate m lfdi =
    (case map_of (m_end_devices m) lfdi of
       None \<Rightarrow> None
     | Some edev \<Rightarrow>
         (case ed_der_list_link edev of
            None \<Rightarrow> None
          | Some link \<Rightarrow>
              (case map_of (m_der_lists m) link of
                 None \<Rightarrow> None
               | Some derl \<Rightarrow> dl_poll_rate derl)))"

definition mirror_usage_point_post_rate :: "sep2_model \<Rightarrow> lfdi \<Rightarrow> int option" where
  "mirror_usage_point_post_rate m lfdi =
    (case m_mup_list m of
       None \<Rightarrow> None
     | Some mupl \<Rightarrow>
         (case find (\<lambda>mup. mup_device_lfdi mup = lfdi) (mupl_items mupl) of
            None \<Rightarrow> None
          | Some mup \<Rightarrow> mup_post_rate mup))"

definition get_end_device :: "sep2_model \<Rightarrow> lfdi \<Rightarrow> end_device option" where
  "get_end_device m lfdi = map_of (m_end_devices m) lfdi"

definition get_curve_by_href :: "sep2_model \<Rightarrow> href \<Rightarrow> der_curve option" where
  "get_curve_by_href m href = find (\<lambda>curve. cv_href curve = Some href) (map snd (m_curves m))"

section \<open>The controls of a device, in order of priority\<close>

definition control_retained :: "int \<Rightarrow> scheduled_control \<Rightarrow> bool" where
  "control_retained now control \<longleftrightarrow>
     dc_current_status (sc_der_control control) \<in> {Scheduled, Active} \<and> end_time control > now"

definition programs_for_fsa_list :: "sep2_model \<Rightarrow> mrid id_list \<Rightarrow> der_program list" where
  "programs_for_fsa_list m fsal =
    concat (map (\<lambda>derpl. List.map_filter (map_of (m_programs m)) (idl_items derpl))
      (List.map_filter
        (\<lambda>fsa. case fsa_program_list_link fsa of
                 None \<Rightarrow> None
               | Some href \<Rightarrow> map_of (m_program_lists m) href)
        (List.map_filter (map_of (m_fsas m)) (idl_items fsal))))"

definition program_controls :: "sep2_model \<Rightarrow> int \<Rightarrow> der_program \<Rightarrow> (nat \<times> control_ref) list" where
  "program_controls m now program =
    (let dercl = (case dp_control_list_link program of
                    None \<Rightarrow> None
                  | Some href \<Rightarrow> map_of (m_control_lists m) href);
         scheduled_controls =
           (case dercl of
              None \<Rightarrow> []
            | Some l \<Rightarrow> map RefScheduled (filter (control_retained now)
                          (List.map_filter (map_of (m_controls m)) (idl_items l))));
         dderc = (case dp_default_control_link program of
                    None \<Rightarrow> None
                  | Some href \<Rightarrow> map_of (m_default_controls m) href);
         default_controls = (case dderc of None \<Rightarrow> [] | Some d \<Rightarrow> [RefDefault d])
     in map (\<lambda>control. (dp_primacy program, control)) (scheduled_controls @ default_controls))"

fun control_kind_cmp :: "control_ref \<Rightarrow> control_ref \<Rightarrow> ordering" where
  "control_kind_cmp (RefDefault _) _ = Greater"
| "control_kind_cmp (RefScheduled _) (RefDefault _) = Less"
| "control_kind_cmp (RefScheduled a) (RefScheduled b) =
     reverse_ordering (cmp_ord (dc_creation_time (sc_der_control a)) (dc_creation_time (sc_der_control b)))"

definition control_cmp :: "nat \<times> control_ref \<Rightarrow> nat \<times> control_ref \<Rightarrow> ordering" where
  "control_cmp a b = then_with (cmp_ord (fst a) (fst b)) (control_kind_cmp (snd a) (snd b))"

definition annotated_controls :: "sep2_model \<Rightarrow> lfdi \<Rightarrow> int \<Rightarrow> (nat \<times> control_ref) list" where
  "annotated_controls m lfdi now =
    (case get_end_device m lfdi of
       None \<Rightarrow> []
     | Some end_device \<Rightarrow>
         (case ed_fsa_list_link end_device of
            None \<Rightarrow> []
          | Some fsal_link \<Rightarrow>
              (case map_of (m_fsa_lists m) fsal_link of
                 None \<Rightarrow> []
               | Some fsal \<Rightarrow> concat (map (program_controls m now) (programs_for_fsa_list m fsal)))))"

definition all_controls_for_device :: "sep2_model \<Rightarrow> lfdi \<Rightarrow> int \<Rightarrow> control_ref list" where
  "all_controls_for_device m lfdi now = map snd (sort_by control_cmp (annotated_controls m lfdi now))"


section \<open>Well-formedness: the keys of every map are distinct\<close>

definition model_ok :: "sep2_model \<Rightarrow> bool" where
  "model_ok m \<longleftrightarrow> hm_ok (m_fsa_lists m) \<and> hm_ok (m_program_lists m) \<and> hm_ok (m_control_lists m) \<and>
     hm_ok (m_curve_lists m) \<and> hm_ok (m_der_lists m) \<and> hm_ok (m_end_devices m) \<and>
     hm_ok (m_fsas m) \<and> hm_ok (m_programs m) \<and> hm_ok (m_controls m) \<and> hm_ok (m_curves m) \<and>
     hm_ok (m_default_controls m)"

lemma model_ok_default [simp]: "model_ok default_sep2_model"
  by (simp add: model_ok_def default_sep2_model_def)

lemma fold_preserves:
  assumes "\<And>x m. P m \<Longrightarrow> P (f x m)" "P m"
  shows "P (fold f xs m)"
  using assms(2) by (induction xs arbitrary: m) (simp_all add: assms(1))

lemma model_ok_set_end_device: "model_ok m \<Longrightarrow> model_ok (set_end_device x m)"
  by (simp add: model_ok_def set_end_device_def split: option.split)

lemma model_ok_set_fsa: "model_ok m \<Longrightarrow> model_ok (set_function_set_assignments x m)"
  by (simp add: model_ok_def set_function_set_assignments_def)

lemma model_ok_set_program: "model_ok m \<Longrightarrow> model_ok (set_der_program x m)"
  by (simp add: model_ok_def set_der_program_def)

lemma model_ok_set_curve: "model_ok m \<Longrightarrow> model_ok (set_der_curve x m)"
  by (simp add: model_ok_def set_der_curve_def)

lemma model_ok_set_der_control:
  "model_ok m \<Longrightarrow> set_der_control e n c m = Some (m', es, n') \<Longrightarrow> model_ok m'"
  by (auto simp: model_ok_def set_der_control_def Let_def split: option.splits)

lemma model_ok_set_der_controls:
  "model_ok m \<Longrightarrow> set_der_controls e n cs m = Some (m', es, n') \<Longrightarrow> model_ok m'"
proof (induction cs arbitrary: n m es)
  case (Cons c cs)
  then show ?case
    by (auto split: option.splits prod.splits dest: model_ok_set_der_control)
qed simp

lemma model_ok_upserts [simp]:
  assumes "model_ok m"
  shows "model_ok (set_dcap d m)" "model_ok (set_time t m)" "model_ok (set_end_device_list edl m)"
    "model_ok (set_function_set_assignments_list fl m)" "model_ok (set_der_program_list pl m)"
    "model_ok (set_default_der_control dd m)" "model_ok (set_der_list dl m)"
    "model_ok (set_mirror_usage_point_list ml m)" "model_ok (set_der_curve_list cl m)"
  using assms
  by (auto simp: set_dcap_def set_time_def set_end_device_list_def set_default_der_control_def
        set_function_set_assignments_list_def set_der_program_list_def set_der_list_def
        set_mirror_usage_point_list_def set_der_curve_list_def model_ok_def [of "m\<lparr>m_dcap := _\<rparr>"]
        model_ok_def [of "m\<lparr>m_time := _\<rparr>"] model_ok_def [of "m\<lparr>m_mup_list := _\<rparr>"]
        model_ok_def [of "m\<lparr>m_default_controls := _\<rparr>"] model_ok_def [of "m\<lparr>m_der_lists := _\<rparr>"]
        model_ok_def [of m]
      split: option.split
      intro!: fold_preserves [of model_ok] model_ok_set_end_device model_ok_set_fsa
        model_ok_set_program model_ok_set_curve)
     (simp_all add: model_ok_def)

lemma model_ok_control_list_header:
  "model_ok m \<Longrightarrow> model_ok (m\<lparr>m_control_lists := hm_insert h l (m_control_lists m)\<rparr>)"
  by (simp add: model_ok_def)

lemma model_ok_set_der_control_list:
  assumes "model_ok m" "set_der_control_list e dercl m = Some (m', es)"
  shows "model_ok m'"
  using assms model_ok_set_der_controls [OF model_ok_control_list_header]
  by (auto simp: set_der_control_list_def split: option.splits)

section \<open>The comparator\<close>

text \<open>The reference order: primacy, then scheduled before default, then the newest first.\<close>

fun kind_before :: "control_ref \<Rightarrow> control_ref \<Rightarrow> bool" where
  "kind_before (RefScheduled a) (RefScheduled b) \<longleftrightarrow>
     dc_creation_time (sc_der_control b) \<le> dc_creation_time (sc_der_control a)"
| "kind_before (RefScheduled _) (RefDefault _) \<longleftrightarrow> True"
| "kind_before (RefDefault _) (RefScheduled _) \<longleftrightarrow> False"
| "kind_before (RefDefault _) (RefDefault _) \<longleftrightarrow> True"

definition has_priority :: "nat \<times> control_ref \<Rightarrow> nat \<times> control_ref \<Rightarrow> bool" where
  "has_priority a b \<longleftrightarrow> fst a < fst b \<or> fst a = fst b \<and> kind_before (snd a) (snd b)"

lemma control_cmp_Less: "control_cmp b a = Less \<longleftrightarrow> \<not> has_priority a b"
proof -
  have "control_kind_cmp y x = Less \<longleftrightarrow> \<not> kind_before x y" for x y
    by (cases x; cases y) (auto simp: cmp_ord_def)
  then show ?thesis
    by (auto simp: control_cmp_def has_priority_def cmp_ord_def)
qed

lemma has_priority_total: "has_priority a b \<or> has_priority b a"
proof -
  have "kind_before x y \<or> kind_before y x" for x y
    by (cases x; cases y) auto
  then show ?thesis by (auto simp: has_priority_def)
qed

lemma kind_before_trans: "kind_before x y \<Longrightarrow> kind_before y z \<Longrightarrow> kind_before x z"
  by (cases x; cases y; cases z) auto

lemma has_priority_trans: "has_priority a b \<Longrightarrow> has_priority b c \<Longrightarrow> has_priority a c"
  by (auto simp: has_priority_def intro: kind_before_trans)

interpretation prio: weak_order control_cmp
  using has_priority_total has_priority_trans
  by unfold_locales (simp_all add: control_cmp_Less, blast+)

lemma prio_le: "prio.le = has_priority"
  by (simp add: fun_eq_iff prio.le_def control_cmp_Less)

lemma in_program_controls:
  assumes "(p, RefScheduled c) \<in> set (program_controls m now prog)"
  shows "control_retained now c" "\<exists>mrid. map_of (m_controls m) mrid = Some c"
  using assms
  by (force simp: program_controls_def Let_def in_set_map_filter split: option.splits)+

lemma in_annotated_controls:
  assumes "x \<in> set (annotated_controls m lfdi now)"
  obtains prog where "x \<in> set (program_controls m now prog)"
  using assms by (auto simp: annotated_controls_def split: option.splits)

section \<open>Properties\<close>

text \<open>
  C22: the controls of a device come in order of priority. The list is a permutation of the
  annotated controls of all its programs, sorted by primacy, then scheduled controls before
  defaults, then the newest creation time first; controls the order does not separate keep
  the order of their lists.
\<close>

theorem all_controls_in_priority_order:
  "\<exists>cs. all_controls_for_device m lfdi now = map snd cs \<and>
     mset cs = mset (annotated_controls m lfdi now) \<and>
     sorted_wrt has_priority cs \<and>
     filter (\<lambda>x. has_priority x a \<and> has_priority a x) cs =
       filter (\<lambda>x. has_priority x a \<and> has_priority a x) (annotated_controls m lfdi now)"
proof (intro exI conjI)
  let ?cs = "sort_by control_cmp (annotated_controls m lfdi now)"
  show "all_controls_for_device m lfdi now = map snd ?cs"
    by (rule all_controls_for_device_def)
  show "mset ?cs = mset (annotated_controls m lfdi now)" by simp
  show "sorted_wrt has_priority ?cs"
    using prio.sorted_sort_by by (simp add: prio_le)
  show "filter (\<lambda>x. has_priority x a \<and> has_priority a x) ?cs =
      filter (\<lambda>x. has_priority x a \<and> has_priority a x) (annotated_controls m lfdi now)"
    by (rule prio.sort_by_stable) (auto simp: control_cmp_Less intro: has_priority_trans)
qed

text \<open>
  No control that is cancelled, superseded or over is ever handed to the scheduler: every
  scheduled control listed for a device is one the model holds, in status Scheduled or Active,
  with an end time still to come.
\<close>

theorem all_controls_are_current:
  assumes "RefScheduled c \<in> set (all_controls_for_device m lfdi now)"
  shows "(dc_current_status (sc_der_control c) = Scheduled \<or>
          dc_current_status (sc_der_control c) = Active) \<and>
         now < end_time c \<and> (\<exists>mrid. map_of (m_controls m) mrid = Some c)"
proof -
  from assms obtain p where "(p, RefScheduled c) \<in> set (annotated_controls m lfdi now)"
    by (auto simp: all_controls_for_device_def)
  then obtain prog where "(p, RefScheduled c) \<in> set (program_controls m now prog)"
    by (rule in_annotated_controls)
  then show ?thesis
    using in_program_controls by (fastforce simp: control_retained_def)
qed

text \<open>
  The comparator given to \<^verbatim>\<open>sort_by\<close> is not the total order its documentation asks
  for: of two default controls of programs with the same primacy each is \<^verbatim>\<open>Greater\<close> than
  the other, and a default control is \<^verbatim>\<open>Greater\<close> than itself.
\<close>

theorem comparator_not_antisymmetric:
  "control_cmp (p, RefDefault a) (p, RefDefault b) = Greater \<and>
   control_cmp (p, RefDefault b) (p, RefDefault a) = Greater \<and>
   control_cmp (p, RefDefault a) (p, RefDefault a) = Greater"
  by (simp add: control_cmp_def cmp_ord_def)

section \<open>Realising a control\<close>

lemma random_range_Some:
  "random_range e n lo hi = Some x \<Longrightarrow> rng_ok e \<Longrightarrow> lo \<le> x \<and> x \<le> hi"
  by (auto simp: random_range_def rng_ok_def split: if_splits)

lemma realise_control_Some:
  assumes "realise_control e n c = Some sc"
  obtains s d where
    "random_range e n (- unwrap_or 0 (dc_randomize_start c)) (unwrap_or 0 (dc_randomize_start c)) = Some s"
    "random_range e (Suc n) (- unwrap_or 0 (dc_randomize_duration c))
       (unwrap_or 0 (dc_randomize_duration c)) = Some d"
    "sc = \<lparr>sc_der_control = c, sc_start_time = wrap_i64 (dc_interval_start c + s),
       sc_duration = shifted_duration (dc_interval_duration c) d\<rparr>"
  using assms by (auto simp: realise_control_def Let_def split: option.splits)

lemma realise_control_None:
  "realise_control e n c = None \<longleftrightarrow>
     unwrap_or 0 (dc_randomize_start c) < 0 \<or> unwrap_or 0 (dc_randomize_duration c) < 0"
  by (auto simp: realise_control_def random_range_def Let_def)

lemma hm_insert_same: "map_of m k = Some v \<Longrightarrow> hm_insert k v m = m"
  unfolding hm_insert_def by (induction m) (auto split: if_splits)

lemma set_der_control_frame:
  assumes "set_der_control e n c m = Some (m', es, n')"
  shows "\<exists>sc. map_of (m_controls m') = (map_of (m_controls m))(dc_mrid c \<mapsto> sc) \<and> sc_der_control sc = c"
  using assms
  by (auto simp: set_der_control_def Let_def split: option.splits elim!: realise_control_Some)

lemma set_der_control_known:
  assumes "map_of (m_controls m) (dc_mrid c) = Some entry" "sc_der_control entry = c"
  shows "set_der_control e n c m = Some (m, [], n)"
proof -
  have "entry\<lparr>sc_der_control := c\<rparr> = entry" using assms by simp
  then show ?thesis
    using assms by (simp add: set_der_control_def status_change_event_def hm_insert_same)
qed

lemma set_der_controls_known:
  assumes "\<forall>c \<in> set cs. \<exists>entry. map_of (m_controls m) (dc_mrid c) = Some entry \<and> sc_der_control entry = c"
  shows "set_der_controls e n cs m = Some (m, [], n)"
  using assms by (induction cs) (auto simp: set_der_control_known)

lemma set_der_controls_stored:
  assumes "set_der_controls e n cs m = Some (m', es, n')" "distinct (map dc_mrid cs)"
  shows "(\<forall>c \<in> set cs. \<exists>entry. map_of (m_controls m') (dc_mrid c) = Some entry \<and> sc_der_control entry = c)
    \<and> (\<forall>k. k \<notin> dc_mrid ` set cs \<longrightarrow> map_of (m_controls m') k = map_of (m_controls m) k)"
  using assms
proof (induction cs arbitrary: n m es)
  case (Cons c cs)
  then obtain m1 es1 n1 es2 where step: "set_der_control e n c m = Some (m1, es1, n1)"
    and rest: "set_der_controls e n1 cs m1 = Some (m', es2, n')"
    by (auto split: option.splits prod.splits)
  from set_der_control_frame [OF step] Cons.IH [OF rest] Cons.prems(2)
  show ?case by fastforce
qed simp

text \<open>
  A control's randomised interval is realised within the bounds the server asks for. If the
  generator respects its range and the server's numbers do not overflow, the start moves by at
  most \<^verbatim>\<open>randomizeStart\<close> seconds and the duration by at most
  \<^verbatim>\<open>randomizeDuration\<close>, never below zero.
\<close>

theorem realised_interval_in_bounds:
  assumes "rng_ok e" "realise_control e n c = Some sc"
    and "r = unwrap_or 0 (dc_randomize_start c)" "d = unwrap_or 0 (dc_randomize_duration c)"
    and "i64_min \<le> dc_interval_start c - r" "dc_interval_start c + r \<le> i64_max"
    and "dc_interval_duration c + d < 2 ^ 32"
  shows "dc_interval_start c - r \<le> sc_start_time sc \<and> sc_start_time sc \<le> dc_interval_start c + r \<and>
    max 0 (dc_interval_duration c - d) \<le> sc_duration sc \<and>
    sc_duration sc \<le> max 0 (dc_interval_duration c + d) \<and> sc_der_control sc = c"
proof -
  from assms(2) obtain s t where s: "random_range e n (- r) r = Some s"
    and t: "random_range e (Suc n) (- d) d = Some t"
    and sc: "sc = \<lparr>sc_der_control = c, sc_start_time = wrap_i64 (dc_interval_start c + s),
       sc_duration = shifted_duration (dc_interval_duration c) t\<rparr>"
    using assms(3,4) by (auto elim!: realise_control_Some)
  have "- r \<le> s \<and> s \<le> r" "- d \<le> t \<and> t \<le> d"
    using random_range_Some s t assms(1) by blast+
  moreover from this assms(7)
  have "max (dc_interval_duration c + t) 0 mod 2 ^ 32 = max (dc_interval_duration c + t) 0"
    by (intro mod_pos_pos_trivial) auto
  ultimately show ?thesis
    using assms(5,6) by (auto simp: sc shifted_duration_def)
qed

text \<open>
  C40: receiving a control panics exactly when the control is new and one of its randomisation
  bounds is negative: \<^verbatim>\<open>random_range(-r..=r)\<close> is then asked for an empty range. SEP2 allows
  bounds from -3600 to 3600, and the release profile aborts the process on a panic.
\<close>

theorem new_control_panics_on_negative_bound:
  "set_der_control e n c m = None \<longleftrightarrow>
     map_of (m_controls m) (dc_mrid c) = None \<and>
     (unwrap_or 0 (dc_randomize_start c) < 0 \<or> unwrap_or 0 (dc_randomize_duration c) < 0)"
  using realise_control_None [of e n c]
  by (auto simp: set_der_control_def Let_def split: option.splits)

text \<open>
  The cast of the randomised duration to \<^verbatim>\<open>u32\<close> wraps: a duration close to the maximum
  of 136 years, shifted past it, becomes shorter than the shift.
\<close>

theorem randomised_duration_wraps:
  assumes "0 \<le> duration" "duration < 2 ^ 32" "2 ^ 32 \<le> duration + shift" "shift < 2 ^ 32"
  shows "shifted_duration duration shift < shift"
proof -
  have "(duration + shift) mod 2 ^ 32 = duration + shift - 2 ^ 32"
    using assms by (intro int_mod_pos_eq [where q = 1]) simp_all
  then show ?thesis using assms by (simp add: shifted_duration_def)
qed

theorem randomised_duration_wraps_witness:
  "shifted_duration 4294967295 60 < 60"
  using randomised_duration_wraps [of 4294967295 60] by simp

text \<open>A control the model already holds keeps its start and its duration when controls arrive.\<close>

lemma set_der_controls_keep_interval:
  assumes "set_der_controls e n cs m = Some (m', es, n')"
    and "map_of (m_controls m) k = Some entry"
  shows "\<exists>entry'. map_of (m_controls m') k = Some entry' \<and>
    sc_start_time entry' = sc_start_time entry \<and> sc_duration entry' = sc_duration entry"
  using assms
proof (induction cs arbitrary: n m es entry)
  case (Cons c cs)
  then obtain m1 es1 n1 es2 where step: "set_der_control e n c m = Some (m1, es1, n1)"
    and rest: "set_der_controls e n1 cs m1 = Some (m', es2, n')"
    by (auto split: option.splits prod.splits)
  have "\<exists>entry1. map_of (m_controls m1) k = Some entry1 \<and>
      sc_start_time entry1 = sc_start_time entry \<and> sc_duration entry1 = sc_duration entry"
    using step Cons.prems(2)
    by (cases "k = dc_mrid c") (auto simp: set_der_control_def Let_def split: option.splits)
  then show ?case using Cons.IH [OF rest] by metis
qed simp

text \<open>
  Delivering a list of controls again is idempotent: it emits no response, changes nothing
  and draws no random number, in any environment.
\<close>

theorem control_list_idempotent:
  assumes "set_der_controls e n cs m = Some (m', es, n')" "distinct (map dc_mrid cs)"
  shows "set_der_controls e2 k cs m' = Some (m', [], k)"
  using set_der_controls_stored [OF assms] by (intro set_der_controls_known) blast

section \<open>Witnesses\<close>

definition example_control :: der_control where
  "example_control =
    \<lparr> dc_href = Some ''/edev/1/derp/1/derc/1'', dc_mrid = 42, dc_creation_time = 100,
      dc_current_status = Scheduled, dc_interval_start = 3600, dc_interval_duration = 300,
      dc_randomize_start = Some 60, dc_randomize_duration = Some 30,
      dc_response_required = Some [MessageReceived, SpecificResponse],
      dc_reply_to = Some ''/rsp'', dc_base = default_der_control_base \<rparr>"

definition example_env :: env where
  "example_env = \<lparr> rnd = (\<lambda>n lo hi. lo), clk = (\<lambda>n. 1000) \<rparr>"

definition example_scheduled :: scheduled_control where
  "example_scheduled =
    \<lparr> sc_der_control = example_control, sc_start_time = 3540, sc_duration = 270 \<rparr>"

lemma example_rng_ok: "rng_ok example_env"
  by (simp add: rng_ok_def example_env_def)

lemma example_realised: "realise_control example_env n example_control = Some example_scheduled"
  by (simp add: realise_control_def random_range_def example_env_def example_control_def
      example_scheduled_def unwrap_or_def shifted_duration_def arith_defs)

lemma example_set_der_controls:
  "set_der_controls example_env 0 [example_control] default_sep2_model =
     Some (default_sep2_model\<lparr>m_controls := [(42, example_scheduled)]\<rparr>,
           [DERControlStatusChanged 42 EventReceived ''/rsp''], 2)"
proof -
  have "dc_mrid example_control = 42" by (simp add: example_control_def)
  moreover have "new_control_events 1000 example_scheduled =
      [DERControlStatusChanged 42 EventReceived ''/rsp'']"
    by (simp add: new_control_events_def example_scheduled_def example_control_def
        reply_to_if_required_def)
  ultimately show ?thesis
    by (simp add: set_der_control_def default_sep2_model_def example_realised hm_insert_def
        example_env_def [THEN arg_cong, of clk])
qed

theorem realised_interval_in_bounds_witness:
  "3540 \<le> sc_start_time example_scheduled \<and> sc_start_time example_scheduled \<le> 3660"
  using realised_interval_in_bounds [OF example_rng_ok example_realised refl refl]
  by (simp add: example_control_def unwrap_or_def arith_defs)



theorem control_list_idempotent_witness:
  "set_der_controls example_env 7 [example_control]
     (default_sep2_model\<lparr>m_controls := [(42, example_scheduled)]\<rparr>) =
   Some (default_sep2_model\<lparr>m_controls := [(42, example_scheduled)]\<rparr>, [], 7)"
  using example_set_der_controls by (rule control_list_idempotent) simp

text \<open>A site: one device, one program of primacy 1 with one control, and no default.\<close>

definition example_site :: sep2_model where
  "example_site = default_sep2_model
     \<lparr> m_end_devices := [(1, \<lparr>ed_href = Some ''d'', ed_lfdi = Some 1, ed_fsa_list_link = Some ''f'',
         ed_der_list_link = None, ed_registration_link = None\<rparr>)],
       m_fsa_lists := [(''f'', \<lparr>idl_href = ''f'', idl_items = [10], idl_poll_rate = None\<rparr>)],
       m_fsas := [(10, \<lparr>fsa_href = Some ''a'', fsa_mrid = 10, fsa_program_list_link = Some ''p''\<rparr>)],
       m_program_lists := [(''p'', \<lparr>idl_href = ''p'', idl_items = [20], idl_poll_rate = None\<rparr>)],
       m_programs := [(20, \<lparr>dp_href = Some ''q'', dp_mrid = 20, dp_primacy = 1,
         dp_default_control_link = None, dp_control_list_link = Some ''c'', dp_curve_list_link = None\<rparr>)],
       m_control_lists := [(''c'', \<lparr>idl_href = ''c'', idl_items = [42], idl_poll_rate = None\<rparr>)],
       m_controls := [(42, example_scheduled)] \<rparr>"

lemma example_controls:
  assumes "now < 3810"
  shows "all_controls_for_device example_site 1 now = [RefScheduled example_scheduled]"
proof -
  have "control_retained now example_scheduled"
    using assms by (simp add: control_retained_def example_scheduled_def example_control_def end_time_def
        arith_defs)
  then show ?thesis
    by (simp add: all_controls_for_device_def annotated_controls_def get_end_device_def example_site_def
        default_sep2_model_def programs_for_fsa_list_def program_controls_def map_filter_simps sort_by_def)
qed

theorem all_controls_are_current_witness:
  "1000 < end_time example_scheduled"
  using all_controls_are_current [of example_scheduled example_site 1 1000]
  by (simp add: example_controls)

end
