(* ===== verification/Persisted_Format.thy ===== *)
theory Persisted_Format
  imports Sep2_Model
begin

text \<open>
  \<^verbatim>\<open>src/scheduler/sep2_model.rs\<close>, the part that turns the model into JSON and back: the
  wrapper \<^verbatim>\<open>SerdeWrap\<close>, the helper modules \<^verbatim>\<open>yaserde\<close> to \<^verbatim>\<open>yaserde_map_values\<close> and the
  fields of the three structs they are attached to. The XML text of each SEP2 type is made by the
  package \<^verbatim>\<open>sepserde\<close> and is a parameter. Each helper is shown to lose nothing, so that the
  whole model comes back as it was.
\<close>

section \<open>JSON values\<close>

datatype json =
  JNull
| JNumber int
| JString string
| JArray "json list"
| JObject "(string \<times> json) list"

text \<open>
  A pair of a serialiser and a deserialiser to and from a format \<open>'f\<close>; both may fail. It is sound
  when what was written is read back.
\<close>

record ('a, 'f) codec =
  encode :: "'a \<Rightarrow> string + 'f"
  decode :: "'f \<Rightarrow> string + 'a"

definition codec_ok :: "('a, 'f) codec \<Rightarrow> bool" where
  "codec_ok c \<longleftrightarrow> (\<forall>x y. encode c x = Inr y \<longrightarrow> decode c y = Inr x)"

lemma codec_okD: "codec_ok c \<Longrightarrow> encode c x = Inr y \<Longrightarrow> decode c y = Inr x"
  by (simp add: codec_ok_def)

text \<open>An object from its fields, in their order, and a field of an object.\<close>

definition json_object :: "(string \<times> (string + json)) list \<Rightarrow> string + json" where
  "json_object members =
     rbind (rmapM (\<lambda>(name, value). rbind value (\<lambda>j. Inr (name, j))) members) (\<lambda>es. Inr (JObject es))"

definition json_field :: "string \<Rightarrow> json \<Rightarrow> string + json" where
  "json_field name j =
    (case j of
       JObject entries \<Rightarrow>
         (case filter (\<lambda>entry. fst entry = name) entries of
            [] \<Rightarrow> Inl (''missing field '' @ name)
          | [(_, value)] \<Rightarrow> Inr value
          | _ \<Rightarrow> Inl (''duplicate field '' @ name))
     | _ \<Rightarrow> Inl ''invalid type: expected a struct'')"

section \<open>The helpers\<close>

text \<open>\<^verbatim>\<open>SerdeWrap\<close>: the XML text as a JSON string.\<close>

definition serialize_wrap :: "('a, string) codec \<Rightarrow> 'a \<Rightarrow> string + json" where
  "serialize_wrap xml value = rbind (encode xml value) (\<lambda>s. Inr (JString s))"

definition deserialize_wrap :: "('a, string) codec \<Rightarrow> json \<Rightarrow> string + 'a" where
  "deserialize_wrap xml j = (case j of JString s \<Rightarrow> decode xml s | _ \<Rightarrow> Inl ''invalid type: expected a string'')"

definition yaserde :: "('a, string) codec \<Rightarrow> ('a, json) codec" where
  "yaserde xml = \<lparr>encode = serialize_wrap xml, decode = deserialize_wrap xml\<rparr>"

definition yaserde_vec :: "('a, string) codec \<Rightarrow> ('a list, json) codec" where
  "yaserde_vec xml =
    \<lparr>encode = (\<lambda>vec. rbind (rmapM (serialize_wrap xml) vec) (\<lambda>js. Inr (JArray js))),
     decode = (\<lambda>j. case j of
       JArray js \<Rightarrow> rmapM (deserialize_wrap xml) js
     | _ \<Rightarrow> Inl ''invalid type: expected a sequence'')\<rparr>"

definition yaserde_opt :: "('a, string) codec \<Rightarrow> ('a option, json) codec" where
  "yaserde_opt xml =
    \<lparr>encode = (\<lambda>opt. case opt of None \<Rightarrow> Inr JNull | Some x \<Rightarrow> serialize_wrap xml x),
     decode = (\<lambda>j. case j of JNull \<Rightarrow> Inr None | _ \<Rightarrow> rbind (deserialize_wrap xml j) (\<lambda>x. Inr (Some x)))\<rparr>"

text \<open>
  A \<^verbatim>\<open>HashMap\<close> is an object; its keys must be JSON strings. Reading inserts the entries one after
  the other.
\<close>

definition hm_collect :: "('k \<times> 'v) list \<Rightarrow> ('k \<times> 'v) list" where
  "hm_collect entries = fold (\<lambda>(k, v). hm_insert k v) entries []"

definition json_map :: "('k, string) codec \<Rightarrow> ('v, json) codec \<Rightarrow> (('k \<times> 'v) list, json) codec" where
  "json_map keys vals =
    \<lparr>encode = (\<lambda>m. rbind
       (rmapM (\<lambda>(k, v). rbind (encode keys k) (\<lambda>s. rbind (encode vals v) (\<lambda>j. Inr (s, j)))) m)
       (\<lambda>entries. Inr (JObject entries))),
     decode = (\<lambda>j. case j of
       JObject entries \<Rightarrow> rbind
         (rmapM (\<lambda>(s, j). rbind (decode keys s) (\<lambda>k. rbind (decode vals j) (\<lambda>v. Inr (k, v)))) entries)
         (\<lambda>m. Inr (hm_collect m))
     | _ \<Rightarrow> Inl ''invalid type: expected a map'')\<rparr>"

definition plain_string :: "(string, string) codec" where
  "plain_string = \<lparr>encode = Inr, decode = Inr\<rparr>"

definition yaserde_map_both :: "('k, string) codec \<Rightarrow> ('v, string) codec \<Rightarrow> (('k \<times> 'v) list, json) codec" where
  "yaserde_map_both keys vals = json_map keys (yaserde vals)"

definition yaserde_map_keys :: "('k, string) codec \<Rightarrow> ('v, json) codec \<Rightarrow> (('k \<times> 'v) list, json) codec" where
  "yaserde_map_keys keys vals = json_map keys vals"

definition yaserde_map_values :: "('v, string) codec \<Rightarrow> ((string \<times> 'v) list, json) codec" where
  "yaserde_map_values vals = json_map plain_string (yaserde vals)"

section \<open>Nothing is lost\<close>

lemma ok_yaserde: "codec_ok xml \<Longrightarrow> codec_ok (yaserde xml)"
  by (auto simp: codec_ok_def yaserde_def serialize_wrap_def deserialize_wrap_def result_simps)

lemma ok_yaserde_opt: "codec_ok xml \<Longrightarrow> codec_ok (yaserde_opt xml)"
  by (auto simp: codec_ok_def yaserde_opt_def serialize_wrap_def deserialize_wrap_def result_simps
      split: option.splits)

lemma rmapM_back:
  assumes "rmapM f xs = Inr ys" "\<And>x y. x \<in> set xs \<Longrightarrow> f x = Inr y \<Longrightarrow> g y = Inr x"
  shows "rmapM g ys = Inr xs"
  using assms by (induction xs arbitrary: ys) (auto simp: result_simps)

lemma ok_yaserde_vec:
  assumes "codec_ok xml"
  shows "codec_ok (yaserde_vec xml)"
proof -
  have "deserialize_wrap xml y = Inr x" if "serialize_wrap xml x = Inr y" for x y
    using that assms by (auto simp: codec_ok_def serialize_wrap_def deserialize_wrap_def result_simps)
  then have "rmapM (deserialize_wrap xml) js = Inr xs" if "rmapM (serialize_wrap xml) xs = Inr js" for xs js
    using that by (blast intro: rmapM_back)
  then show ?thesis by (auto simp: codec_ok_def yaserde_vec_def result_simps)
qed

text \<open>The entries of a map, inserted in their order, make up the same map.\<close>

lemma update_new: "k \<notin> fst ` set m \<Longrightarrow> AList.update k v m = m @ [(k, v)]"
  by (induction m) auto

lemma hm_collect_id:
  assumes "hm_ok m"
  shows "hm_collect m = m"
proof -
  have "fold (\<lambda>(k, v). hm_insert k v) es acc = acc @ es" if "distinct (map fst (acc @ es))" for es acc :: "('a \<times> 'b) list"
    using that
  proof (induction es arbitrary: acc)
    case (Cons e es)
    then have "fst e \<notin> fst ` set acc" "distinct (map fst ((acc @ [e]) @ es))" by auto
    with Cons.IH [of "acc @ [e]"] show ?case by (cases e) (simp add: hm_insert_def update_new)
  qed simp
  from this [of "[]" m] assms show ?thesis by (simp add: hm_collect_def hm_ok_def)
qed

definition map_codec_ok :: "(('k \<times> 'v) list, json) codec \<Rightarrow> bool" where
  "map_codec_ok c \<longleftrightarrow> (\<forall>m j. hm_ok m \<longrightarrow> encode c m = Inr j \<longrightarrow> decode c j = Inr m)"

lemma map_codec_okD: "map_codec_ok c \<Longrightarrow> hm_ok m \<Longrightarrow> encode c m = Inr j \<Longrightarrow> decode c j = Inr m"
  by (simp add: map_codec_ok_def)

lemma ok_json_map:
  assumes "codec_ok keys" "codec_ok vals"
  shows "map_codec_ok (json_map keys vals)"
  unfolding map_codec_ok_def
proof (intro allI impI)
  fix m j
  assume m: "hm_ok m" and "encode (json_map keys vals) m = Inr j"
  then obtain entries where j: "j = JObject entries" and entries:
    "rmapM (\<lambda>(k, v). rbind (encode keys k) (\<lambda>s. rbind (encode vals v) (\<lambda>j. Inr (s, j)))) m = Inr entries"
    by (auto simp: json_map_def result_simps)
  have "rmapM (\<lambda>(s, j). rbind (decode keys s) (\<lambda>k. rbind (decode vals j) (\<lambda>v. Inr (k, v)))) entries = Inr m"
    using entries by (rule rmapM_back) (auto simp: result_simps dest: codec_okD [OF assms(1)] codec_okD [OF assms(2)])
  then show "decode (json_map keys vals) j = Inr m"
    by (simp add: json_map_def j hm_collect_id [OF m])
qed

lemma ok_plain_string: "codec_ok plain_string"
  by (simp add: codec_ok_def plain_string_def)

lemma ok_maps:
  "codec_ok keys \<Longrightarrow> codec_ok values \<Longrightarrow> map_codec_ok (yaserde_map_both keys values)"
  "codec_ok keys \<Longrightarrow> codec_ok json_values \<Longrightarrow> map_codec_ok (yaserde_map_keys keys json_values)"
  "codec_ok values \<Longrightarrow> map_codec_ok (yaserde_map_values values)"
  by (simp_all add: yaserde_map_both_def yaserde_map_keys_def yaserde_map_values_def ok_json_map ok_yaserde
      ok_plain_string)

section \<open>The structs\<close>

text \<open>What \<^verbatim>\<open>sepserde\<close> makes of each of the types that are stored as XML.\<close>

record xml_codecs =
  xc_time :: "(sep2_time, string) codec"
  xc_mrid :: "(mrid, string) codec"
  xc_lfdi :: "(lfdi, string) codec"
  xc_uint32 :: "(int, string) codec"
  xc_int64 :: "(int, string) codec"
  xc_dcap :: "(device_capability, string) codec"
  xc_mup_list :: "(mup_list, string) codec"
  xc_der_list :: "(der_list, string) codec"
  xc_end_device :: "(end_device, string) codec"
  xc_fsa :: "(fsa, string) codec"
  xc_program :: "(der_program, string) codec"
  xc_control :: "(der_control, string) codec"
  xc_curve :: "(der_curve, string) codec"
  xc_default_control :: "(default_der_control, string) codec"

definition xml_ok :: "xml_codecs \<Rightarrow> bool" where
  "xml_ok xc \<longleftrightarrow> codec_ok (xc_time xc) \<and> codec_ok (xc_mrid xc) \<and> codec_ok (xc_lfdi xc) \<and>
     codec_ok (xc_uint32 xc) \<and> codec_ok (xc_int64 xc) \<and> codec_ok (xc_dcap xc) \<and> codec_ok (xc_mup_list xc) \<and>
     codec_ok (xc_der_list xc) \<and> codec_ok (xc_end_device xc) \<and> codec_ok (xc_fsa xc) \<and>
     codec_ok (xc_program xc) \<and> codec_ok (xc_control xc) \<and> codec_ok (xc_curve xc) \<and>
     codec_ok (xc_default_control xc)"

text \<open>A field that is a plain string or number.\<close>

definition json_string :: "json \<Rightarrow> string + string" where
  "json_string j = (case j of JString s \<Rightarrow> Inr s | _ \<Rightarrow> Inl ''invalid type: expected a string'')"

definition json_u32 :: "json \<Rightarrow> string + int" where
  "json_u32 j = (case j of
     JNumber n \<Rightarrow> if 0 \<le> n \<and> n < 2 ^ 32 then Inr n else Inl ''invalid value: expected u32''
   | _ \<Rightarrow> Inl ''invalid type: expected u32'')"

definition id_list_codec :: "xml_codecs \<Rightarrow> ('a, string) codec \<Rightarrow> ('a id_list, json) codec" where
  "id_list_codec xc items =
    \<lparr>encode = (\<lambda>l. json_object
       [(''href'', Inr (JString (idl_href l))),
        (''items'', encode (yaserde_vec items) (idl_items l)),
        (''poll_rate'', encode (yaserde_opt (xc_uint32 xc)) (idl_poll_rate l))]),
     decode = (\<lambda>j.
       rbind (rbind (json_field ''href'' j) json_string) (\<lambda>href.
       rbind (rbind (json_field ''items'' j) (decode (yaserde_vec items))) (\<lambda>is.
       rbind (rbind (json_field ''poll_rate'' j) (decode (yaserde_opt (xc_uint32 xc)))) (\<lambda>rate.
       Inr \<lparr>idl_href = href, idl_items = is, idl_poll_rate = rate\<rparr>))))\<rparr>"

definition scheduled_control_codec :: "xml_codecs \<Rightarrow> (scheduled_control, json) codec" where
  "scheduled_control_codec xc =
    \<lparr>encode = (\<lambda>c. json_object
       [(''der_control'', encode (yaserde (xc_control xc)) (sc_der_control c)),
        (''start_time'', encode (yaserde (xc_int64 xc)) (sc_start_time c)),
        (''duration'', encode (yaserde (xc_uint32 xc)) (sc_duration c))]),
     decode = (\<lambda>j.
       rbind (rbind (json_field ''der_control'' j) (decode (yaserde (xc_control xc)))) (\<lambda>control.
       rbind (rbind (json_field ''start_time'' j) (decode (yaserde (xc_int64 xc)))) (\<lambda>start.
       rbind (rbind (json_field ''duration'' j) (decode (yaserde (xc_uint32 xc)))) (\<lambda>duration.
       Inr \<lparr>sc_der_control = control, sc_start_time = start, sc_duration = duration\<rparr>))))\<rparr>"

text \<open>A field of type \<^verbatim>\<open>Option\<close> without a helper: \<^verbatim>\<open>null\<close> is none, and so is a missing field.\<close>

definition option_codec :: "('a, json) codec \<Rightarrow> ('a option, json) codec" where
  "option_codec c =
    \<lparr>encode = (\<lambda>opt. case opt of None \<Rightarrow> Inr JNull | Some x \<Rightarrow> encode c x),
     decode = (\<lambda>j. case j of JNull \<Rightarrow> Inr None | _ \<Rightarrow> rbind (decode c j) (\<lambda>x. Inr (Some x)))\<rparr>"

definition json_option_field :: "string \<Rightarrow> json \<Rightarrow> string + json" where
  "json_option_field name j =
    (case j of
       JObject entries \<Rightarrow> if name \<in> set (map fst entries) then json_field name j else Inr JNull
     | _ \<Rightarrow> json_field name j)"

definition serialize_model :: "xml_codecs \<Rightarrow> sep2_model \<Rightarrow> string + json" where
  "serialize_model xc m =
    (let lists = json_map plain_string (id_list_codec xc (xc_mrid xc))
     in json_object
       [(''time'', encode (yaserde (xc_time xc)) (m_time m)),
        (''function_set_assignments_lists'', encode lists (m_fsa_lists m)),
        (''program_lists'', encode lists (m_program_lists m)),
        (''control_lists'', encode lists (m_control_lists m)),
        (''curve_lists'', encode lists (m_curve_lists m)),
        (''end_device_list'', encode (option_codec (id_list_codec xc (xc_lfdi xc))) (m_end_device_list m)),
        (''dcap'', encode (yaserde_opt (xc_dcap xc)) (m_dcap m)),
        (''mirror_usage_point_list'', encode (yaserde_opt (xc_mup_list xc)) (m_mup_list m)),
        (''der_lists'', encode (yaserde_map_values (xc_der_list xc)) (m_der_lists m)),
        (''end_devices'', encode (yaserde_map_both (xc_lfdi xc) (xc_end_device xc)) (m_end_devices m)),
        (''function_set_assignments'', encode (yaserde_map_both (xc_mrid xc) (xc_fsa xc)) (m_fsas m)),
        (''programs'', encode (yaserde_map_both (xc_mrid xc) (xc_program xc)) (m_programs m)),
        (''controls'', encode (yaserde_map_keys (xc_mrid xc) (scheduled_control_codec xc)) (m_controls m)),
        (''curves'', encode (yaserde_map_both (xc_mrid xc) (xc_curve xc)) (m_curves m)),
        (''default_controls'', encode (yaserde_map_values (xc_default_control xc)) (m_default_controls m))])"

definition deserialize_model :: "xml_codecs \<Rightarrow> json \<Rightarrow> string + sep2_model" where
  "deserialize_model xc j =
    (let lists = decode (json_map plain_string (id_list_codec xc (xc_mrid xc)))
     in rbind (rbind (json_field ''time'' j) (decode (yaserde (xc_time xc)))) (\<lambda>tm.
       rbind (rbind (json_field ''function_set_assignments_lists'' j) lists) (\<lambda>fsa_lists.
       rbind (rbind (json_field ''program_lists'' j) lists) (\<lambda>program_lists.
       rbind (rbind (json_field ''control_lists'' j) lists) (\<lambda>control_lists.
       rbind (rbind (json_field ''curve_lists'' j) lists) (\<lambda>curve_lists.
       rbind (rbind (json_option_field ''end_device_list'' j) (decode (option_codec (id_list_codec xc (xc_lfdi xc))))) (\<lambda>edl.
       rbind (rbind (json_field ''dcap'' j) (decode (yaserde_opt (xc_dcap xc)))) (\<lambda>dcap.
       rbind (rbind (json_field ''mirror_usage_point_list'' j) (decode (yaserde_opt (xc_mup_list xc)))) (\<lambda>mupl.
       rbind (rbind (json_field ''der_lists'' j) (decode (yaserde_map_values (xc_der_list xc)))) (\<lambda>der_lists.
       rbind (rbind (json_field ''end_devices'' j) (decode (yaserde_map_both (xc_lfdi xc) (xc_end_device xc)))) (\<lambda>devices.
       rbind (rbind (json_field ''function_set_assignments'' j) (decode (yaserde_map_both (xc_mrid xc) (xc_fsa xc)))) (\<lambda>fsas.
       rbind (rbind (json_field ''programs'' j) (decode (yaserde_map_both (xc_mrid xc) (xc_program xc)))) (\<lambda>programs.
       rbind (rbind (json_field ''controls'' j) (decode (yaserde_map_keys (xc_mrid xc) (scheduled_control_codec xc)))) (\<lambda>controls.
       rbind (rbind (json_field ''curves'' j) (decode (yaserde_map_both (xc_mrid xc) (xc_curve xc)))) (\<lambda>curves.
       rbind (rbind (json_field ''default_controls'' j) (decode (yaserde_map_values (xc_default_control xc)))) (\<lambda>defaults.
       Inr \<lparr>m_time = tm, m_fsa_lists = fsa_lists, m_program_lists = program_lists, m_control_lists = control_lists,
          m_curve_lists = curve_lists, m_end_device_list = edl, m_dcap = dcap, m_mup_list = mupl,
          m_der_lists = der_lists, m_end_devices = devices, m_fsas = fsas, m_programs = programs,
          m_controls = controls, m_curves = curves, m_default_controls = defaults\<rparr>))))))))))))))))"

lemma ok_id_list:
  assumes "codec_ok items" "codec_ok (xc_uint32 xc)"
  shows "codec_ok (id_list_codec xc items)"
  unfolding codec_ok_def
  using codec_okD [OF ok_yaserde_vec [OF assms(1)]] codec_okD [OF ok_yaserde_opt [OF assms(2)]]
  by (auto simp: id_list_codec_def json_object_def json_field_def json_string_def result_simps)

lemma ok_scheduled_control: "xml_ok xc \<Longrightarrow> codec_ok (scheduled_control_codec xc)"
  unfolding codec_ok_def
  using codec_okD [OF ok_yaserde [of "xc_control xc"]] codec_okD [OF ok_yaserde [of "xc_int64 xc"]]
    codec_okD [OF ok_yaserde [of "xc_uint32 xc"]]
  by (auto simp: scheduled_control_codec_def json_object_def json_field_def result_simps xml_ok_def)

lemma ok_end_device_list:
  assumes "codec_ok items" "codec_ok (xc_uint32 xc)"
  shows "codec_ok (option_codec (id_list_codec xc items))"
proof -
  have "j \<noteq> JNull" if "encode (id_list_codec xc items) l = Inr j" for l j
    using that by (auto simp: id_list_codec_def json_object_def result_simps)
  then show ?thesis
    using codec_okD [OF ok_id_list [OF assms]]
    by (auto simp: codec_ok_def option_codec_def split: option.splits json.splits)
qed

text \<open>The fields of an object, as they were given.\<close>

lemma json_object_fields:
  assumes "json_object members = Inr j" "distinct (map fst members)" "(name, value) \<in> set members"
  shows "\<exists>v. value = Inr v \<and> json_field name j = Inr v \<and> json_option_field name j = Inr v"
proof -
  obtain es where j: "j = JObject es"
    and es: "rmapM (\<lambda>(name, value). rbind value (\<lambda>j. Inr (name, j))) members = Inr es"
    using assms(1) by (auto simp: json_object_def result_simps)
  have "map fst es = map fst members"
    using es by (induction members arbitrary: es) (auto simp: result_simps)
  moreover have "\<exists>v. value = Inr v \<and> (name, v) \<in> set es"
    using es assms(3) by (induction members arbitrary: es) (fastforce simp: result_simps)+
  ultimately obtain v where v: "value = Inr v" "(name, v) \<in> set es" and "distinct (map fst es)"
    using assms(2) by auto
  then have "filter (\<lambda>entry. fst entry = name) es = [(name, v)]"
  proof (induction es)
    case (Cons e es)
    show ?case
    proof (cases "e = (name, v)")
      case True
      with Cons.prems show ?thesis by (auto simp: filter_empty_conv image_iff)
    next
      case False
      with Cons.prems have "(name, v) \<in> set es" "fst e \<notin> fst ` set es" by auto
      with Cons show ?thesis by (auto simp: image_iff)
    qed
  qed simp
  with v show ?thesis by (force simp: j json_field_def json_option_field_def)
qed

lemma field_restored:
  assumes "json_object members = Inr j" "distinct (map fst members)" "(name, encode c x) \<in> set members"
    and "\<And>y. encode c x = Inr y \<Longrightarrow> decode c y = Inr x"
  shows "rbind (json_field name j) (decode c) = Inr x" "rbind (json_option_field name j) (decode c) = Inr x"
  using json_object_fields [OF assms(1-3)] assms(4) by auto

lemma model_restored:
  assumes "xml_ok xc" "model_ok m" "serialize_model xc m = Inr j"
  shows "deserialize_model xc j = Inr m"
proof -
  note ser = assms(3) [unfolded serialize_model_def Let_def]
  note xml = assms(1) [unfolded xml_ok_def]
  let ?lists = "json_map plain_string (id_list_codec xc (xc_mrid xc))"
  have lists: "map_codec_ok ?lists"
    using xml by (intro ok_json_map ok_plain_string ok_id_list) simp_all
  have controls: "map_codec_ok (yaserde_map_keys (xc_mrid xc) (scheduled_control_codec xc))"
    using xml by (intro ok_maps ok_scheduled_control assms(1)) simp
  note restore = codec_okD [OF ok_yaserde] codec_okD [OF ok_yaserde_opt] map_codec_okD [OF lists]
    map_codec_okD [OF controls] map_codec_okD [OF ok_maps(1)] map_codec_okD [OF ok_maps(3)]
  have "rbind (json_option_field ''end_device_list'' j)
      (decode (option_codec (id_list_codec xc (xc_lfdi xc)))) = Inr (m_end_device_list m)"
    by (rule field_restored [OF ser]) (use xml in \<open>simp_all add: codec_okD [OF ok_end_device_list]\<close>)
  moreover have
    "rbind (json_field ''time'' j) (decode (yaserde (xc_time xc))) = Inr (m_time m)"
    "rbind (json_field ''function_set_assignments_lists'' j) (decode (?lists)) = Inr (m_fsa_lists m)"
    "rbind (json_field ''program_lists'' j) (decode (?lists)) = Inr (m_program_lists m)"
    "rbind (json_field ''control_lists'' j) (decode (?lists)) = Inr (m_control_lists m)"
    "rbind (json_field ''curve_lists'' j) (decode (?lists)) = Inr (m_curve_lists m)"
    "rbind (json_field ''dcap'' j) (decode (yaserde_opt (xc_dcap xc))) = Inr (m_dcap m)"
    "rbind (json_field ''mirror_usage_point_list'' j) (decode (yaserde_opt (xc_mup_list xc))) = Inr (m_mup_list m)"
    "rbind (json_field ''der_lists'' j) (decode (yaserde_map_values (xc_der_list xc))) = Inr (m_der_lists m)"
    "rbind (json_field ''end_devices'' j) (decode (yaserde_map_both (xc_lfdi xc) (xc_end_device xc))) = Inr (m_end_devices m)"
    "rbind (json_field ''function_set_assignments'' j) (decode (yaserde_map_both (xc_mrid xc) (xc_fsa xc))) = Inr (m_fsas m)"
    "rbind (json_field ''programs'' j) (decode (yaserde_map_both (xc_mrid xc) (xc_program xc))) = Inr (m_programs m)"
    "rbind (json_field ''controls'' j) (decode (yaserde_map_keys (xc_mrid xc) (scheduled_control_codec xc))) = Inr (m_controls m)"
    "rbind (json_field ''curves'' j) (decode (yaserde_map_both (xc_mrid xc) (xc_curve xc))) = Inr (m_curves m)"
    "rbind (json_field ''default_controls'' j) (decode (yaserde_map_values (xc_default_control xc))) = Inr (m_default_controls m)"
    by (rule field_restored [OF ser]; use xml assms(2) in \<open>simp add: restore model_ok_def\<close>)+
  ultimately show ?thesis by (simp only: deserialize_model_def Let_def rbind.simps) simp
qed

end
