(* ===== verification/Resource_Links.thy ===== *)
theory Resource_Links
  imports Sep2_Model
begin

text \<open>
  The second half of \<^verbatim>\<open>src/scheduler/sep2_model.rs\<close>: the links the model needs to be
  kept up to date with, their difference before and after an update as events, the garbage
  collection of what no link refers to any more, and \<^verbatim>\<open>apply_update\<close>, which composes
  them. The lemmas show that the events are an exact difference, that the collection removes
  only what is unreachable, and that it leaves the links themselves unchanged (all but the rate of a
  mirror usage point list whose link was moved), so that the polls announced downstream follow the model.
\<close>

section \<open>Definitions\<close>

record link_data =
  rl_kind :: resource_kind
  rl_poll_rate :: "int option"

type_synonym links_map = "(href \<times> link_data) list"

definition resource_link :: "href \<Rightarrow> resource_kind \<Rightarrow> int option \<Rightarrow> href \<times> link_data" where
  "resource_link href kind poll_rate = (href, \<lparr>rl_kind = kind, rl_poll_rate = poll_rate\<rparr>)"

definition list_links ::
  "href \<Rightarrow> resource_kind \<Rightarrow> resource_kind \<Rightarrow> int option \<Rightarrow> ('a \<Rightarrow> href option) \<Rightarrow> 'a list \<Rightarrow>
     ('a \<Rightarrow> links_map) \<Rightarrow> links_map" where
  "list_links href kind item_kind poll_rate item_href items item_links =
    bt_collect (resource_link href kind poll_rate #
      concat (map (\<lambda>item.
        (case item_href item of None \<Rightarrow> [] | Some h \<Rightarrow> [resource_link h item_kind poll_rate])
        @ item_links item) items))"

definition opt_list :: "'a option \<Rightarrow> 'a list" where
  "opt_list x = (case x of None \<Rightarrow> [] | Some y \<Rightarrow> [y])"

text \<open>What hangs below one \<^verbatim>\<open>DERProgram\<close>.\<close>

definition program_item_links :: "sep2_model \<Rightarrow> int option \<Rightarrow> der_program \<Rightarrow> links_map" where
  "program_item_links m poll_rate derp =
    bt_collect (
      map (\<lambda>link. resource_link link DefaultDERControl poll_rate)
        (opt_list (dp_default_control_link derp))
      @ concat (map (\<lambda>link.
          list_links link DERControlList DERControl poll_rate dc_href
            (map sc_der_control (list_items (map_of (m_control_lists m) link) (m_controls m)))
            (\<lambda>_. []))
        (opt_list (dp_control_list_link derp)))
      @ concat (map (\<lambda>link.
          list_links link DERCurveList DERCurve poll_rate cv_href
            (list_items (map_of (m_curve_lists m) link) (m_curves m))
            (\<lambda>_. []))
        (opt_list (dp_curve_list_link derp))))"

definition der_program_list_links :: "sep2_model \<Rightarrow> href \<Rightarrow> links_map" where
  "der_program_list_links m href =
    (let derpl = map_of (m_program_lists m) href;
         poll_rate = (case derpl of None \<Rightarrow> None | Some l \<Rightarrow> idl_poll_rate l)
     in list_links href DERProgramList DERProgram poll_rate dp_href
          (list_items derpl (m_programs m)) (program_item_links m poll_rate))"

definition function_set_assignments_list_links :: "sep2_model \<Rightarrow> href \<Rightarrow> links_map" where
  "function_set_assignments_list_links m href =
    (let fsal = map_of (m_fsa_lists m) href
     in list_links href FunctionSetAssignmentsList FunctionSetAssignments
          (case fsal of None \<Rightarrow> None | Some l \<Rightarrow> idl_poll_rate l) fsa_href
          (list_items fsal (m_fsas m))
          (\<lambda>fsa. bt_collect (concat (map (der_program_list_links m)
                   (opt_list (fsa_program_list_link fsa))))))"

definition end_device_item_links :: "sep2_model \<Rightarrow> end_device \<Rightarrow> links_map" where
  "end_device_item_links m edev =
    bt_collect (
      concat (map (function_set_assignments_list_links m) (opt_list (ed_fsa_list_link edev)))
      @ map (\<lambda>link. resource_link link DERList
          (case map_of (m_der_lists m) link of None \<Rightarrow> None | Some derl \<Rightarrow> dl_poll_rate derl))
        (opt_list (ed_der_list_link edev)))"

definition dcap_links :: "sep2_model \<Rightarrow> links_map" where
  "dcap_links m =
    (case m_dcap m of
       None \<Rightarrow> []
     | Some dcap \<Rightarrow>
         map (\<lambda>link. resource_link link Time (tm_poll_rate (m_time m)))
           (opt_list (dcap_time_link dcap))
         @ map (\<lambda>link. resource_link link EndDeviceList
               (case m_end_device_list m of None \<Rightarrow> None | Some edevl \<Rightarrow> idl_poll_rate edevl))
             (opt_list (dcap_end_device_list_link dcap))
         @ map (\<lambda>link. resource_link link MirrorUsagePointList
               (case m_mup_list m of None \<Rightarrow> None | Some mupl \<Rightarrow> mupl_poll_rate mupl))
             (opt_list (dcap_mup_list_link dcap)))"

definition end_device_links :: "sep2_model \<Rightarrow> links_map" where
  "end_device_links m =
    (case m_end_device_list m of
       None \<Rightarrow> []
     | Some edl \<Rightarrow>
         list_links (idl_href edl) EndDeviceList EndDevice (idl_poll_rate edl) ed_href
           (list_items (Some edl) (m_end_devices m)) (end_device_item_links m))"

definition resource_links :: "sep2_model \<Rightarrow> links_map" where
  "resource_links m = bt_collect (dcap_links m @ end_device_links m)"

definition resource_link_events :: "links_map \<Rightarrow> links_map \<Rightarrow> event list" where
  "resource_link_events prior post =
    (let removed =
           map (\<lambda>(href, resource). LinkRemoved href (rl_kind resource))
             (filter (\<lambda>(href, _). \<not> bt_contains post href) prior);
         added_or_updated =
           map (\<lambda>(href, resource). LinkAddedOrUpdated href (rl_kind resource) (rl_poll_rate resource))
             (filter (\<lambda>(href, resource). bt_get prior href \<noteq> Some resource) post)
     in removed @ added_or_updated)"

text \<open>\<^verbatim>\<open>href.as_ref().is_some_and(|href| resource_links.contains_key(href))\<close>.\<close>

definition linked :: "links_map \<Rightarrow> href option \<Rightarrow> bool" where
  "linked links h = (case h of None \<Rightarrow> False | Some href \<Rightarrow> bt_contains links href)"

definition drop_untracked_resources :: "links_map \<Rightarrow> sep2_model \<Rightarrow> sep2_model" where
  "drop_untracked_resources links m =
    m\<lparr> m_fsa_lists := hm_retain (\<lambda>key _. bt_contains links key) (m_fsa_lists m),
       m_program_lists := hm_retain (\<lambda>key _. bt_contains links key) (m_program_lists m),
       m_control_lists := hm_retain (\<lambda>key _. bt_contains links key) (m_control_lists m),
       m_curve_lists := hm_retain (\<lambda>key _. bt_contains links key) (m_curve_lists m),
       m_der_lists := hm_retain (\<lambda>key _. bt_contains links key) (m_der_lists m),
       m_mup_list := (case m_mup_list m of
           None \<Rightarrow> None
         | Some mupl \<Rightarrow> if linked links (mupl_href mupl) then Some mupl else None),
       m_end_devices := hm_retain (\<lambda>_ val. linked links (ed_href val)) (m_end_devices m),
       m_fsas := hm_retain (\<lambda>_ val. linked links (fsa_href val)) (m_fsas m),
       m_programs := hm_retain (\<lambda>_ val. linked links (dp_href val)) (m_programs m),
       m_controls := hm_retain (\<lambda>_ val. linked links (dc_href (sc_der_control val))) (m_controls m),
       m_curves := hm_retain (\<lambda>_ val. linked links (cv_href val)) (m_curves m),
       m_default_controls := hm_retain (\<lambda>_ val. linked links (dd_href val)) (m_default_controls m) \<rparr>"

text \<open>The dispatch of \<^verbatim>\<open>apply_update\<close>; \<open>None\<close> is the panic of the random range.\<close>

fun merge_update :: "env \<Rightarrow> sep2_resource_event \<Rightarrow> sep2_model \<Rightarrow> (sep2_model \<times> event list) option" where
  "merge_update e (EvDeviceCapability dcap) m = Some (set_dcap dcap m, [])"
| "merge_update e (EvTime time) m = Some (set_time time m, [])"
| "merge_update e (EvEndDeviceList edl) m = Some (set_end_device_list edl m, [])"
| "merge_update e (EvFunctionSetAssignmentsList fsal) m =
     Some (set_function_set_assignments_list fsal m, [])"
| "merge_update e (EvDERProgramList derpl) m = Some (set_der_program_list derpl m, [])"
| "merge_update e (EvDERControlList dercl) m = set_der_control_list e dercl m"
| "merge_update e (EvDERCurveList curves) m = Some (set_der_curve_list curves m, [])"
| "merge_update e (EvDefaultDERControl dderc) m = Some (set_default_der_control dderc m, [])"
| "merge_update e (EvDERList derl) m = Some (set_der_list derl m, [])"
| "merge_update e (EvMirrorUsagePointList mupl) m = Some (set_mirror_usage_point_list mupl m, [])"

definition apply_update ::
  "env \<Rightarrow> sep2_resource_event \<Rightarrow> sep2_model \<Rightarrow> (sep2_model \<times> event list) option" where
  "apply_update e update m =
    (let resource_links_before = resource_links m
     in case merge_update e update m of
          None \<Rightarrow> None
        | Some (m', control_events) \<Rightarrow>
            (let resource_links_after = resource_links m'
             in Some (drop_untracked_resources resource_links_after m',
                      resource_link_events resource_links_before resource_links_after
                        @ control_events)))"

definition refresh_known_links :: "sep2_model \<Rightarrow> event list" where
  "refresh_known_links m = resource_link_events [] (resource_links m)"

section \<open>The events are an exact difference\<close>

text \<open>What a consumer of the events keeps: the set of links it has been told about.\<close>

fun track_link :: "event \<Rightarrow> (href \<rightharpoonup> link_data) \<Rightarrow> (href \<rightharpoonup> link_data)" where
  "track_link (LinkAddedOrUpdated href kind rate) t =
     t(href \<mapsto> \<lparr>rl_kind = kind, rl_poll_rate = rate\<rparr>)"
| "track_link (LinkRemoved href _) t = t(href := None)"
| "track_link _ t = t"

lemma bt_ok_resource_links [simp]: "bt_ok (resource_links m)"
  by (simp add: resource_links_def)

lemma bt_ok_hm_ok: "bt_ok l \<Longrightarrow> hm_ok l"
  by (simp add: hm_ok_def bt_ok_distinct)

lemma fold_track_removed:
  "fold track_link (map (\<lambda>(href, r). LinkRemoved href (rl_kind r)) xs) t =
     (\<lambda>h. if h \<in> fst ` set xs then None else t h)"
  by (induction xs arbitrary: t) (auto simp: fun_eq_iff)

lemma fold_track_added:
  assumes "distinct (map fst xs)"
  shows "fold track_link
      (map (\<lambda>(href, r). LinkAddedOrUpdated href (rl_kind r) (rl_poll_rate r)) xs) t = t ++ map_of xs"
  using assms
proof (induction xs arbitrary: t)
  case (Cons x xs)
  obtain h r where x: "x = (h, r)" by (cases x)
  have none: "map_of xs h = None" using Cons.prems x by (simp add: map_of_eq_None_iff)
  show ?case using Cons x none by (auto simp: fun_eq_iff map_add_def split: option.splits)
qed simp

lemma track_link_difference:
  assumes "bt_ok prior" "bt_ok post"
  shows "fold track_link (resource_link_events prior post) t =
    (\<lambda>h. if map_of prior h = map_of post h then t h else map_of post h)"
proof
  fix h
  let ?gone = "filter (\<lambda>(href, _). \<not> bt_contains post href) prior"
  let ?new = "filter (\<lambda>(href, r). bt_get prior href \<noteq> Some r) post"
  have dist: "distinct (map fst ?new)"
    using bt_ok_distinct [OF assms(2)] by (simp add: distinct_map_filter)
  have new: "map_of ?new h = (if map_of prior h = map_of post h then None else map_of post h)"
    using map_of_hm_retain [OF bt_ok_hm_ok [OF assms(2)], of "\<lambda>href r. bt_get prior href \<noteq> Some r" h]
    by (auto simp: hm_retain_def bt_get_def split: option.splits)
  have gone: "h \<in> fst ` set ?gone \<longleftrightarrow> map_of prior h \<noteq> None \<and> map_of post h = None"
    by (force simp: bt_contains_def map_of_eq_None_iff image_iff)
  show "fold track_link (resource_link_events prior post) t h =
      (if map_of prior h = map_of post h then t h else map_of post h)"
    by (auto simp: resource_link_events_def Let_def fold_track_removed fold_track_added [OF dist]
        map_add_def new gone simp del: set_filter split: option.splits)
qed

lemma track_resource_link_events:
  assumes "bt_ok prior" "bt_ok post"
  shows "fold track_link (resource_link_events prior post) (map_of prior) = map_of post"
  by (auto simp: track_link_difference [OF assms] fun_eq_iff)

lemma resource_link_events_refl: "bt_ok l \<Longrightarrow> resource_link_events l l = []"
  using bt_ok_distinct [of l]
  by (auto simp: resource_link_events_def bt_get_def bt_contains_def filter_empty_conv)

lemma resource_link_events_Nil_iff:
  assumes "bt_ok prior" "bt_ok post"
  shows "resource_link_events prior post = [] \<longleftrightarrow> prior = post"
  using assms track_resource_link_events [OF assms] resource_link_events_refl
  by (auto intro: bt_ext)

section \<open>The collection leaves the links unchanged\<close>

definition covered :: "links_map \<Rightarrow> links_map \<Rightarrow> bool" where
  "covered links ls \<longleftrightarrow> (\<forall>h \<in> fst ` set ls. bt_contains links h)"

definition hrefs_ok :: "sep2_model \<Rightarrow> bool" where
  "hrefs_ok m \<longleftrightarrow> (\<forall>x \<in> snd ` set (m_end_devices m). ed_href x \<noteq> None) \<and>
     (\<forall>x \<in> snd ` set (m_fsas m). fsa_href x \<noteq> None) \<and>
     (\<forall>x \<in> snd ` set (m_programs m). dp_href x \<noteq> None) \<and>
     (\<forall>x \<in> snd ` set (m_controls m). dc_href (sc_der_control x) \<noteq> None) \<and>
     (\<forall>x \<in> snd ` set (m_curves m). cv_href x \<noteq> None)"

definition mup_ok :: "sep2_model \<Rightarrow> bool" where
  "mup_ok m \<longleftrightarrow> (case (m_dcap m, m_mup_list m) of
       (Some dcap, Some mupl) \<Rightarrow>
         dcap_mup_list_link dcap = None \<or> mupl_href mupl = dcap_mup_list_link dcap
     | _ \<Rightarrow> True)"

lemma fst_resource_link [simp]: "fst (resource_link h k r) = h"
  by (simp add: resource_link_def)

lemma keys_list_links:
  "fst ` set (list_links h k ik r ih items il) =
     insert h (\<Union>item \<in> set items. set_option (ih item) \<union> fst ` set (il item))"
  unfolding list_links_def set_bt_collect_keys
  by (auto simp: image_UN split: option.splits)

lemma covered_list_links:
  "covered links (list_links h k ik r ih items il) \<longleftrightarrow>
     bt_contains links h \<and>
     (\<forall>item \<in> set items. (\<forall>h' \<in> set_option (ih item). bt_contains links h') \<and> covered links (il item))"
  unfolding covered_def keys_list_links by auto

lemma covered_bt_collect [simp]: "covered links (bt_collect ls) \<longleftrightarrow> covered links ls"
  by (simp add: covered_def set_bt_collect_keys)

lemma covered_append [simp]: "covered links (xs @ ys) \<longleftrightarrow> covered links xs \<and> covered links ys"
  by (auto simp: covered_def)

lemma covered_Nil [simp]: "covered links []"
  by (simp add: covered_def)

lemma covered_Cons [simp]: "covered links (x # xs) \<longleftrightarrow> bt_contains links (fst x) \<and> covered links xs"
  by (simp add: covered_def)

lemma covered_self: "covered (bt_collect ls) ls"
proof -
  have "bt_contains (bt_collect ls) h" if "h \<in> fst ` set ls" for h
    using that by (simp add: bt_contains_def map_of_eq_None_iff)
  then show ?thesis by (simp add: covered_def)
qed

lemma list_links_cong:
  assumes "items = items'" "\<And>item. item \<in> set items' \<Longrightarrow> il item = il' item"
  shows "list_links h k ik r ih items il = list_links h k ik r ih items' il'"
proof -
  have "map (\<lambda>item. (case ih item of None \<Rightarrow> [] | Some h \<Rightarrow> [resource_link h ik r]) @ il item) items'
      = map (\<lambda>item. (case ih item of None \<Rightarrow> [] | Some h \<Rightarrow> [resource_link h ik r]) @ il' item) items'"
    using assms(2) by (intro map_cong) simp_all
  then show ?thesis unfolding list_links_def assms(1) by (simp only:)
qed

lemma list_items_retain:
  assumes "hm_ok items" "\<forall>x \<in> set (list_items l items). q x"
  shows "list_items l (hm_retain (\<lambda>_. q) items) = list_items l items"
proof (cases l)
  case (Some ids)
  have "List.map_filter (map_of (hm_retain (\<lambda>_. q) items)) xs = List.map_filter (map_of items) xs"
    if "\<forall>x \<in> set (List.map_filter (map_of items) xs). q x" for xs
    using that
    by (induction xs) (auto simp: map_filter_simps map_of_hm_retain [OF assms(1)] split: option.splits)
  then show ?thesis using assms(2) Some by (simp add: list_items_def)
qed (simp add: list_items_def)

lemma get_retained_list:
  "hm_ok ls \<Longrightarrow> bt_contains links h \<Longrightarrow>
     map_of (hm_retain (\<lambda>key _. bt_contains links key) ls) h = map_of ls h"
  by (simp add: map_of_hm_retain split: option.split)

lemma list_items_stored: "x \<in> set (list_items l items) \<Longrightarrow> x \<in> snd ` set items"
  by (force simp: list_items_def in_set_map_filter dest: map_of_SomeD split: option.splits)

lemma linked_item:
  assumes "\<forall>x \<in> snd ` set items. ih x \<noteq> None"
    and "\<forall>x \<in> set (list_items l items). \<forall>h \<in> set_option (ih x). bt_contains links h"
  shows "\<forall>x \<in> set (list_items l items). linked links (ih x)"
  using assms list_items_stored by (fastforce simp: linked_def split: option.splits)

lemma set_opt_list [simp]: "set (opt_list x) = set_option x"
  by (cases x) (simp_all add: opt_list_def)

lemma covered_concat [simp]: "covered links (concat xss) \<longleftrightarrow> (\<forall>xs \<in> set xss. covered links xs)"
  by (auto simp: covered_def)

lemma drop_lists:
  "m_fsa_lists (drop_untracked_resources l m) = hm_retain (\<lambda>key _. bt_contains l key) (m_fsa_lists m)"
  "m_program_lists (drop_untracked_resources l m) =
     hm_retain (\<lambda>key _. bt_contains l key) (m_program_lists m)"
  "m_control_lists (drop_untracked_resources l m) =
     hm_retain (\<lambda>key _. bt_contains l key) (m_control_lists m)"
  "m_curve_lists (drop_untracked_resources l m) =
     hm_retain (\<lambda>key _. bt_contains l key) (m_curve_lists m)"
  "m_der_lists (drop_untracked_resources l m) = hm_retain (\<lambda>key _. bt_contains l key) (m_der_lists m)"
  "m_end_devices (drop_untracked_resources l m) =
     hm_retain (\<lambda>_ v. linked l (ed_href v)) (m_end_devices m)"
  "m_fsas (drop_untracked_resources l m) = hm_retain (\<lambda>_ v. linked l (fsa_href v)) (m_fsas m)"
  "m_programs (drop_untracked_resources l m) = hm_retain (\<lambda>_ v. linked l (dp_href v)) (m_programs m)"
  "m_controls (drop_untracked_resources l m) =
     hm_retain (\<lambda>_ v. linked l (dc_href (sc_der_control v))) (m_controls m)"
  "m_curves (drop_untracked_resources l m) = hm_retain (\<lambda>_ v. linked l (cv_href v)) (m_curves m)"
  "m_default_controls (drop_untracked_resources l m) =
     hm_retain (\<lambda>_ v. linked l (dd_href v)) (m_default_controls m)"
  "m_end_device_list (drop_untracked_resources l m) = m_end_device_list m"
  "m_dcap (drop_untracked_resources l m) = m_dcap m"
  "m_time (drop_untracked_resources l m) = m_time m"
  by (simp_all add: drop_untracked_resources_def)

lemma model_ok_drop [simp]: "model_ok m \<Longrightarrow> model_ok (drop_untracked_resources l m)"
  by (simp add: model_ok_def drop_lists)

lemma program_item_links_drop:
  assumes "model_ok m" "hrefs_ok m" "covered l (program_item_links m r d)"
  shows "program_item_links (drop_untracked_resources l m) r d = program_item_links m r d"
proof -
  let ?m = "drop_untracked_resources l m"
  have controls: "list_links h DERControlList DERControl r dc_href
      (map sc_der_control (list_items (map_of (m_control_lists ?m) h) (m_controls ?m))) (\<lambda>_. []) =
    list_links h DERControlList DERControl r dc_href
      (map sc_der_control (list_items (map_of (m_control_lists m) h) (m_controls m))) (\<lambda>_. [])"
    if "h \<in> set_option (dp_control_list_link d)" for h
  proof (rule list_links_cong)
    have cov: "covered l (list_links h DERControlList DERControl r dc_href
        (map sc_der_control (list_items (map_of (m_control_lists m) h) (m_controls m))) (\<lambda>_. []))"
      using assms(3) that by (auto simp: program_item_links_def)
    then have "map_of (m_control_lists ?m) h = map_of (m_control_lists m) h"
      using assms(1) by (simp add: drop_lists get_retained_list model_ok_def covered_list_links)
    moreover have "\<forall>x \<in> set (list_items (map_of (m_control_lists m) h) (m_controls m)).
        linked l (dc_href (sc_der_control x))"
      using assms(2) cov by (intro linked_item) (auto simp: hrefs_ok_def covered_list_links)
    ultimately show "map sc_der_control (list_items (map_of (m_control_lists ?m) h) (m_controls ?m)) =
        map sc_der_control (list_items (map_of (m_control_lists m) h) (m_controls m))"
      using assms(1) by (simp add: drop_lists list_items_retain model_ok_def)
  qed simp
  have curves: "list_links h DERCurveList DERCurve r cv_href
      (list_items (map_of (m_curve_lists ?m) h) (m_curves ?m)) (\<lambda>_. []) =
    list_links h DERCurveList DERCurve r cv_href
      (list_items (map_of (m_curve_lists m) h) (m_curves m)) (\<lambda>_. [])"
    if "h \<in> set_option (dp_curve_list_link d)" for h
  proof (rule list_links_cong)
    have cov: "covered l (list_links h DERCurveList DERCurve r cv_href
        (list_items (map_of (m_curve_lists m) h) (m_curves m)) (\<lambda>_. []))"
      using assms(3) that by (auto simp: program_item_links_def)
    then have "map_of (m_curve_lists ?m) h = map_of (m_curve_lists m) h"
      using assms(1) by (simp add: drop_lists get_retained_list model_ok_def covered_list_links)
    moreover have "\<forall>x \<in> set (list_items (map_of (m_curve_lists m) h) (m_curves m)). linked l (cv_href x)"
      using assms(2) cov by (intro linked_item) (auto simp: hrefs_ok_def covered_list_links)
    ultimately show "list_items (map_of (m_curve_lists ?m) h) (m_curves ?m) =
        list_items (map_of (m_curve_lists m) h) (m_curves m)"
      using assms(1) by (simp add: drop_lists list_items_retain model_ok_def)
  qed simp
  show ?thesis
    unfolding program_item_links_def using controls curves
    by (intro arg_cong [where f = bt_collect] arg_cong2 [where f = "(@)"] arg_cong [where f = concat]
        map_cong) simp_all
qed

lemma der_program_list_links_drop:
  assumes "model_ok m" "hrefs_ok m" "covered l (der_program_list_links m h)"
  shows "der_program_list_links (drop_untracked_resources l m) h = der_program_list_links m h"
proof -
  let ?m = "drop_untracked_resources l m" and ?l = "map_of (m_program_lists m) h"
  have cov: "bt_contains l h"
    "\<forall>d \<in> set (list_items ?l (m_programs m)). (\<forall>h' \<in> set_option (dp_href d). bt_contains l h') \<and>
       covered l (program_item_links m (case ?l of None \<Rightarrow> None | Some l \<Rightarrow> idl_poll_rate l) d)"
    using assms(3) by (auto simp: der_program_list_links_def Let_def covered_list_links)
  have eq: "map_of (m_program_lists ?m) h = ?l"
    using assms(1) cov(1) by (simp add: drop_lists get_retained_list model_ok_def)
  have "\<forall>d \<in> set (list_items ?l (m_programs m)). linked l (dp_href d)"
    using assms(2) cov(2) by (intro linked_item) (auto simp: hrefs_ok_def)
  then have items: "list_items ?l (m_programs ?m) = list_items ?l (m_programs m)"
    using assms(1) by (simp add: drop_lists list_items_retain model_ok_def)
  show ?thesis
    unfolding der_program_list_links_def Let_def eq items
    using cov(2) assms(1,2) by (intro list_links_cong) (simp_all add: program_item_links_drop)
qed

lemma fsa_list_links_drop:
  assumes "model_ok m" "hrefs_ok m" "covered l (function_set_assignments_list_links m h)"
  shows "function_set_assignments_list_links (drop_untracked_resources l m) h =
    function_set_assignments_list_links m h"
proof -
  let ?m = "drop_untracked_resources l m" and ?l = "map_of (m_fsa_lists m) h"
  have cov: "bt_contains l h"
    "\<forall>f \<in> set (list_items ?l (m_fsas m)). (\<forall>h' \<in> set_option (fsa_href f). bt_contains l h') \<and>
       (\<forall>link \<in> set_option (fsa_program_list_link f). covered l (der_program_list_links m link))"
    using assms(3) by (auto simp: function_set_assignments_list_links_def Let_def covered_list_links)
  have eq: "map_of (m_fsa_lists ?m) h = ?l"
    using assms(1) cov(1) by (simp add: drop_lists get_retained_list model_ok_def)
  have "\<forall>f \<in> set (list_items ?l (m_fsas m)). linked l (fsa_href f)"
    using assms(2) cov(2) by (intro linked_item) (auto simp: hrefs_ok_def)
  then have items: "list_items ?l (m_fsas ?m) = list_items ?l (m_fsas m)"
    using assms(1) by (simp add: drop_lists list_items_retain model_ok_def)
  have below: "map (der_program_list_links ?m) (opt_list (fsa_program_list_link f)) =
      map (der_program_list_links m) (opt_list (fsa_program_list_link f))"
    if "f \<in> set (list_items ?l (m_fsas m))" for f
    using cov(2) that assms(1,2) by (intro map_cong) (simp_all add: der_program_list_links_drop)
  show ?thesis
    unfolding function_set_assignments_list_links_def Let_def eq items
    by (intro list_links_cong [OF refl] arg_cong [where f = "\<lambda>x. bt_collect (concat x)"]) (rule below)
qed

lemma end_device_links_drop:
  assumes "model_ok m" "hrefs_ok m" "covered l (end_device_links m)"
  shows "end_device_links (drop_untracked_resources l m) = end_device_links m"
proof (cases "m_end_device_list m")
  case (Some edl)
  let ?m = "drop_untracked_resources l m"
  have cov: "\<forall>d \<in> set (list_items (Some edl) (m_end_devices m)).
      (\<forall>h' \<in> set_option (ed_href d). bt_contains l h') \<and> covered l (end_device_item_links m d)"
    using assms(3) Some by (auto simp: end_device_links_def covered_list_links)
  have "\<forall>d \<in> set (list_items (Some edl) (m_end_devices m)). linked l (ed_href d)"
    using assms(2) cov by (intro linked_item) (auto simp: hrefs_ok_def)
  then have items: "list_items (Some edl) (m_end_devices ?m) = list_items (Some edl) (m_end_devices m)"
    using assms(1) by (simp add: drop_lists list_items_retain model_ok_def)
  have below: "end_device_item_links ?m d = end_device_item_links m d"
    if "covered l (end_device_item_links m d)" for d
  proof -
    have "covered l (function_set_assignments_list_links m h)"
      if "h \<in> set_option (ed_fsa_list_link d)" for h
      using \<open>covered l (end_device_item_links m d)\<close> that by (auto simp: end_device_item_links_def)
    moreover have "bt_contains l h" if "h \<in> set_option (ed_der_list_link d)" for h
      using \<open>covered l (end_device_item_links m d)\<close> that
      by (cases "ed_der_list_link d") (auto simp: end_device_item_links_def opt_list_def)
    ultimately show ?thesis
      unfolding end_device_item_links_def using assms(1,2)
      by (intro arg_cong [where f = bt_collect] arg_cong2 [where f = "(@)"]
          arg_cong [where f = concat] map_cong)
        (simp_all add: fsa_list_links_drop drop_lists get_retained_list model_ok_def [of m])
  qed
  show ?thesis
    using Some cov items below
    by (simp add: end_device_links_def drop_lists(12)) (intro list_links_cong; simp)
qed (simp add: end_device_links_def drop_lists)

text \<open>
  Two sets of links agree when they have the same hrefs, of the same kinds and at the same rates. Without
  \<open>strict\<close>, the rate of a mirror usage point list is left open: the rate of a stored list is announced
  for whichever href the device capability links to, and the list is then collected when that href is
  not its own.
\<close>

definition rates_agree :: "bool \<Rightarrow> link_data \<Rightarrow> link_data \<Rightarrow> bool" where
  "rates_agree strict l l' \<longleftrightarrow> rl_kind l = rl_kind l' \<and>
    (strict \<or> rl_kind l \<noteq> MirrorUsagePointList \<longrightarrow> rl_poll_rate l = rl_poll_rate l')"

definition links_agree :: "bool \<Rightarrow> (href \<rightharpoonup> link_data) \<Rightarrow> (href \<rightharpoonup> link_data) \<Rightarrow> bool" where
  "links_agree strict t t' \<longleftrightarrow> (\<forall>h. rel_option (rates_agree strict) (t h) (t' h))"

lemma rates_agree_strict [simp]: "rates_agree True = (=)"
  by (auto simp: rates_agree_def fun_eq_iff)

lemma links_agree_strict [simp]: "links_agree True t t' \<longleftrightarrow> t = t'"
  by (auto simp: links_agree_def fun_eq_iff option.rel_eq)

lemma rates_agree_refl [simp]: "rates_agree strict l l"
  by (simp add: rates_agree_def)

lemma links_agree_refl [simp]: "links_agree strict t t"
  by (simp add: links_agree_def option.rel_refl)

lemma rel_rates_sym: "rel_option (rates_agree strict) x y \<Longrightarrow> rel_option (rates_agree strict) y x"
  by (cases x; cases y) (auto simp: rates_agree_def)

lemma rel_rates_trans:
  "rel_option (rates_agree strict) x y \<Longrightarrow> rel_option (rates_agree strict) y z \<Longrightarrow>
     rel_option (rates_agree strict) x z"
  by (cases x; cases y; cases z) (auto simp: rates_agree_def)

lemma links_agree_sym: "links_agree strict t t' \<Longrightarrow> links_agree strict t' t"
  unfolding links_agree_def using rel_rates_sym by blast

lemma links_agree_trans: "links_agree strict t u \<Longrightarrow> links_agree strict u v \<Longrightarrow> links_agree strict t v"
  unfolding links_agree_def using rel_rates_trans by blast

lemma links_agree_dom: "links_agree strict t t' \<Longrightarrow> t h = None \<longleftrightarrow> t' h = None"
  unfolding links_agree_def by (metis option.rel_distinct(1,2) not_None_eq)

lemma links_agree_map_of:
  assumes "list_all2 (\<lambda>x y. fst x = fst y \<and> rates_agree strict (snd x) (snd y)) xs ys"
  shows "links_agree strict (map_of xs) (map_of ys)"
  using assms by (induction rule: list_all2_induct) (auto simp: links_agree_def)

lemma dcap_links_drop:
  assumes "strict \<longrightarrow> mup_ok m" "covered l (dcap_links m)"
  shows "list_all2 (\<lambda>x y. fst x = fst y \<and> rates_agree strict (snd x) (snd y))
    (dcap_links (drop_untracked_resources l m)) (dcap_links m)"
proof (cases "m_dcap m")
  case (Some dcap)
  have mups: "strict \<Longrightarrow> map (\<lambda>link. resource_link link MirrorUsagePointList
        (case m_mup_list (drop_untracked_resources l m) of None \<Rightarrow> None | Some x \<Rightarrow> mupl_poll_rate x))
      (opt_list (dcap_mup_list_link dcap)) =
    map (\<lambda>link. resource_link link MirrorUsagePointList
        (case m_mup_list m of None \<Rightarrow> None | Some x \<Rightarrow> mupl_poll_rate x))
      (opt_list (dcap_mup_list_link dcap))"
    using assms Some
    by (auto simp: dcap_links_def mup_ok_def drop_untracked_resources_def linked_def opt_list_def
        split: option.splits)
  show ?thesis
    using mups Some
    by (cases strict) (auto simp: dcap_links_def drop_lists list_all2_appendI list_all2_same list_all2_map1
        list_all2_map2 resource_link_def rates_agree_def)
qed (simp add: dcap_links_def drop_lists)

lemma resource_links_agree_drop:
  assumes "model_ok m" "hrefs_ok m" "strict \<longrightarrow> mup_ok m"
  shows "links_agree strict (map_of (resource_links (drop_untracked_resources (resource_links m) m)))
    (map_of (resource_links m))"
proof -
  let ?m = "drop_untracked_resources (resource_links m) m"
  have cov: "covered (resource_links m) (dcap_links m @ end_device_links m)"
    unfolding resource_links_def by (rule covered_self)
  then have "end_device_links ?m = end_device_links m" using assms by (simp add: end_device_links_drop)
  then have "list_all2 (\<lambda>x y. fst x = fst y \<and> rates_agree strict (snd x) (snd y))
      (dcap_links ?m @ end_device_links ?m) (dcap_links m @ end_device_links m)"
    using cov assms(3) by (intro list_all2_appendI dcap_links_drop) (simp_all add: list_all2_same)
  then have "links_agree strict (map_of (rev (dcap_links ?m @ end_device_links ?m)))
      (map_of (rev (dcap_links m @ end_device_links m)))"
    by (intro links_agree_map_of) (simp only: list_all2_rev)
  then show ?thesis by (simp only: resource_links_def map_of_bt_collect)
qed

lemma resource_links_drop:
  assumes "model_ok m" "hrefs_ok m" "mup_ok m"
  shows "resource_links (drop_untracked_resources (resource_links m) m) = resource_links m"
  using resource_links_agree_drop [of m True] assms by (intro bt_ext) simp_all

section \<open>The invariant of the stored model\<close>

text \<open>
  What the code relies on from the server: every item it stores has an href (SEP2 requires one). With
  \<open>strict\<close>, also that the mirror usage point list it holds is the one the device capability links to:
  a capability that moves the link while a list is held does not keep this.
\<close>

fun update_ok :: "bool \<Rightarrow> sep2_model \<Rightarrow> sep2_resource_event \<Rightarrow> bool" where
  "update_ok strict m (EvDeviceCapability dcap) \<longleftrightarrow> (strict \<longrightarrow> mup_ok (set_dcap dcap m))"
| "update_ok strict m (EvMirrorUsagePointList mupl) \<longleftrightarrow>
     (strict \<longrightarrow> mup_ok (set_mirror_usage_point_list mupl m))"
| "update_ok strict m (EvEndDeviceList edl) \<longleftrightarrow> (\<forall>x \<in> set (edl_end_device edl). ed_href x \<noteq> None)"
| "update_ok strict m (EvFunctionSetAssignmentsList l) \<longleftrightarrow> (\<forall>x \<in> set (fsal_items l). fsa_href x \<noteq> None)"
| "update_ok strict m (EvDERProgramList l) \<longleftrightarrow> (\<forall>x \<in> set (dpl_items l). dp_href x \<noteq> None)"
| "update_ok strict m (EvDERControlList l) \<longleftrightarrow> (\<forall>x \<in> set (dcl_items l). dc_href x \<noteq> None)"
| "update_ok strict m (EvDERCurveList l) \<longleftrightarrow> (\<forall>x \<in> set (cvl_items l). cv_href x \<noteq> None)"
| "update_ok strict m _ \<longleftrightarrow> True"

definition links_ok :: "bool \<Rightarrow> sep2_model \<Rightarrow> bool" where
  "links_ok strict m \<longleftrightarrow> model_ok m \<and> hrefs_ok m \<and> (strict \<longrightarrow> mup_ok m)"

lemma values_hm_insert: "snd ` set (hm_insert k v m) \<subseteq> insert v (snd ` set m)"
  unfolding hm_insert_def by (induction m) auto

definition all_vals :: "('v \<Rightarrow> bool) \<Rightarrow> ('k \<times> 'v) list \<Rightarrow> bool" where
  "all_vals P m \<longleftrightarrow> (\<forall>x \<in> snd ` set m. P x)"

lemma all_vals_insert [simp]: "P v \<Longrightarrow> all_vals P m \<Longrightarrow> all_vals P (hm_insert k v m)"
  using values_hm_insert [of k v m] unfolding all_vals_def by blast

lemma all_vals_retain [simp]: "all_vals P m \<Longrightarrow> all_vals P (hm_retain q m)"
  by (auto simp: all_vals_def hm_retain_def)

lemma hrefs_ok_vals:
  "hrefs_ok m \<longleftrightarrow> all_vals (\<lambda>x. ed_href x \<noteq> None) (m_end_devices m) \<and>
     all_vals (\<lambda>x. fsa_href x \<noteq> None) (m_fsas m) \<and> all_vals (\<lambda>x. dp_href x \<noteq> None) (m_programs m) \<and>
     all_vals (\<lambda>x. dc_href (sc_der_control x) \<noteq> None) (m_controls m) \<and>
     all_vals (\<lambda>x. cv_href x \<noteq> None) (m_curves m)"
  by (simp add: hrefs_ok_def all_vals_def)

lemma fold_preserves_if:
  assumes "\<And>x m. x \<in> set xs \<Longrightarrow> P m \<Longrightarrow> P (f x m)" "P m"
  shows "P (fold f xs m)"
  using assms by (induction xs arbitrary: m) simp_all

lemma mup_ok_other [simp]:
  "mup_ok (m\<lparr>m_end_device_list := x\<rparr>) \<longleftrightarrow> mup_ok m"
  "mup_ok (m\<lparr>m_end_devices := x1\<rparr>) \<longleftrightarrow> mup_ok m"
  "mup_ok (m\<lparr>m_fsa_lists := x2\<rparr>) \<longleftrightarrow> mup_ok m"
  "mup_ok (m\<lparr>m_fsas := x3\<rparr>) \<longleftrightarrow> mup_ok m"
  "mup_ok (m\<lparr>m_program_lists := x4\<rparr>) \<longleftrightarrow> mup_ok m"
  "mup_ok (m\<lparr>m_programs := x5\<rparr>) \<longleftrightarrow> mup_ok m"
  "mup_ok (m\<lparr>m_control_lists := x6\<rparr>) \<longleftrightarrow> mup_ok m"
  "mup_ok (m\<lparr>m_controls := x7\<rparr>) \<longleftrightarrow> mup_ok m"
  "mup_ok (m\<lparr>m_curve_lists := x8\<rparr>) \<longleftrightarrow> mup_ok m"
  "mup_ok (m\<lparr>m_curves := x9\<rparr>) \<longleftrightarrow> mup_ok m"
  "mup_ok (m\<lparr>m_default_controls := x10\<rparr>) \<longleftrightarrow> mup_ok m"
  "mup_ok (m\<lparr>m_der_lists := x11\<rparr>) \<longleftrightarrow> mup_ok m"
  "mup_ok (m\<lparr>m_time := x12\<rparr>) \<longleftrightarrow> mup_ok m"
  by (simp_all add: mup_ok_def)

lemma links_ok_set_der_control:
  assumes "set_der_control e n c m = Some (m', es, n')" "dc_href c \<noteq> None" "links_ok strict m"
  shows "links_ok strict m'"
proof -
  from assms(1) obtain sc where "m' = m\<lparr>m_controls := hm_insert (dc_mrid c) sc (m_controls m)\<rparr>"
    "sc_der_control sc = c"
    by (auto simp: set_der_control_def Let_def split: option.splits elim!: realise_control_Some)
  then show ?thesis
    using assms(2,3) by (simp add: links_ok_def model_ok_def hrefs_ok_vals)
qed

lemma links_ok_set_der_controls:
  assumes "set_der_controls e n cs m = Some (m', es, n')" "\<forall>c \<in> set cs. dc_href c \<noteq> None" "links_ok strict m"
  shows "links_ok strict m'"
  using assms
proof (induction cs arbitrary: n m es)
  case (Cons c cs)
  then obtain m1 es1 n1 es2 where "set_der_control e n c m = Some (m1, es1, n1)"
    "set_der_controls e n1 cs m1 = Some (m', es2, n')"
    by (auto split: option.splits prod.splits)
  then show ?case using Cons.IH Cons.prems(2,3) links_ok_set_der_control by fastforce
qed simp

lemma links_ok_items:
  "links_ok strict m \<Longrightarrow> ed_href d \<noteq> None \<Longrightarrow> links_ok strict (set_end_device d m)"
  "links_ok strict m \<Longrightarrow> fsa_href f \<noteq> None \<Longrightarrow> links_ok strict (set_function_set_assignments f m)"
  "links_ok strict m \<Longrightarrow> dp_href p \<noteq> None \<Longrightarrow> links_ok strict (set_der_program p m)"
  "links_ok strict m \<Longrightarrow> cv_href c \<noteq> None \<Longrightarrow> links_ok strict (set_der_curve c m)"
  by (cases "ed_lfdi d"; simp add: links_ok_def model_ok_def hrefs_ok_vals set_end_device_def
      set_function_set_assignments_def set_der_program_def set_der_curve_def)+

lemma links_ok_headers:
  "links_ok strict m \<Longrightarrow> links_ok strict (m\<lparr>m_end_device_list := x\<rparr>)"
  "links_ok strict m \<Longrightarrow> links_ok strict (m\<lparr>m_fsa_lists := hm_insert h l (m_fsa_lists m)\<rparr>)"
  "links_ok strict m \<Longrightarrow> links_ok strict (m\<lparr>m_program_lists := hm_insert h l (m_program_lists m)\<rparr>)"
  "links_ok strict m \<Longrightarrow> links_ok strict (m\<lparr>m_control_lists := hm_insert h l (m_control_lists m)\<rparr>)"
  "links_ok strict m \<Longrightarrow> links_ok strict (m\<lparr>m_curve_lists := hm_insert h l (m_curve_lists m)\<rparr>)"
  "links_ok strict m \<Longrightarrow> links_ok strict (m\<lparr>m_default_controls := hm_insert h d (m_default_controls m)\<rparr>)"
  "links_ok strict m \<Longrightarrow> links_ok strict (m\<lparr>m_der_lists := hm_insert h dl (m_der_lists m)\<rparr>)"
  "links_ok strict m \<Longrightarrow> links_ok strict (m\<lparr>m_time := t\<rparr>)"
  by (simp_all add: links_ok_def model_ok_def hrefs_ok_vals)

lemma links_ok_merge_update:
  assumes "merge_update e u m = Some (m', es)" "update_ok strict m u" "links_ok strict m"
  shows "links_ok strict m'"
proof (cases u)
  case (EvDeviceCapability d)
  then show ?thesis
    using assms by (auto simp: links_ok_def model_ok_def hrefs_ok_vals set_dcap_def)
next
  case (EvMirrorUsagePointList l)
  then show ?thesis
    using assms by (auto simp: links_ok_def model_ok_def hrefs_ok_vals set_mirror_usage_point_list_def)
next
  case (EvDERControlList l)
  then show ?thesis
    using assms by (auto simp: set_der_control_list_def split: option.splits
        intro: links_ok_set_der_controls links_ok_headers)
qed (use assms in \<open>auto simp: set_time_def set_end_device_list_def set_der_list_def
    set_function_set_assignments_list_def set_der_program_list_def set_der_curve_list_def
    set_default_der_control_def split: option.splits
    intro!: fold_preserves_if [of _ "links_ok strict"] intro: links_ok_items links_ok_headers\<close>)

lemma links_ok_drop: "links_ok strict m \<Longrightarrow> links_ok strict (drop_untracked_resources l m)"
  by (auto simp: links_ok_def hrefs_ok_vals drop_lists mup_ok_def drop_untracked_resources_def [of l m, THEN arg_cong, of m_mup_list]
      split: option.splits if_splits)

lemma links_ok_apply_update:
  "apply_update e u m = Some (m', es) \<Longrightarrow> update_ok strict m u \<Longrightarrow> links_ok strict m \<Longrightarrow> links_ok strict m'"
  by (auto simp: apply_update_def Let_def split: option.splits
      intro: links_ok_drop links_ok_merge_update)

lemma links_ok_default [simp]: "links_ok strict default_sep2_model"
  by (simp add: links_ok_def hrefs_ok_def mup_ok_def) (simp add: default_sep2_model_def)

lemma resource_links_default: "resource_links default_sep2_model = []"
  by (simp add: resource_links_def dcap_links_def end_device_links_def default_sep2_model_def bt_collect_def
      bt_extend_def)

section \<open>A run of updates\<close>

fun apply_updates :: "(env \<times> sep2_resource_event) list \<Rightarrow> sep2_model \<Rightarrow> (sep2_model \<times> event list) option"
where
  "apply_updates [] m = Some (m, [])"
| "apply_updates ((e, u) # us) m =
    (case apply_update e u m of
       None \<Rightarrow> None
     | Some (m', es) \<Rightarrow>
         (case apply_updates us m' of
            None \<Rightarrow> None
          | Some (m'', es') \<Rightarrow> Some (m'', es @ es')))"

fun updates_ok :: "bool \<Rightarrow> (env \<times> sep2_resource_event) list \<Rightarrow> sep2_model \<Rightarrow> bool" where
  "updates_ok strict [] m \<longleftrightarrow> True"
| "updates_ok strict ((e, u) # us) m \<longleftrightarrow> update_ok strict m u \<and>
     (case apply_update e u m of None \<Rightarrow> True | Some (m', _) \<Rightarrow> updates_ok strict us m')"

fun is_status_event :: "event \<Rightarrow> bool" where
  "is_status_event (DERControlStatusChanged _ _ _) \<longleftrightarrow> True"
| "is_status_event _ \<longleftrightarrow> False"

lemma track_control_events:
  "\<forall>x \<in> set es. is_status_event x \<Longrightarrow> fold track_link es t = t"
proof (induction es arbitrary: t)
  case (Cons x es)
  then show ?case by (cases x) simp_all
qed simp

lemma response_event_only:
  "\<forall>x \<in> set (case r of None \<Rightarrow> [] | Some r \<Rightarrow> [DERControlStatusChanged m s r]). is_status_event x"
  by (cases r) simp_all

lemma all_in_if: "\<forall>x \<in> set a. P x \<Longrightarrow> \<forall>x \<in> set b. P x \<Longrightarrow> \<forall>x \<in> set (if c then a else b). P x"
  by (cases c) simp_all

lemma all_in_Nil: "\<forall>x \<in> set []. P x"
  by simp

lemma status_change_event_only: "\<forall>x \<in> set (status_change_event s c). is_status_event x"
  unfolding status_change_event_def Let_def by (intro all_in_if all_in_Nil response_event_only)

lemma new_control_events_only: "\<forall>x \<in> set (new_control_events now sc). is_status_event x"
  unfolding new_control_events_def Let_def set_append ball_Un
  by (intro conjI all_in_if all_in_Nil response_event_only)

lemma set_der_controls_events:
  assumes "set_der_controls e n cs m = Some (m', es, n')" "x \<in> set es"
  shows "is_status_event x"
  using assms
proof (induction cs arbitrary: n m es)
  case (Cons c cs)
  then obtain m1 es1 n1 es2 where step: "set_der_control e n c m = Some (m1, es1, n1)"
    and rest: "set_der_controls e n1 cs m1 = Some (m', es2, n')" and es: "es = es1 @ es2"
    by (auto split: option.splits prod.splits)
  have "x \<in> set es1 \<Longrightarrow> is_status_event x"
    using step status_change_event_only new_control_events_only by (auto simp: set_der_control_def Let_def split: option.splits)
  then show ?case using Cons.IH [OF rest] Cons.prems(2) es by auto
qed simp

lemma merge_update_events:
  "merge_update e u m = Some (m', es) \<Longrightarrow> x \<in> set es \<Longrightarrow> is_status_event x"
  by (cases u) (auto simp: set_der_control_list_def split: option.splits dest: set_der_controls_events)

text \<open>What an update announces are the links \<open>post\<close> after the merge, with which the collected model agrees.\<close>

lemma track_update_difference:
  assumes "apply_update e u m = Some (m', es)" "update_ok strict m u" "links_ok strict m"
  obtains post where "links_agree strict post (map_of (resource_links m'))"
    "\<And>t. fold track_link es t = (\<lambda>h. if map_of (resource_links m) h = post h then t h else post h)"
proof -
  from assms(1) obtain m1 es1 where merge: "merge_update e u m = Some (m1, es1)"
    and m': "m' = drop_untracked_resources (resource_links m1) m1"
    and es: "es = resource_link_events (resource_links m) (resource_links m1) @ es1"
    by (auto simp: apply_update_def Let_def split: option.splits)
  have "links_ok strict m1" using links_ok_merge_update merge assms(2,3) by blast
  then have "links_agree strict (map_of (resource_links m1)) (map_of (resource_links m'))"
    by (intro links_agree_sym [OF resource_links_agree_drop [of m1 strict, folded m']]) (simp_all add: links_ok_def)
  moreover have "fold track_link es1 t = t" for t
    by (rule track_control_events) (use merge_update_events [OF merge] in blast)
  then have "fold track_link es t = (\<lambda>h. if map_of (resource_links m) h = map_of (resource_links m1) h
      then t h else map_of (resource_links m1) h)" for t
    by (simp add: es track_link_difference cong: if_cong)
  ultimately show thesis using that by blast
qed

lemma track_apply_update:
  assumes "apply_update e u m = Some (m', es)" "update_ok strict m u" "links_ok strict m"
    and "links_agree strict t (map_of (resource_links m))"
  shows "links_agree strict (fold track_link es t) (map_of (resource_links m'))"
proof -
  obtain post where post: "links_agree strict post (map_of (resource_links m'))"
    and fold: "fold track_link es t = (\<lambda>h. if map_of (resource_links m) h = post h then t h else post h)"
    using track_update_difference [OF assms(1-3)] by metis
  have "links_agree strict (fold track_link es t) post"
    unfolding fold links_agree_def
  proof
    fix h
    show "rel_option (rates_agree strict)
        (if map_of (resource_links m) h = post h then t h else post h) (post h)"
      using assms(4) [unfolded links_agree_def, THEN spec [of _ h]]
      by (cases "map_of (resource_links m) h = post h") (simp_all add: option.rel_refl)
  qed
  then show ?thesis using post by (rule links_agree_trans)
qed

lemma links_agree_updates:
  assumes "apply_updates us m = Some (m', es)" "updates_ok strict us m" "links_ok strict m"
    and "links_agree strict t (map_of (resource_links m))"
  shows "links_agree strict (fold track_link es t) (map_of (resource_links m'))"
  using assms
proof (induction us arbitrary: m es t)
  case (Cons x us)
  obtain e u where x: "x = (e, u)" by (cases x)
  from Cons.prems(1) x obtain m1 es1 es2 where step: "apply_update e u m = Some (m1, es1)"
    and rest: "apply_updates us m1 = Some (m', es2)" and es: "es = es1 @ es2"
    by (auto split: option.splits prod.splits)
  have ok: "update_ok strict m u" "updates_ok strict us m1"
    using Cons.prems(2) x step by simp_all
  then have "links_ok strict m1" using links_ok_apply_update [OF step] Cons.prems(3) by blast
  note ok = ok this
  show ?case
    using Cons.IH [OF rest ok(2,3) track_apply_update [OF step ok(1) Cons.prems(3,4)]] by (simp add: es)
qed simp

section \<open>The interval of a control\<close>

text \<open>
  Whether a run collects a control: after the merge of one of the updates no link leads to the href of
  the control as the server last delivered it.
\<close>

fun control_collected :: "mrid \<Rightarrow> (env \<times> sep2_resource_event) list \<Rightarrow> sep2_model \<Rightarrow> bool" where
  "control_collected k [] m \<longleftrightarrow> False"
| "control_collected k ((e, u) # us) m \<longleftrightarrow>
     (case merge_update e u m of
        None \<Rightarrow> False
      | Some (m1, _) \<Rightarrow>
          (case map_of (m_controls m1) k of
             None \<Rightarrow> False
           | Some control \<Rightarrow> \<not> linked (resource_links m1) (dc_href (sc_der_control control))) \<or>
          control_collected k us (drop_untracked_resources (resource_links m1) m1))"

definition same_interval :: "scheduled_control \<Rightarrow> scheduled_control \<Rightarrow> bool" where
  "same_interval c c' \<longleftrightarrow> sc_start_time c = sc_start_time c' \<and> sc_duration c = sc_duration c'"

lemma fold_same_controls:
  assumes "\<And>x m. m_controls (f x m) = m_controls m"
  shows "m_controls (fold f xs m) = m_controls m"
  using assms by (induction xs arbitrary: m) simp_all

lemma model_ok_merge_update:
  "merge_update e u m = Some (m', es) \<Longrightarrow> model_ok m \<Longrightarrow> model_ok m'"
  by (cases u) (auto dest: model_ok_set_der_control_list)

lemma merge_update_keeps_interval:
  assumes "merge_update e u m = Some (m1, es)" "map_of (m_controls m) k = Some entry"
  shows "\<exists>entry'. map_of (m_controls m1) k = Some entry' \<and> same_interval entry entry'"
proof (cases "\<exists>l. u = EvDERControlList l")
  case True
  then obtain l where u: "u = EvDERControlList l" by blast
  show ?thesis
  proof (cases "dcl_href l")
    case (Some h)
    with assms(1) u obtain n where
      "set_der_controls e 0 (dcl_items l) (m\<lparr>m_control_lists := hm_insert h
         \<lparr>idl_href = h, idl_items = map dc_mrid (dcl_items l), idl_poll_rate = None\<rparr>
         (m_control_lists m)\<rparr>) = Some (m1, es, n)"
      by (auto simp: set_der_control_list_def Let_def split: option.splits prod.splits)
    from set_der_controls_keep_interval [OF this, of k entry] assms(2) show ?thesis
      by (auto simp: same_interval_def)
  qed (use assms u in \<open>auto simp: set_der_control_list_def same_interval_def\<close>)
next
  case False
  then have "m_controls m1 = m_controls m"
    using assms(1) by (cases u) (auto simp: set_dcap_def set_time_def set_end_device_list_def set_der_list_def
      set_function_set_assignments_list_def set_der_program_list_def set_der_curve_list_def
      set_default_der_control_def set_mirror_usage_point_list_def set_end_device_def set_der_curve_def
      set_function_set_assignments_def set_der_program_def fold_same_controls split: option.splits)
  then show ?thesis using assms(2) by (simp add: same_interval_def)
qed

section \<open>Properties\<close>

text \<open>
  The link events are an exact difference. A consumer that knows the links of one state of
  the model and processes the events of a change to any other knows precisely the links of the
  other, poll rates included, and no event is emitted exactly when no link changed.
\<close>

theorem link_events_exact:
  "fold track_link (resource_link_events (resource_links m) (resource_links m'))
     (map_of (resource_links m)) = map_of (resource_links m') \<and>
   (resource_link_events (resource_links m) (resource_links m') = [] \<longleftrightarrow>
     resource_links m = resource_links m')"
  by (simp add: track_resource_link_events resource_link_events_Nil_iff)

text \<open>
  The collection of unreferenced resources is invisible downstream. It removes what no link
  leads to, and the links computed from what it keeps, hrefs, kinds and poll rates, are those
  computed before: the model it leaves is stable, and nothing still polled is forgotten.
\<close>

theorem collection_keeps_links:
  assumes "links_ok True m"
  shows "resource_links (drop_untracked_resources (resource_links m) m) = resource_links m \<and>
    drop_untracked_resources (resource_links m) (drop_untracked_resources (resource_links m) m) =
      drop_untracked_resources (resource_links m) m"
proof
  show "resource_links (drop_untracked_resources (resource_links m) m) = resource_links m"
    using assms by (simp add: links_ok_def resource_links_drop)
  have twice: "hm_retain q (hm_retain q xs) = hm_retain q xs" for q and xs :: "('k \<times> 'v) list"
    by (simp add: hm_retain_def)
  show "drop_untracked_resources (resource_links m) (drop_untracked_resources (resource_links m) m) =
      drop_untracked_resources (resource_links m) m"
    by (simp add: drop_untracked_resources_def twice split: option.split)
qed


text \<open>
  C23: a control's interval is realised once. Let the model hold a control, and let any updates of any
  resources follow, this control among them or not, with any randomisation. Unless one of them leaves
  no link to the control, which is then collected (and would be randomised anew if the server listed it
  again), the model still holds it, with the start and the duration it had.
\<close>

theorem interval_realised_once:
  assumes "apply_updates us m = Some (m', es)" "model_ok m"
    and "map_of (m_controls m) k = Some entry" "\<not> control_collected k us m"
  shows "\<exists>entry'. map_of (m_controls m') k = Some entry' \<and> same_interval entry entry'"
  using assms
proof (induction us arbitrary: m es entry)
  case Nil
  then show ?case by (simp add: same_interval_def)
next
  case (Cons x us)
  obtain e u where x: "x = (e, u)" by (cases x)
  from Cons.prems(1) x obtain m1 es1 m2 es2 es3 where merge: "merge_update e u m = Some (m1, es1)"
    and m2: "m2 = drop_untracked_resources (resource_links m1) m1"
    and rest: "apply_updates us m2 = Some (m', es3)"
    by (auto simp: apply_update_def Let_def split: option.splits prod.splits)
  obtain entry1 where held: "map_of (m_controls m1) k = Some entry1" and same: "same_interval entry entry1"
    using merge_update_keeps_interval [OF merge Cons.prems(3)] by blast
  have ok: "model_ok m1" using model_ok_merge_update [OF merge Cons.prems(2)] .
  have collected: "linked (resource_links m1) (dc_href (sc_der_control entry1))" "\<not> control_collected k us m2"
    using Cons.prems(4) by (simp_all add: x merge held m2)
  then have "map_of (m_controls m2) k = Some entry1"
    using ok held by (simp add: m2 drop_lists map_of_hm_retain model_ok_def)
  from Cons.IH [OF rest _ this collected(2)] ok same show ?case
    by (auto simp: m2 same_interval_def)
qed

text \<open>
  C24: after every update the model stores nothing the server no longer refers to: each stored
  list, the mirror usage point list included, is one of the links, and each stored end device,
  assignment, program, control, curve and default control has an href that is one of the links of
  the updated model. What is assumed is that the items received and held have hrefs.
\<close>

theorem nothing_unreferenced_stored:
  assumes "apply_update e u m = Some (m', es)" "update_ok False m u" "links_ok False m"
  shows "(\<forall>l. m_mup_list m' = Some l \<longrightarrow> linked (resource_links m') (mupl_href l)) \<and>
    (\<forall>h \<in> fst ` set (m_fsa_lists m') \<union> fst ` set (m_program_lists m') \<union>
        fst ` set (m_control_lists m') \<union> fst ` set (m_curve_lists m') \<union> fst ` set (m_der_lists m').
      bt_contains (resource_links m') h) \<and>
    (\<forall>h \<in> ed_href ` snd ` set (m_end_devices m') \<union> fsa_href ` snd ` set (m_fsas m') \<union>
        dp_href ` snd ` set (m_programs m') \<union> (\<lambda>c. dc_href (sc_der_control c)) ` snd ` set (m_controls m') \<union>
        cv_href ` snd ` set (m_curves m') \<union> dd_href ` snd ` set (m_default_controls m').
      linked (resource_links m') h)"
proof -
  from assms(1) obtain m1 es1 where merge: "merge_update e u m = Some (m1, es1)"
    and m': "m' = drop_untracked_resources (resource_links m1) m1"
    by (auto simp: apply_update_def Let_def split: option.splits)
  have "links_ok False m1" using links_ok_merge_update merge assms(2,3) by blast
  then have "links_agree False (map_of (resource_links m')) (map_of (resource_links m1))"
    by (simp add: m' links_ok_def resource_links_agree_drop)
  then have contains: "bt_contains (resource_links m') = bt_contains (resource_links m1)"
    using links_agree_dom by (fastforce simp: bt_contains_def)
  then have links: "linked (resource_links m') = linked (resource_links m1)"
    by (simp add: linked_def fun_eq_iff split: option.split)
  have "\<forall>l. m_mup_list m' = Some l \<longrightarrow> linked (resource_links m') (mupl_href l)"
    unfolding links by (auto simp: m' drop_untracked_resources_def split: option.splits if_splits)
  moreover have "\<forall>h \<in> fst ` set (m_fsa_lists m') \<union> fst ` set (m_program_lists m') \<union>
        fst ` set (m_control_lists m') \<union> fst ` set (m_curve_lists m') \<union> fst ` set (m_der_lists m').
      bt_contains (resource_links m') h"
    unfolding contains by (auto simp: m' drop_lists set_hm_retain)
  moreover have "\<forall>h \<in> ed_href ` snd ` set (m_end_devices m') \<union> fsa_href ` snd ` set (m_fsas m') \<union>
        dp_href ` snd ` set (m_programs m') \<union> (\<lambda>c. dc_href (sc_der_control c)) ` snd ` set (m_controls m') \<union>
        cv_href ` snd ` set (m_curves m') \<union> dd_href ` snd ` set (m_default_controls m').
      linked (resource_links m') h"
    unfolding links by (auto simp: m' drop_lists set_hm_retain)
  ultimately show ?thesis by blast
qed

section \<open>Witnesses\<close>

text \<open>A server with one end device, one program and one control.\<close>

definition example_dcap :: device_capability where
  "example_dcap = \<lparr>dcap_time_link = Some ''t'', dcap_end_device_list_link = Some ''e'',
     dcap_mup_list_link = Some ''m''\<rparr>"

definition example_end_device :: end_device where
  "example_end_device = \<lparr>ed_href = Some ''d'', ed_lfdi = Some 1, ed_fsa_list_link = Some ''f'',
     ed_der_list_link = None, ed_registration_link = None\<rparr>"

definition example_end_device_list :: end_device_list where
  "example_end_device_list = \<lparr>edl_href = Some ''e'', edl_poll_rate = Some 300,
     edl_end_device = [example_end_device], edl_all = 1\<rparr>"

definition example_mup_list :: mup_list where
  "example_mup_list = \<lparr>mupl_href = Some ''m'', mupl_poll_rate = Some 60, mupl_items = []\<rparr>"

definition example_updates :: "(env \<times> sep2_resource_event) list" where
  "example_updates = [(example_env, EvDeviceCapability example_dcap),
     (example_env, EvEndDeviceList example_end_device_list),
     (example_env, EvMirrorUsagePointList example_mup_list)]"

definition example_polled :: sep2_model where
  "example_polled = default_sep2_model
     \<lparr> m_dcap := Some example_dcap, m_mup_list := Some example_mup_list,
       m_end_device_list := Some \<lparr>idl_href = ''e'', idl_items = [1], idl_poll_rate = Some 300\<rparr>,
       m_end_devices := [(1, example_end_device)] \<rparr>"

lemmas example_defs = example_dcap_def example_end_device_def example_end_device_list_def
  example_mup_list_def example_updates_def example_polled_def default_sep2_model_def

lemmas link_defs = resource_links_def dcap_links_def end_device_links_def end_device_item_links_def
  function_set_assignments_list_links_def list_links_def list_items_def opt_list_def

lemma example_links:
  "resource_links example_polled =
     [(''d'', \<lparr>rl_kind = EndDevice, rl_poll_rate = Some 300\<rparr>),
      (''e'', \<lparr>rl_kind = EndDeviceList, rl_poll_rate = Some 300\<rparr>),
      (''f'', \<lparr>rl_kind = FunctionSetAssignmentsList, rl_poll_rate = None\<rparr>),
      (''m'', \<lparr>rl_kind = MirrorUsagePointList, rl_poll_rate = Some 60\<rparr>),
      (''t'', \<lparr>rl_kind = Time, rl_poll_rate = None\<rparr>)]"
  by (simp add: link_defs example_defs resource_link_def map_filter_simps bt_collect_def bt_extend_def
      less_char_def)

lemma example_links_ok: "links_ok True example_polled"
  by (simp add: links_ok_def model_ok_def hrefs_ok_def mup_ok_def example_defs hm_ok_def)

lemmas update_defs = apply_update_def Let_def drop_untracked_resources_def hm_retain_def
  bt_collect_def bt_extend_def resource_link_def map_filter_simps less_char_def linked_def bt_contains_def
  set_dcap_def set_end_device_list_def set_end_device_def set_mirror_usage_point_list_def hm_insert_def

definition example_linked :: sep2_model where
  "example_linked = default_sep2_model\<lparr>m_dcap := Some example_dcap\<rparr>"

definition example_device :: sep2_model where
  "example_device = example_linked
     \<lparr> m_end_device_list := Some \<lparr>idl_href = ''e'', idl_items = [1], idl_poll_rate = Some 300\<rparr>,
       m_end_devices := [(1, example_end_device)] \<rparr>"

lemma example_step1:
  "\<exists>es. apply_update example_env (EvDeviceCapability example_dcap) default_sep2_model
     = Some (example_linked, es)"
  by (simp add: update_defs link_defs example_defs example_linked_def)

lemma example_step2:
  "\<exists>es. apply_update example_env (EvEndDeviceList example_end_device_list) example_linked
     = Some (example_device, es)"
  by (simp add: update_defs link_defs example_defs example_device_def example_linked_def)

lemma example_step3:
  "\<exists>es. apply_update example_env (EvMirrorUsagePointList example_mup_list) example_device
     = Some (example_polled, es)"
  by (simp add: update_defs link_defs example_defs example_device_def example_linked_def)

lemma example_run:
  "\<exists>es. apply_updates example_updates default_sep2_model = Some (example_polled, es)"
  using example_step1 example_step2 example_step3 by (auto simp: example_updates_def)

lemma example_updates_ok: "updates_ok strict example_updates default_sep2_model"
proof -
  have "update_ok strict default_sep2_model (EvDeviceCapability example_dcap)"
    "update_ok strict example_linked (EvEndDeviceList example_end_device_list)"
    "update_ok strict example_device (EvMirrorUsagePointList example_mup_list)"
    by (simp_all add: mup_ok_def set_dcap_def set_mirror_usage_point_list_def example_defs
        example_linked_def example_device_def)
  then show ?thesis
    using example_step1 example_step2 example_step3 by (auto simp: example_updates_def)
qed

theorem collection_keeps_links_witness:
  "resource_links (drop_untracked_resources (resource_links example_polled) example_polled) =
     resource_links example_polled \<and> length (resource_links example_polled) = 5"
  using collection_keeps_links [OF example_links_ok] by (simp add: example_links)


theorem nothing_unreferenced_stored_witness:
  "linked (resource_links example_polled) (mupl_href example_mup_list)"
proof -
  have ok: "links_ok False example_device" "update_ok False example_device (EvMirrorUsagePointList example_mup_list)"
    by (simp_all add: links_ok_def model_ok_def hrefs_ok_def hm_ok_def example_defs
        example_linked_def example_device_def)
  obtain es where step: "apply_update example_env (EvMirrorUsagePointList example_mup_list)
      example_device = Some (example_polled, es)"
    using example_step3 by blast
  show ?thesis
    by (rule nothing_unreferenced_stored [OF step ok(2,1), THEN conjunct1, rule_format])
      (simp add: example_polled_def)
qed

text \<open>
  A site whose control is delivered again with another randomisation asked for: it keeps the
  start it was given first.
\<close>

definition listed_site :: sep2_model where
  "listed_site = example_site\<lparr>m_end_device_list := Some \<lparr>idl_href = ''e'', idl_items = [1], idl_poll_rate = None\<rparr>\<rparr>"

definition relisted_controls :: der_control_list where
  "relisted_controls = \<lparr>dcl_href = Some ''c'',
     dcl_items = [example_control\<lparr>dc_randomize_start := Some 600\<rparr>]\<rparr>"

theorem interval_realised_once_witness:
  "\<exists>m' es entry'. apply_updates [(example_env, EvDERControlList relisted_controls)] listed_site = Some (m', es) \<and>
     map_of (m_controls m') 42 = Some entry' \<and> sc_start_time entry' = 3540"
proof -
  let ?us = "[(example_env, EvDERControlList relisted_controls)]"
  have merge: "\<exists>m1 es. merge_update example_env (EvDERControlList relisted_controls) listed_site = Some (m1, es) \<and>
      (\<exists>c. map_of (m_controls m1) 42 = Some c \<and> linked (resource_links m1) (dc_href (sc_der_control c)))"
    by (simp add: set_der_control_list_def set_der_control_def relisted_controls_def link_defs hm_insert_def
        listed_site_def example_site_def default_sep2_model_def linked_def bt_contains_def resource_link_def
        end_device_item_links_def der_program_list_links_def program_item_links_def map_filter_simps Let_def
        example_control_def example_scheduled_def bt_collect_def bt_extend_def less_char_def)
  then obtain m' es where run: "apply_updates ?us listed_site = Some (m', es)"
    by (auto simp: apply_update_def Let_def)
  have "\<not> control_collected 42 ?us listed_site" using merge by auto
  moreover have "model_ok listed_site"
    by (simp add: model_ok_def listed_site_def example_site_def default_sep2_model_def hm_ok_def)
  moreover have "map_of (m_controls listed_site) 42 = Some example_scheduled"
    by (simp add: listed_site_def example_site_def)
  ultimately show ?thesis
    using interval_realised_once [OF run] run by (fastforce simp: same_interval_def example_scheduled_def)
qed

text \<open>
  A device capability that moves the mirror usage point list: the new href is announced at the rate of the
  list held so far, 60 seconds, while the model that results knows no rate for it.
\<close>

definition moved_dcap :: device_capability where
  "moved_dcap = example_dcap\<lparr>dcap_mup_list_link := Some ''n''\<rparr>"

theorem moved_mup_list_keeps_rate:
  "\<exists>m es. apply_update example_env (EvDeviceCapability moved_dcap) example_polled = Some (m, es) \<and>
     LinkAddedOrUpdated ''n'' MirrorUsagePointList (Some 60) \<in> set es \<and>
     map_of (resource_links m) ''n'' = Some \<lparr>rl_kind = MirrorUsagePointList, rl_poll_rate = None\<rparr>"
  by (simp add: update_defs link_defs example_defs moved_dcap_def resource_link_events_def bt_get_def)

end
