(* ===== verification/Scheduler.thy ===== *)
theory Scheduler
  imports Resource_Links
begin

text \<open>
  \<^verbatim>\<open>src/scheduler.rs\<close>: the parameters that apply now, the next instant at which they may
  change, and the loop of the scheduler task. A command is handled by \<open>handle_command\<close>, which
  returns the new state and what is broadcast; the task that sleeps until the predicted instant
  is part of the state, and \<open>scheduler_action\<close> is what it does when it wakes. The lemmas
  show that the prediction is safe to sleep on: no parameter changes before it.
\<close>

section \<open>The parameters that apply now\<close>

definition active_now :: "int \<Rightarrow> control_ref \<Rightarrow> bool" where
  "active_now now control =
    (case control of
       RefDefault _ \<Rightarrow> True
     | RefScheduled c \<Rightarrow> sc_start_time c \<le> now \<and> end_time c > now)"

definition control_to_attributes :: "control_ref \<Rightarrow> default_der_control" where
  "control_to_attributes control =
    (case control of
       RefDefault d \<Rightarrow> d
     | RefScheduled c \<Rightarrow> default_default_der_control\<lparr>dd_base := dc_base (sc_der_control c)\<rparr>)"

definition calc_parameters_for_controls ::
  "control_ref list \<Rightarrow> (href \<Rightarrow> der_curve option) \<Rightarrow> int \<Rightarrow> control_attributes" where
  "calc_parameters_for_controls controls curve_lookup now =
    (let parameters = foldl overlay_controls default_default_der_control
           (map control_to_attributes (filter (active_now now) controls));
         curves = bt_collect (List.map_filter
           (\<lambda>href. map_option (\<lambda>curve. (href, curve)) (curve_lookup href))
           (all_curve_hrefs (dd_base parameters)))
     in \<lparr>ca_inner = parameters, ca_curves = curves\<rparr>)"

definition calc_parameters :: "sep2_model \<Rightarrow> lfdi \<Rightarrow> int \<Rightarrow> control_attributes" where
  "calc_parameters m device_lfdi now =
    calc_parameters_for_controls (all_controls_for_device m device_lfdi now) (get_curve_by_href m) now"

section \<open>The next instant they may change\<close>

text \<open>
  An instant is its timestamp in seconds. The years \<^verbatim>\<open>chrono\<close> represents end at these two.
\<close>

definition min_utc :: int where "min_utc = - 8334601228800"
definition max_utc :: int where "max_utc = 8210266876799"

definition datetime_from_int64 :: "int \<Rightarrow> int" where
  "datetime_from_int64 time = (if min_utc \<le> time \<and> time \<le> max_utc then time else min_utc)"

definition response_event :: "der_control \<Rightarrow> response_status \<Rightarrow> event option" where
  "response_event control status =
    map_option (DERControlStatusChanged (dc_mrid control) status)
      (reply_to_if_required control SpecificResponse)"

definition future_events_of :: "control_ref \<Rightarrow> (int \<times> event option) list" where
  "future_events_of control =
    (case control of
       RefDefault _ \<Rightarrow> []
     | RefScheduled c \<Rightarrow>
         [(sc_start_time c, response_event (sc_der_control c) EventStarted),
          (end_time c, response_event (sc_der_control c) EventCompleted)])"

definition all_future_events :: "control_ref list \<Rightarrow> int \<Rightarrow> (int \<times> event option) list" where
  "all_future_events controls now =
    filter (\<lambda>(time, _). time > now) (concat (map future_events_of controls))"

definition earliest :: "int list \<Rightarrow> int option" where
  "earliest ts = (if ts = [] then None else Some (Min (set ts)))"

definition calc_next_schedule_time_for_controls ::
  "control_ref list \<Rightarrow> int \<Rightarrow> int option \<times> event list" where
  "calc_next_schedule_time_for_controls controls now =
    (let future = all_future_events controls now;
         earliest_time = earliest (map fst future);
         next_events = List.map_filter snd (filter (\<lambda>(time, _). Some time = earliest_time) future)
     in (map_option datetime_from_int64 earliest_time, next_events))"

definition calc_next_schedule_time :: "sep2_model \<Rightarrow> lfdi \<Rightarrow> int \<Rightarrow> int option \<times> event list" where
  "calc_next_schedule_time m device_lfdi now =
    calc_next_schedule_time_for_controls (all_controls_for_device m device_lfdi now) now"

section \<open>The scheduler task\<close>

datatype command =
  NextSchedule
| ResourceUpdated sep2_resource_event
| RefreshActiveResources

text \<open>
  The variables of the loop. \<open>ss_wait_task\<close> is the sleeping task, if one is alive, with the
  instant and the events it was spawned for.
\<close>

record scheduler_state =
  ss_model :: sep2_model
  ss_wait_task :: "(int option \<times> event list) option"
  ss_prior_next_events :: "event list"
  ss_prior_next_time :: "int option"
  ss_prior_parameters :: control_attributes
  ss_prior_post_rates :: post_rates

definition default_post_rates :: post_rates where
  "default_post_rates = \<lparr>pr_der = None, pr_mirror_usage_point = None\<rparr>"

definition initial_scheduler :: "sep2_model \<Rightarrow> scheduler_state" where
  "initial_scheduler m =
    \<lparr> ss_model = m, ss_wait_task = None, ss_prior_next_events = [], ss_prior_next_time = None,
      ss_prior_parameters = default_control_attributes, ss_prior_post_rates = default_post_rates \<rparr>"

definition apply_command :: "env \<Rightarrow> command \<Rightarrow> sep2_model \<Rightarrow> (sep2_model \<times> event list) option" where
  "apply_command e cmd m =
    (case cmd of
       NextSchedule \<Rightarrow> Some (m, [])
     | ResourceUpdated resource \<Rightarrow> apply_update e resource m
     | RefreshActiveResources \<Rightarrow> Some (m, refresh_known_links m))"

definition update_post_rates :: "lfdi \<Rightarrow> scheduler_state \<Rightarrow> scheduler_state \<times> event list" where
  "update_post_rates device_lfdi s =
    (let cur = \<lparr>pr_der = der_list_poll_rate (ss_model s) device_lfdi,
                pr_mirror_usage_point = mirror_usage_point_post_rate (ss_model s) device_lfdi\<rparr>
     in if cur \<noteq> ss_prior_post_rates s
        then (s\<lparr>ss_prior_post_rates := cur\<rparr>, [PostRatesChanged cur]) else (s, []))"

definition update_parameters :: "lfdi \<Rightarrow> int \<Rightarrow> scheduler_state \<Rightarrow> scheduler_state \<times> event list" where
  "update_parameters device_lfdi now s =
    (let cur = calc_parameters (ss_model s) device_lfdi now
     in if cur \<noteq> ss_prior_parameters s
        then (s\<lparr>ss_prior_parameters := cur\<rparr>, [ParametersChanged cur]) else (s, []))"

definition update_wait_task :: "lfdi \<Rightarrow> int \<Rightarrow> scheduler_state \<Rightarrow> scheduler_state" where
  "update_wait_task device_lfdi now s =
    (let (next_time, next_events) = calc_next_schedule_time (ss_model s) device_lfdi now
     in if next_time = ss_prior_next_time s \<and> next_events = ss_prior_next_events s then s
        else s\<lparr>ss_wait_task := Some (next_time, next_events),
               ss_prior_next_time := next_time, ss_prior_next_events := next_events\<rparr>)"

text \<open>
  One round of the loop. \<open>None\<close> is the panic of the random range; \<open>now\<close> is the clock read
  after the update was applied.
\<close>

definition handle_command ::
  "env \<Rightarrow> int \<Rightarrow> lfdi \<Rightarrow> command \<Rightarrow> scheduler_state \<Rightarrow> (scheduler_state \<times> event list) option" where
  "handle_command e now device_lfdi cmd s =
    (case apply_command e cmd (ss_model s) of
       None \<Rightarrow> None
     | Some (m', events) \<Rightarrow>
         (let (s1, post_rate_events) = update_post_rates device_lfdi (s\<lparr>ss_model := m'\<rparr>);
              (s2, parameter_events) = update_parameters device_lfdi now s1
          in Some (update_wait_task device_lfdi now s2,
                   events @ post_rate_events @ parameter_events)))"

text \<open>The sleeping task wakes: its events, and whether it wakes the scheduler.\<close>

definition scheduler_action_task :: "int option \<Rightarrow> event list \<Rightarrow> event list \<times> command option" where
  "scheduler_action_task next_event_time next_events =
    (case next_event_time of None \<Rightarrow> ([], None) | Some _ \<Rightarrow> (next_events, Some NextSchedule))"

definition scheduler_action :: "scheduler_state \<Rightarrow> scheduler_state \<times> event list \<times> command option" where
  "scheduler_action s =
    (case ss_wait_task s of
       None \<Rightarrow> (s, [], None)
     | Some (next_time, next_events) \<Rightarrow>
         (let (events, wake) = scheduler_action_task next_time next_events
          in (s\<lparr>ss_wait_task := None\<rparr>, events, wake)))"

section \<open>The prediction\<close>

lemma earliest_Some: "earliest ts = Some t \<longleftrightarrow> t \<in> set ts \<and> (\<forall>u \<in> set ts. t \<le> u)"
  unfolding earliest_def
  by (cases "ts = []") (auto intro!: Min_eqI)

lemma earliest_None [simp]: "earliest ts = None \<longleftrightarrow> ts = []"
  by (simp add: earliest_def)

lemma next_schedule_time_None:
  "fst (calc_next_schedule_time_for_controls cs now) = None \<longleftrightarrow> all_future_events cs now = []"
  by (simp add: calc_next_schedule_time_for_controls_def Let_def)

lemma in_all_future_events:
  "(t, a) \<in> set (all_future_events cs now) \<longleftrightarrow>
     now < t \<and> (\<exists>c. RefScheduled c \<in> set cs \<and>
       (t = sc_start_time c \<and> a = response_event (sc_der_control c) EventStarted \<or>
        t = end_time c \<and> a = response_event (sc_der_control c) EventCompleted))"
  by (force simp: all_future_events_def future_events_of_def split: control_ref.splits)

lemma start_is_future:
  "RefScheduled c \<in> set cs \<Longrightarrow> now < sc_start_time c \<Longrightarrow>
     (sc_start_time c, response_event (sc_der_control c) EventStarted) \<in> set (all_future_events cs now)"
  by (auto simp: in_all_future_events)

lemma end_is_future:
  "RefScheduled c \<in> set cs \<Longrightarrow> now < end_time c \<Longrightarrow>
     (end_time c, response_event (sc_der_control c) EventCompleted) \<in> set (all_future_events cs now)"
  by (auto simp: in_all_future_events)

lemma future_before_next:
  assumes "min_utc \<le> now" "now \<le> t" "(u, a) \<in> set (all_future_events cs now)"
    and before: "\<forall>next. fst (calc_next_schedule_time_for_controls cs now) = Some next \<longrightarrow> t < next"
  shows "t < u"
proof -
  from assms(3) have "map fst (all_future_events cs now) \<noteq> []" by auto
  then obtain v where v: "earliest (map fst (all_future_events cs now)) = Some v"
    by (cases "earliest (map fst (all_future_events cs now))") auto
  then have "v \<le> u" using assms(3) by (force simp: earliest_Some)
  moreover have "fst (calc_next_schedule_time_for_controls cs now) = Some (datetime_from_int64 v)"
    using v by (simp add: calc_next_schedule_time_for_controls_def Let_def)
  then have "t < datetime_from_int64 v" using before by simp
  then have "t < v" using assms(1,2) by (auto simp: datetime_from_int64_def split: if_splits)
  ultimately show ?thesis by simp
qed

text \<open>No start and no end of a listed control lies after now and up to \<open>t\<close>.\<close>

definition nothing_until :: "sep2_model \<Rightarrow> lfdi \<Rightarrow> int \<Rightarrow> int \<Rightarrow> bool" where
  "nothing_until m lfdi now t \<longleftrightarrow>
    now \<le> t \<and> (\<forall>(u, a) \<in> set (all_future_events (all_controls_for_device m lfdi now) now). t < u)"

lemma nothing_before_next:
  assumes "min_utc \<le> now" "now \<le> t"
    and "\<forall>next. fst (calc_next_schedule_time m lfdi now) = Some next \<longrightarrow> t < next"
  shows "nothing_until m lfdi now t"
  using future_before_next [OF assms(1,2) _ assms(3) [unfolded calc_next_schedule_time_def]] assms(2)
  by (auto simp: nothing_until_def)

lemma nothing_untilD:
  assumes "nothing_until m lfdi now t" "RefScheduled c \<in> set (all_controls_for_device m lfdi now)"
  shows "now < sc_start_time c \<longleftrightarrow> t < sc_start_time c" "now < end_time c \<longleftrightarrow> t < end_time c"
  using assms start_is_future [OF assms(2)] end_is_future [OF assms(2)]
  by (fastforce simp: nothing_until_def)+

lemma set_all_controls:
  "set (all_controls_for_device m lfdi now) = snd ` set (annotated_controls m lfdi now)"
proof -
  have "set (sort_by control_cmp (annotated_controls m lfdi now)) = set (annotated_controls m lfdi now)"
    by (metis mset_sort_by set_mset_mset)
  then show ?thesis by (simp add: all_controls_for_device_def)
qed

lemma program_controls_until:
  assumes "now \<le> t"
    and "\<And>c. (dp_primacy prog, RefScheduled c) \<in> set (program_controls m now prog) \<Longrightarrow> t < end_time c"
  shows "program_controls m t prog = program_controls m now prog"
proof -
  have "filter (control_retained t) xs = filter (control_retained now) xs"
    if "\<And>c. c \<in> set (filter (control_retained now) xs) \<Longrightarrow> t < end_time c" for xs
    using that assms(1) by (intro filter_cong) (auto simp: control_retained_def)
  note same = this
  show ?thesis
  proof (cases "dp_control_list_link prog")
    case (Some href)
    then show ?thesis
    proof (cases "map_of (m_control_lists m) href")
      case (Some l)
      let ?cs = "List.map_filter (map_of (m_controls m)) (idl_items l)"
      have "t < end_time c" if "c \<in> set (filter (control_retained now) ?cs)" for c
        using that assms(2) [of c] \<open>dp_control_list_link prog = Some href\<close> Some
        by (auto simp: program_controls_def Let_def)
      then have "filter (control_retained t) ?cs = filter (control_retained now) ?cs"
        by (rule same)
      with Some \<open>dp_control_list_link prog = Some href\<close> show ?thesis
        by (simp add: program_controls_def Let_def)
    qed (simp add: program_controls_def)
  qed (simp add: program_controls_def)
qed

lemma annotated_controls_until:
  assumes "now \<le> t" "\<And>p c. (p, RefScheduled c) \<in> set (annotated_controls m lfdi now) \<Longrightarrow> t < end_time c"
  shows "annotated_controls m lfdi t = annotated_controls m lfdi now"
proof -
  have progs: "concat (map (program_controls m t) ps) = concat (map (program_controls m now) ps)"
    if "\<And>p c. (p, RefScheduled c) \<in> set (concat (map (program_controls m now) ps)) \<Longrightarrow> t < end_time c" for ps
  proof -
    have "map (program_controls m t) ps = map (program_controls m now) ps"
      using that by (intro map_cong refl program_controls_until [OF assms(1)]) fastforce
    then show ?thesis by (simp only:)
  qed
  show ?thesis
    using assms(2) by (auto simp: annotated_controls_def split: option.splits intro!: progs)
qed

lemma controls_until:
  assumes "nothing_until m lfdi now t"
  shows "all_controls_for_device m lfdi t = all_controls_for_device m lfdi now"
    and "filter (active_now t) (all_controls_for_device m lfdi now) =
      filter (active_now now) (all_controls_for_device m lfdi now)"
proof -
  note same = nothing_untilD [OF assms]
  have "t < end_time c" if "(p, RefScheduled c) \<in> set (annotated_controls m lfdi now)" for p c
  proof -
    from that obtain prog where "(p, RefScheduled c) \<in> set (program_controls m now prog)"
      by (rule in_annotated_controls)
    then have "now < end_time c" by (simp add: in_program_controls(1) [unfolded control_retained_def])
    moreover have "RefScheduled c \<in> set (all_controls_for_device m lfdi now)"
      using that by (force simp: set_all_controls)
    ultimately show ?thesis using same(2) by blast
  qed
  moreover have "now \<le> t" using assms by (simp add: nothing_until_def)
  ultimately have "annotated_controls m lfdi t = annotated_controls m lfdi now"
    by (intro annotated_controls_until)
  then show "all_controls_for_device m lfdi t = all_controls_for_device m lfdi now"
    by (simp add: all_controls_for_device_def)
  show "filter (active_now t) (all_controls_for_device m lfdi now) =
      filter (active_now now) (all_controls_for_device m lfdi now)"
    using same by (intro filter_cong) (auto simp: active_now_def not_less [symmetric] split: control_ref.splits)
qed

lemma parameters_until:
  assumes "nothing_until m lfdi now t"
  shows "calc_parameters m lfdi t = calc_parameters m lfdi now"
  using controls_until [OF assms] by (simp add: calc_parameters_def calc_parameters_for_controls_def)

lemma next_schedule_until:
  assumes "nothing_until m lfdi now t"
  shows "calc_next_schedule_time m lfdi t = calc_next_schedule_time m lfdi now"
proof -
  let ?cs = "all_controls_for_device m lfdi now"
  have "all_future_events ?cs t = filter (\<lambda>(u, _). u > t) (all_future_events ?cs now)"
    using assms by (auto simp: all_future_events_def nothing_until_def intro!: filter_cong)
  also have "\<dots> = all_future_events ?cs now"
    using assms by (intro filter_True) (auto simp: nothing_until_def)
  finally show ?thesis
    using controls_until(1) [OF assms]
    by (simp add: calc_next_schedule_time_def calc_next_schedule_time_for_controls_def)
qed

section \<open>The loop\<close>

text \<open>What the tasks downstream keep: the last parameters and the last post rates they were sent.\<close>

fun track_parameters :: "event \<Rightarrow> control_attributes \<Rightarrow> control_attributes" where
  "track_parameters (ParametersChanged p) _ = p"
| "track_parameters _ p = p"

fun track_post_rates :: "event \<Rightarrow> post_rates \<Rightarrow> post_rates" where
  "track_post_rates (PostRatesChanged p) _ = p"
| "track_post_rates _ p = p"

text \<open>A run of the loop; the sleeping task may wake between two commands.\<close>

datatype scheduler_input =
  Handle env int command
| WakeUp

definition emit :: "event list \<Rightarrow> (scheduler_state \<times> event list) option \<Rightarrow>
    (scheduler_state \<times> event list) option" where
  "emit es r = map_option (map_prod id ((@) es)) r"

lemma emit_simps [simp]: "emit [] r = r" "emit es (emit es' r) = emit (es @ es') r"
  "emit es (Some (s, es')) = Some (s, es @ es')" "emit es None = None"
  by (cases r; auto simp: emit_def)+

lemma emit_Some: "emit es r = Some (s, es') \<longleftrightarrow> (\<exists>es''. r = Some (s, es'') \<and> es' = es @ es'')"
  by (cases r) (auto simp: emit_def)

fun run_scheduler ::
  "lfdi \<Rightarrow> scheduler_input list \<Rightarrow> scheduler_state \<Rightarrow> (scheduler_state \<times> event list) option" where
  "run_scheduler lfdi [] s = Some (s, [])"
| "run_scheduler lfdi (Handle e now cmd # inputs) s =
    (case handle_command e now lfdi cmd s of
       None \<Rightarrow> None
     | Some (s', es) \<Rightarrow> emit es (run_scheduler lfdi inputs s'))"
| "run_scheduler lfdi (WakeUp # inputs) s =
    (case scheduler_action s of (s', es, _) \<Rightarrow> emit es (run_scheduler lfdi inputs s'))"

lemma run_scheduler_append:
  "run_scheduler lfdi (xs @ ys) s =
    (case run_scheduler lfdi xs s of
       None \<Rightarrow> None
     | Some (s', es) \<Rightarrow> emit es (run_scheduler lfdi ys s'))"
proof (induction xs arbitrary: s)
  case (Cons x xs)
  have bind: "emit es (case r of None \<Rightarrow> None | Some (s', es') \<Rightarrow> emit es' (k s')) =
      (case emit es r of None \<Rightarrow> None | Some (s', es') \<Rightarrow> emit es' (k s'))" for es r k
    by (cases r) auto
  show ?case by (cases x) (simp_all add: Cons bind split: option.split prod.split)
qed simp

fun is_value_event :: "event \<Rightarrow> bool" where
  "is_value_event (ParametersChanged _) \<longleftrightarrow> True"
| "is_value_event (PostRatesChanged _) \<longleftrightarrow> True"
| "is_value_event _ \<longleftrightarrow> False"

lemma track_other:
  assumes "\<forall>x \<in> set es. \<not> is_value_event x"
  shows "fold track_parameters es p = p" "fold track_post_rates es r = r"
proof -
  have "track_parameters x p = p \<and> track_post_rates x r = r" if "\<not> is_value_event x" for x
    using that by (cases x) simp_all
  then show "fold track_parameters es p = p" "fold track_post_rates es r = r"
    using assms by (induction es) simp_all
qed

lemma link_events_other: "\<forall>x \<in> set (resource_link_events a b). \<not> is_value_event x"
  by (auto simp: resource_link_events_def Let_def)

lemma status_event_other: "is_status_event x \<Longrightarrow> \<not> is_value_event x"
  by (cases x) simp_all

lemma apply_command_other:
  assumes "apply_command e cmd m = Some (m', es)"
  shows "\<forall>x \<in> set es. \<not> is_value_event x"
proof (cases cmd)
  case (ResourceUpdated u)
  then obtain m1 es1 where "merge_update e u m = Some (m1, es1)"
    and "es = resource_link_events (resource_links m) (resource_links m1) @ es1"
    using assms by (auto simp: apply_command_def apply_update_def Let_def split: option.splits)
  then show ?thesis
    using link_events_other merge_update_events status_event_other by fastforce
next
  case RefreshActiveResources
  then have "es = resource_link_events [] (resource_links m)"
    using assms by (auto simp: apply_command_def refresh_known_links_def)
  then show ?thesis by (auto dest: link_events_other [rule_format])
qed (use assms in \<open>simp add: apply_command_def\<close>)

lemma response_event_other: "response_event c st = Some ev \<Longrightarrow> \<not> is_value_event ev"
  by (auto simp: response_event_def)

lemma next_events_other:
  "\<forall>x \<in> set (snd (calc_next_schedule_time m lfdi now)). \<not> is_value_event x"
proof -
  have "\<not> is_value_event ev" if "(t, Some ev) \<in> set (all_future_events cs now)" for t ev cs
    using that response_event_other by (auto simp: in_all_future_events)
  then show ?thesis
    by (force simp: calc_next_schedule_time_def calc_next_schedule_time_for_controls_def Let_def
        in_set_map_filter)
qed

text \<open>The invariant of the loop: what sleeps emits responses only.\<close>

definition wait_ok :: "scheduler_state \<Rightarrow> bool" where
  "wait_ok s \<longleftrightarrow> (case ss_wait_task s of None \<Rightarrow> True
     | Some (_, es) \<Rightarrow> \<forall>x \<in> set es. \<not> is_value_event x)"

lemma handle_command_Some:
  assumes "handle_command e now lfdi cmd s = Some (s', es)"
  obtains m' es1 s1 es2 s2 es3 where "apply_command e cmd (ss_model s) = Some (m', es1)"
    "update_post_rates lfdi (s\<lparr>ss_model := m'\<rparr>) = (s1, es2)"
    "update_parameters lfdi now s1 = (s2, es3)"
    "s' = update_wait_task lfdi now s2" "es = es1 @ es2 @ es3"
  using assms by (auto simp: handle_command_def Let_def split: option.splits prod.splits)

lemma update_wait_task_frame [simp]:
  "ss_model (update_wait_task lfdi now s) = ss_model s"
  "ss_prior_parameters (update_wait_task lfdi now s) = ss_prior_parameters s"
  "ss_prior_post_rates (update_wait_task lfdi now s) = ss_prior_post_rates s"
  by (simp_all add: update_wait_task_def case_prod_beta)

lemma update_wait_task_prediction:
  "(ss_prior_next_time (update_wait_task lfdi now s), ss_prior_next_events (update_wait_task lfdi now s)) =
     calc_next_schedule_time (ss_model s) lfdi now"
  "ss_wait_task (update_wait_task lfdi now s) =
     (if calc_next_schedule_time (ss_model s) lfdi now = (ss_prior_next_time s, ss_prior_next_events s)
      then ss_wait_task s else Some (calc_next_schedule_time (ss_model s) lfdi now))"
  by (cases "calc_next_schedule_time (ss_model s) lfdi now"; simp add: update_wait_task_def)+

lemma update_values:
  assumes "update_post_rates lfdi s = (s1, es1)" "update_parameters lfdi now s1 = (s2, es2)"
  shows "ss_model s2 = ss_model s" "ss_wait_task s2 = ss_wait_task s"
    "ss_prior_next_time s2 = ss_prior_next_time s" "ss_prior_next_events s2 = ss_prior_next_events s"
    "ss_prior_parameters s2 = calc_parameters (ss_model s) lfdi now"
    "ss_prior_post_rates s2 = \<lparr>pr_der = der_list_poll_rate (ss_model s) lfdi,
       pr_mirror_usage_point = mirror_usage_point_post_rate (ss_model s) lfdi\<rparr>"
    "fold track_parameters (es1 @ es2) (ss_prior_parameters s) = ss_prior_parameters s2"
    "fold track_post_rates (es1 @ es2) (ss_prior_post_rates s) = ss_prior_post_rates s2"
  using assms by (auto simp: update_post_rates_def update_parameters_def Let_def split: if_splits)

lemma handle_command_state:
  assumes "handle_command e now lfdi cmd s = Some (s', es)"
  shows "ss_prior_parameters s' = calc_parameters (ss_model s') lfdi now"
    "ss_prior_post_rates s' = \<lparr>pr_der = der_list_poll_rate (ss_model s') lfdi,
       pr_mirror_usage_point = mirror_usage_point_post_rate (ss_model s') lfdi\<rparr>"
    "(ss_prior_next_time s', ss_prior_next_events s') = calc_next_schedule_time (ss_model s') lfdi now"
    "ss_wait_task s' =
      (if calc_next_schedule_time (ss_model s') lfdi now = (ss_prior_next_time s, ss_prior_next_events s)
       then ss_wait_task s else Some (calc_next_schedule_time (ss_model s') lfdi now))"
    "fold track_parameters es (ss_prior_parameters s) = ss_prior_parameters s'"
    "fold track_post_rates es (ss_prior_post_rates s) = ss_prior_post_rates s'"
proof -
  from assms obtain m' es1 s1 es2 s2 es3 where cmd: "apply_command e cmd (ss_model s) = Some (m', es1)"
    and u1: "update_post_rates lfdi (s\<lparr>ss_model := m'\<rparr>) = (s1, es2)"
    and u2: "update_parameters lfdi now s1 = (s2, es3)"
    and s': "s' = update_wait_task lfdi now s2" and es: "es = es1 @ es2 @ es3"
    by (rule handle_command_Some)
  note vals = update_values [OF u1 u2]
  show "ss_prior_parameters s' = calc_parameters (ss_model s') lfdi now"
    "ss_prior_post_rates s' = \<lparr>pr_der = der_list_poll_rate (ss_model s') lfdi,
       pr_mirror_usage_point = mirror_usage_point_post_rate (ss_model s') lfdi\<rparr>"
    by (simp_all add: s' vals(1,5,6))
  show "(ss_prior_next_time s', ss_prior_next_events s') = calc_next_schedule_time (ss_model s') lfdi now"
    "ss_wait_task s' =
      (if calc_next_schedule_time (ss_model s') lfdi now = (ss_prior_next_time s, ss_prior_next_events s)
       then ss_wait_task s else Some (calc_next_schedule_time (ss_model s') lfdi now))"
    using update_wait_task_prediction [of lfdi now s2] by (simp_all add: s' vals(1-4))
  show "fold track_parameters es (ss_prior_parameters s) = ss_prior_parameters s'"
    "fold track_post_rates es (ss_prior_post_rates s) = ss_prior_post_rates s'"
    using vals(7,8) track_other [OF apply_command_other [OF cmd]] by (simp_all add: s' es)
qed

lemma handle_command_wait_ok:
  assumes "handle_command e now lfdi cmd s = Some (s', es)" "wait_ok s"
  shows "wait_ok s'"
  using assms(2) handle_command_state(4) [OF assms(1)] next_events_other [of "ss_model s'" lfdi now]
  by (cases "calc_next_schedule_time (ss_model s') lfdi now") (auto simp: wait_ok_def split: if_splits)

lemma scheduler_action_effect:
  assumes "scheduler_action s = (s', es, w)" "wait_ok s"
  shows "fold track_parameters es p = p" "fold track_post_rates es r = r"
    "ss_prior_parameters s' = ss_prior_parameters s" "ss_prior_post_rates s' = ss_prior_post_rates s"
    "ss_model s' = ss_model s" "wait_ok s'"
  using assms
  by (auto simp: scheduler_action_def scheduler_action_task_def wait_ok_def track_other
      split: option.splits prod.splits)

text \<open>
  What every consumer of the scheduler relies on: a relation between the state before, the inputs, the
  events and the state after that each command and each wake-up keeps is kept by every run, for
  inputs that are acceptable where they arrive.
\<close>

fun inputs_ok ::
  "(scheduler_state \<Rightarrow> scheduler_input \<Rightarrow> bool) \<Rightarrow> lfdi \<Rightarrow> scheduler_input list \<Rightarrow> scheduler_state \<Rightarrow> bool" where
  "inputs_ok P lfdi [] s \<longleftrightarrow> True"
| "inputs_ok P lfdi (x # inputs) s \<longleftrightarrow> P s x \<and>
    (case run_scheduler lfdi [x] s of None \<Rightarrow> True | Some (s', _) \<Rightarrow> inputs_ok P lfdi inputs s')"

lemma inputs_ok_any: "inputs_ok (\<lambda>_ _. True) lfdi inputs s"
  by (induction inputs arbitrary: s) (auto split: option.split)

locale scheduler_consumer =
  fixes lfdi :: lfdi
    and P :: "scheduler_state \<Rightarrow> scheduler_input \<Rightarrow> bool"
    and R :: "scheduler_state \<Rightarrow> scheduler_input list \<Rightarrow> event list \<Rightarrow> scheduler_state \<Rightarrow> bool"
  assumes R_nothing: "R s [] [] s"
    and R_append: "R s xs es s' \<Longrightarrow> R s' ys es' s'' \<Longrightarrow> R s (xs @ ys) (es @ es') s''"
    and R_handle: "handle_command e now lfdi cmd s = Some (s', es) \<Longrightarrow> P s (Handle e now cmd) \<Longrightarrow>
      R s [Handle e now cmd] es s'"
    and R_wake: "scheduler_action s = (s', es, w) \<Longrightarrow> R s [WakeUp] es s'"
begin

lemma step:
  assumes "run_scheduler lfdi [x] s = Some (s', es)" "P s x"
  shows "R s [x] es s'"
  using assms by (cases x) (auto split: option.splits prod.splits intro: R_handle R_wake)

lemma run:
  assumes "run_scheduler lfdi inputs s = Some (s', es)" "inputs_ok P lfdi inputs s"
  shows "R s inputs es s'"
  using assms
proof (induction inputs arbitrary: s es)
  case Nil
  then show ?case by (simp add: R_nothing)
next
  case (Cons x inputs)
  obtain s1 es1 es2 where first: "run_scheduler lfdi [x] s = Some (s1, es1)"
    and rest: "run_scheduler lfdi inputs s1 = Some (s', es2)" and es: "es = es1 @ es2"
    using Cons.prems(1) run_scheduler_append [of lfdi "[x]" inputs s]
    by (auto simp: eq_commute [of "Some _" "emit _ _"] emit_Some split: option.splits)
  with Cons.prems(2) have "R s [x] es1 s1" "R s1 inputs es2 s'"
    by (auto intro: step Cons.IH)
  from R_append [OF this] show ?case by (simp add: es)
qed

end

definition values_kept ::
  "scheduler_state \<Rightarrow> scheduler_input list \<Rightarrow> event list \<Rightarrow> scheduler_state \<Rightarrow> bool" where
  "values_kept s xs es s' \<longleftrightarrow> (wait_ok s \<longrightarrow>
    fold track_parameters es (ss_prior_parameters s) = ss_prior_parameters s' \<and>
    fold track_post_rates es (ss_prior_post_rates s) = ss_prior_post_rates s' \<and> wait_ok s')"

interpretation kept: scheduler_consumer lfdi "\<lambda>_ _. True" values_kept for lfdi
  by unfold_locales
    (auto simp: values_kept_def handle_command_state(5,6) scheduler_action_effect intro: handle_command_wait_ok)

lemma handled_values:
  assumes "run_scheduler lfdi inputs (initial_scheduler m) = Some (s1, es1)"
    and "handle_command e now lfdi cmd s1 = Some (s, es2)"
  shows "fold track_parameters (es1 @ es2) default_control_attributes = calc_parameters (ss_model s) lfdi now"
    "fold track_post_rates (es1 @ es2) default_post_rates =
      \<lparr>pr_der = der_list_poll_rate (ss_model s) lfdi,
       pr_mirror_usage_point = mirror_usage_point_post_rate (ss_model s) lfdi\<rparr>"
  using kept.run [OF assms(1) inputs_ok_any] handle_command_state [OF assms(2)]
  by (simp_all add: values_kept_def wait_ok_def initial_scheduler_def)

section \<open>Properties\<close>

text \<open>
  C4: every one of the thirty-nine attributes the bridge acts on is taken from the first control,
  in order of priority, that is active now and sets it; an attribute no active control sets is
  unset. The curves sent along are those the chosen attributes link to, as the model holds them.
\<close>

theorem parameters_by_priority:
  "let stack = map control_to_attributes
         (filter (active_now now) (all_controls_for_device m lfdi now));
       parameters = ca_inner (calc_parameters m lfdi now) in
  op_mod_connect (dd_base parameters) = first_some (\<lambda>d. op_mod_connect (dd_base d)) stack \<and>
  op_mod_energize (dd_base parameters) = first_some (\<lambda>d. op_mod_energize (dd_base d)) stack \<and>
  op_mod_fixed_pf_absorb_w (dd_base parameters) = first_some (\<lambda>d. op_mod_fixed_pf_absorb_w (dd_base d)) stack \<and>
  op_mod_fixed_pf_inject_w (dd_base parameters) = first_some (\<lambda>d. op_mod_fixed_pf_inject_w (dd_base d)) stack \<and>
  op_mod_fixed_var (dd_base parameters) = first_some (\<lambda>d. op_mod_fixed_var (dd_base d)) stack \<and>
  op_mod_fixed_w (dd_base parameters) = first_some (\<lambda>d. op_mod_fixed_w (dd_base d)) stack \<and>
  op_mod_freq_droop (dd_base parameters) = first_some (\<lambda>d. op_mod_freq_droop (dd_base d)) stack \<and>
  op_mod_freq_watt (dd_base parameters) = first_some (\<lambda>d. op_mod_freq_watt (dd_base d)) stack \<and>
  op_mod_hfrt_may_trip (dd_base parameters) = first_some (\<lambda>d. op_mod_hfrt_may_trip (dd_base d)) stack \<and>
  op_mod_hfrt_must_trip (dd_base parameters) = first_some (\<lambda>d. op_mod_hfrt_must_trip (dd_base d)) stack \<and>
  op_mod_hvrt_may_trip (dd_base parameters) = first_some (\<lambda>d. op_mod_hvrt_may_trip (dd_base d)) stack \<and>
  op_mod_hvrt_momentary_cessation (dd_base parameters) = first_some (\<lambda>d. op_mod_hvrt_momentary_cessation (dd_base d)) stack \<and>
  op_mod_hvrt_must_trip (dd_base parameters) = first_some (\<lambda>d. op_mod_hvrt_must_trip (dd_base d)) stack \<and>
  op_mod_lfrt_may_trip (dd_base parameters) = first_some (\<lambda>d. op_mod_lfrt_may_trip (dd_base d)) stack \<and>
  op_mod_lfrt_must_trip (dd_base parameters) = first_some (\<lambda>d. op_mod_lfrt_must_trip (dd_base d)) stack \<and>
  op_mod_lvrt_may_trip (dd_base parameters) = first_some (\<lambda>d. op_mod_lvrt_may_trip (dd_base d)) stack \<and>
  op_mod_lvrt_momentary_cessation (dd_base parameters) = first_some (\<lambda>d. op_mod_lvrt_momentary_cessation (dd_base d)) stack \<and>
  op_mod_lvrt_must_trip (dd_base parameters) = first_some (\<lambda>d. op_mod_lvrt_must_trip (dd_base d)) stack \<and>
  op_mod_max_lim_w (dd_base parameters) = first_some (\<lambda>d. op_mod_max_lim_w (dd_base d)) stack \<and>
  op_mod_target_var (dd_base parameters) = first_some (\<lambda>d. op_mod_target_var (dd_base d)) stack \<and>
  op_mod_target_w (dd_base parameters) = first_some (\<lambda>d. op_mod_target_w (dd_base d)) stack \<and>
  op_mod_volt_var (dd_base parameters) = first_some (\<lambda>d. op_mod_volt_var (dd_base d)) stack \<and>
  op_mod_volt_watt (dd_base parameters) = first_some (\<lambda>d. op_mod_volt_watt (dd_base d)) stack \<and>
  op_mod_watt_pf (dd_base parameters) = first_some (\<lambda>d. op_mod_watt_pf (dd_base d)) stack \<and>
  op_mod_watt_var (dd_base parameters) = first_some (\<lambda>d. op_mod_watt_var (dd_base d)) stack \<and>
  ramp_tms (dd_base parameters) = first_some (\<lambda>d. ramp_tms (dd_base d)) stack \<and>
  op_mod_imp_lim_w (dd_base parameters) = first_some (\<lambda>d. op_mod_imp_lim_w (dd_base d)) stack \<and>
  op_mod_exp_lim_w (dd_base parameters) = first_some (\<lambda>d. op_mod_exp_lim_w (dd_base d)) stack \<and>
  op_mod_gen_lim_w (dd_base parameters) = first_some (\<lambda>d. op_mod_gen_lim_w (dd_base d)) stack \<and>
  op_mod_load_lim_w (dd_base parameters) = first_some (\<lambda>d. op_mod_load_lim_w (dd_base d)) stack \<and>
  set_es_delay parameters = first_some set_es_delay stack \<and>
  set_es_high_freq parameters = first_some set_es_high_freq stack \<and>
  set_es_high_volt parameters = first_some set_es_high_volt stack \<and>
  set_es_low_freq parameters = first_some set_es_low_freq stack \<and>
  set_es_low_volt parameters = first_some set_es_low_volt stack \<and>
  set_es_ramp_tms parameters = first_some set_es_ramp_tms stack \<and>
  set_es_random_delay parameters = first_some set_es_random_delay stack \<and>
  set_grad_w parameters = first_some set_grad_w stack \<and>
  set_soft_grad_w parameters = first_some set_soft_grad_w stack \<and>
  map_of (ca_curves (calc_parameters m lfdi now)) = (\<lambda>h.
    if h \<in> set (all_curve_hrefs (dd_base parameters)) then get_curve_by_href m h else None)"
proof -
  have curves: "map_of (bt_collect (List.map_filter (\<lambda>h. map_option (\<lambda>c. (h, c)) (f h)) hs)) =
      (\<lambda>h. if h \<in> set hs then f h else None)" for f :: "href \<Rightarrow> der_curve option" and hs
  proof -
    have "map_of (rev (List.map_filter (\<lambda>h. map_option (\<lambda>c. (h, c)) (f h)) hs)) =
        (\<lambda>h. if h \<in> set hs then f h else None)"
      by (induction hs) (auto simp: map_filter_simps fun_eq_iff map_add_def split: option.splits)
    then show ?thesis by simp
  qed
  show ?thesis
    unfolding Let_def calc_parameters_def calc_parameters_for_controls_def control_attributes.simps
      attribute_stack curves
    by simp
qed

text \<open>
  It is safe to sleep until the predicted instant. From now until just before it, the
  parameters computed at any other instant are those computed now; when nothing is predicted
  they never change of themselves.
\<close>

theorem parameters_constant_until_next:
  assumes "min_utc \<le> now" "now \<le> t"
    and "\<forall>next. fst (calc_next_schedule_time m lfdi now) = Some next \<longrightarrow> t < next"
  shows "calc_parameters m lfdi t = calc_parameters m lfdi now"
  by (rule parameters_until [OF nothing_before_next [OF assms]])

text \<open>
  The responses prepared for the wake-up are exactly the \<^verbatim>\<open>EventStarted\<close> of the controls
  that start at the predicted instant and the \<^verbatim>\<open>EventCompleted\<close> of those that end at it, among
  the controls that ask for a response; and no listed control starts or ends between now and then.
\<close>

theorem next_events_exact:
  assumes "calc_next_schedule_time m lfdi now = (Some next, es)" "next \<noteq> min_utc"
  shows "now < next \<and>
    (\<forall>ev. ev \<in> set es \<longleftrightarrow> (\<exists>c. RefScheduled c \<in> set (all_controls_for_device m lfdi now) \<and>
       (sc_start_time c = next \<and> response_event (sc_der_control c) EventStarted = Some ev \<or>
        end_time c = next \<and> response_event (sc_der_control c) EventCompleted = Some ev))) \<and>
    (\<forall>c. RefScheduled c \<in> set (all_controls_for_device m lfdi now) \<longrightarrow>
       \<not> (now < sc_start_time c \<and> sc_start_time c < next) \<and>
       \<not> (now < end_time c \<and> end_time c < next))"
proof -
  let ?cs = "all_controls_for_device m lfdi now"
  let ?future = "all_future_events ?cs now"
  from assms(1) obtain v where v: "earliest (map fst ?future) = Some v"
    and nv: "next = datetime_from_int64 v"
    and es: "es = List.map_filter snd (filter (\<lambda>(time, _). Some time = Some v) ?future)"
    by (auto simp: calc_next_schedule_time_def calc_next_schedule_time_for_controls_def Let_def)
  have nv: "next = v" using nv assms(2) by (auto simp: datetime_from_int64_def split: if_splits)
  have min: "v \<le> u" if "(u, a) \<in> set ?future" for u a
    using v that by (force simp: earliest_Some)
  have mem: "ev \<in> set es \<longleftrightarrow> (v, Some ev) \<in> set ?future" for ev
    by (force simp: es in_set_map_filter)
  have "v \<in> fst ` set ?future" using v by (simp add: earliest_Some)
  then have "now < v" by (auto simp: in_all_future_events)
  moreover have "ev \<in> set es \<longleftrightarrow> (\<exists>c. RefScheduled c \<in> set ?cs \<and>
       (sc_start_time c = v \<and> response_event (sc_der_control c) EventStarted = Some ev \<or>
        end_time c = v \<and> response_event (sc_der_control c) EventCompleted = Some ev))" for ev
    using \<open>now < v\<close> unfolding mem in_all_future_events by (auto dest: sym)
  moreover have "\<not> (now < sc_start_time c \<and> sc_start_time c < v)" "\<not> (now < end_time c \<and> end_time c < v)"
    if "RefScheduled c \<in> set ?cs" for c
    using min [OF start_is_future [OF that]] min [OF end_is_future [OF that]] by auto
  ultimately show ?thesis unfolding nv by blast
qed

text \<open>
  C2: whatever the scheduler processes, after each command the tasks downstream hold the current
  truth. For any sequence of commands and wake-ups, folding the broadcast events gives a consumer
  the parameters that \<^verbatim>\<open>calc_parameters\<close> yields for the model and clock of the last command,
  and the post rates of its model, although they are only sent when they change.
\<close>

theorem consumers_hold_current_parameters:
  assumes "run_scheduler lfdi (inputs @ [Handle e now cmd]) (initial_scheduler m) = Some (s, es)"
  shows "fold track_parameters es default_control_attributes = calc_parameters (ss_model s) lfdi now \<and>
    fold track_post_rates es default_post_rates =
      \<lparr>pr_der = der_list_poll_rate (ss_model s) lfdi,
       pr_mirror_usage_point = mirror_usage_point_post_rate (ss_model s) lfdi\<rparr>"
proof -
  from assms obtain s1 es1 es2
    where first: "run_scheduler lfdi inputs (initial_scheduler m) = Some (s1, es1)"
      and last: "handle_command e now lfdi cmd s1 = Some (s, es2)" and es: "es = es1 @ es2"
    by (auto simp: run_scheduler_append emit_Some split: option.splits)
  from handled_values [OF first last] show ?thesis by (simp add: es)
qed

text \<open>
  The sleeping task follows the prediction. After a command the recorded prediction is the
  one for the model and the clock of that command, and a task is spawned for it, replacing any
  other, exactly when it differs from the one recorded before.
\<close>

theorem wait_task_follows_prediction:
  assumes "handle_command e now lfdi cmd s = Some (s', es)"
  shows "(ss_prior_next_time s', ss_prior_next_events s') =
      calc_next_schedule_time (ss_model s') lfdi now \<and>
    ss_wait_task s' =
      (if (ss_prior_next_time s', ss_prior_next_events s') =
          (ss_prior_next_time s, ss_prior_next_events s)
       then ss_wait_task s else Some (calc_next_schedule_time (ss_model s') lfdi now))"
  using handle_command_state(3,4) [OF assms] by simp

text \<open>
  C39: a wake-up that comes before the predicted second, because the wall clock was set back or
  lags the timer the task slept on, is not repeated. The round it causes finds the prediction
  unchanged and spawns no new task, so nothing wakes the scheduler at the predicted instant: the
  change waits for the next update from the server, while the responses have been sent early.
\<close>

theorem early_wakeup_not_rescheduled:
  assumes "handle_command e now lfdi cmd s = Some (s1, es1)"
    and "ss_wait_task s1 = Some (Some next, evs)"
    and "scheduler_action s1 = (s2, es2, wake)"
    and "calc_next_schedule_time (ss_model s1) lfdi now = (Some next, evs)"
    and "min_utc \<le> now" "now \<le> t" "t < next"
  shows "es2 = evs \<and> wake = Some NextSchedule \<and> ss_wait_task s2 = None \<and>
    handle_command e2 t lfdi NextSchedule s2 = Some (s2, [])"
proof -
  have s2: "s2 = s1\<lparr>ss_wait_task := None\<rparr>" "es2 = evs" "wake = Some NextSchedule"
    using assms(2,3) by (auto simp: scheduler_action_def scheduler_action_task_def)
  have before: "\<forall>nxt. fst (calc_next_schedule_time (ss_model s1) lfdi now) = Some nxt \<longrightarrow> t < nxt"
    using assms(4,7) by simp
  note prior = handle_command_state(1-3) [OF assms(1), unfolded assms(4)]
  note quiet = nothing_before_next [OF assms(5,6) before]
  show ?thesis
    using prior assms(4) parameters_until [OF quiet] next_schedule_until [OF quiet]
    by (simp add: s2 handle_command_def apply_command_def update_post_rates_def
        update_parameters_def update_wait_task_def)
qed

section \<open>Witnesses\<close>

lemma example_next:
  assumes "now < 3540"
  shows "calc_next_schedule_time example_site 1 now =
    (Some 3540, [DERControlStatusChanged 42 EventStarted ''/rsp''])"
  using assms
  by (simp add: calc_next_schedule_time_def example_controls calc_next_schedule_time_for_controls_def
      all_future_events_def future_events_of_def response_event_def reply_to_if_required_def earliest_def
      example_scheduled_def example_control_def end_time_def datetime_from_int64_def min_utc_def max_utc_def
      map_filter_simps arith_defs)

theorem parameters_constant_until_next_witness:
  "calc_parameters example_site 1 3539 = calc_parameters example_site 1 1000"
  by (rule parameters_constant_until_next) (simp_all add: example_next min_utc_def)

theorem next_events_exact_witness:
  "DERControlStatusChanged 42 EventStarted ''/rsp'' \<in> set [DERControlStatusChanged 42 EventStarted ''/rsp'']
   \<and> (\<exists>c. RefScheduled c \<in> set (all_controls_for_device example_site 1 1000) \<and>
       (sc_start_time c = 3540 \<or> end_time c = 3540))"
proof -
  have "calc_next_schedule_time example_site 1 1000 =
      (Some 3540, [DERControlStatusChanged 42 EventStarted ''/rsp''])"
    by (simp add: example_next)
  from next_events_exact [OF this] show ?thesis by (auto simp: min_utc_def)
qed

lemma next_schedule_Some:
  "\<exists>s' es. handle_command e now lfdi NextSchedule s = Some (s', es) \<and> ss_model s' = ss_model s"
  by (auto simp: handle_command_def apply_command_def update_post_rates_def update_parameters_def Let_def
      split: prod.split)

theorem consumers_hold_current_parameters_witness:
  "\<exists>s es. run_scheduler 1 ([] @ [Handle example_env 1000 NextSchedule]) (initial_scheduler example_site)
      = Some (s, es) \<and>
     fold track_parameters es default_control_attributes = calc_parameters example_site 1 1000"
proof -
  obtain s es where step: "handle_command example_env 1000 1 NextSchedule (initial_scheduler example_site)
      = Some (s, es)" and m: "ss_model s = example_site"
    using next_schedule_Some [of example_env 1000 1 "initial_scheduler example_site"]
    by (auto simp: initial_scheduler_def)
  have run: "run_scheduler 1 ([] @ [Handle example_env 1000 NextSchedule])
      (initial_scheduler example_site) = Some (s, es)"
    by (simp add: step)
  show ?thesis using run consumers_hold_current_parameters [OF run] m by auto
qed

theorem wait_task_follows_prediction_witness:
  "\<exists>s es. handle_command example_env 1000 1 NextSchedule (initial_scheduler example_site) = Some (s, es) \<and>
     ss_wait_task s = Some (Some 3540, [DERControlStatusChanged 42 EventStarted ''/rsp''])"
proof -
  obtain s es where step: "handle_command example_env 1000 1 NextSchedule (initial_scheduler example_site)
      = Some (s, es)" and m: "ss_model s = example_site"
    using next_schedule_Some [of example_env 1000 1 "initial_scheduler example_site"]
    by (auto simp: initial_scheduler_def)
  then show ?thesis
    using wait_task_follows_prediction [OF step] by (simp add: example_next initial_scheduler_def)
qed

theorem early_wakeup_not_rescheduled_witness:
  "\<exists>s. calc_next_schedule_time (ss_model s) 1 3539 =
       (Some 3540, [DERControlStatusChanged 42 EventStarted ''/rsp'']) \<and>
     handle_command example_env 3539 1 NextSchedule s = Some (s, []) \<and> ss_wait_task s = None"
proof -
  let ?evs = "[DERControlStatusChanged 42 EventStarted ''/rsp'']"
  obtain s es where step: "handle_command example_env 1000 1 NextSchedule (initial_scheduler example_site)
      = Some (s, es)" and m: "ss_model s = example_site"
    using next_schedule_Some [of example_env 1000 1 "initial_scheduler example_site"]
    by (auto simp: initial_scheduler_def)
  have wait: "ss_wait_task s = Some (Some 3540, ?evs)"
    using handle_command_state(4) [OF step] m by (simp add: example_next initial_scheduler_def)
  have fire: "scheduler_action s = (s\<lparr>ss_wait_task := None\<rparr>, ?evs, Some NextSchedule)"
    by (simp add: scheduler_action_def scheduler_action_task_def wait)
  have "calc_next_schedule_time (ss_model s) 1 1000 = (Some 3540, ?evs)"
    by (simp add: m example_next)
  then have "handle_command example_env 3539 1 NextSchedule (s\<lparr>ss_wait_task := None\<rparr>) =
      Some (s\<lparr>ss_wait_task := None\<rparr>, [])"
    using early_wakeup_not_rescheduled [OF step wait fire, of 3539 example_env] by (simp add: min_utc_def)
  then show ?thesis
    by (intro exI [of _ "s\<lparr>ss_wait_task := None\<rparr>"]) (simp add: m example_next)
qed

end
