(* ===== verification/Scheduler_Clock.thy ===== *)
theory Scheduler_Clock
  imports Scheduler
begin

text \<open>
  The scheduler of \<^verbatim>\<open>src/scheduler.rs\<close> in time. Its loop looks at the clock only when it handles a command,
  and between two commands relies on the task that sleeps until the predicted instant. On a clock that is
  never set back, and with a task that does not wake before its instant, this is enough: what was
  broadcast is right at every instant until the task is due, and each start and each end of a control is
  answered when the task wakes for it.
\<close>

section \<open>Runs on a steady clock\<close>

definition due :: "int \<Rightarrow> scheduler_state \<Rightarrow> bool" where
  "due t s \<longleftrightarrow> (case ss_wait_task s of Some (Some next, _) \<Rightarrow> next \<le> t | _ \<Rightarrow> True)"

inductive steady_run ::
  "lfdi \<Rightarrow> sep2_model \<Rightarrow> scheduler_input list \<Rightarrow> int \<Rightarrow> scheduler_state \<Rightarrow> event list \<Rightarrow> bool" for lfdi m where
  steady_start: "min_utc < t \<Longrightarrow> steady_run lfdi m [] t (initial_scheduler m) []"
| steady_handle: "steady_run lfdi m inputs clock s es \<Longrightarrow> clock \<le> now \<Longrightarrow>
    handle_command e now lfdi cmd s = Some (s', es') \<Longrightarrow>
    steady_run lfdi m (inputs @ [Handle e now cmd]) now s' (es @ es')"
| steady_wake: "steady_run lfdi m inputs clock s es \<Longrightarrow> clock \<le> t \<Longrightarrow> due t s \<Longrightarrow>
    scheduler_action s = (s', es', wake) \<Longrightarrow>
    steady_run lfdi m (inputs @ [WakeUp]) t s' (es @ es')"

inductive_cases steady_handleE: "steady_run lfdi m (inputs @ [Handle e now cmd]) clock s es"

lemma steady_run_scheduler:
  "steady_run lfdi m inputs clock s es \<Longrightarrow> run_scheduler lfdi inputs (initial_scheduler m) = Some (s, es)"
  by (induction rule: steady_run.induct) (simp_all add: run_scheduler_append)

text \<open>
  The invariant: the task that sleeps is the one predicted last, and when none sleeps the predicted
  instant has been reached.
\<close>

definition asleep :: "int \<Rightarrow> scheduler_state \<Rightarrow> bool" where
  "asleep t s \<longleftrightarrow> min_utc < t \<and>
    (ss_wait_task s = Some (ss_prior_next_time s, ss_prior_next_events s) \<or>
     ss_wait_task s = None \<and> (\<forall>next. ss_prior_next_time s = Some next \<longrightarrow> next \<le> t))"

lemma asleep_initial: "min_utc < t \<Longrightarrow> asleep t (initial_scheduler m)"
  by (simp add: asleep_def initial_scheduler_def)

lemma asleep_handle:
  assumes "handle_command e now lfdi cmd s = Some (s', es)" "asleep clock s" "clock \<le> now"
  shows "asleep now s'"
  using assms(2,3) handle_command_state(3,4) [OF assms(1)]
  by (cases "calc_next_schedule_time (ss_model s') lfdi now") (fastforce simp: asleep_def split: if_splits)

lemma asleep_wake:
  assumes "scheduler_action s = (s', es, wake)" "asleep clock s" "clock \<le> t" "due t s"
  shows "asleep t s'"
  using assms
  by (fastforce simp: asleep_def due_def scheduler_action_def split: option.splits prod.splits)

lemma steady_asleep: "steady_run lfdi m inputs clock s es \<Longrightarrow> asleep clock s"
  by (induction rule: steady_run.induct) (auto intro: asleep_initial asleep_handle asleep_wake)

text \<open>A predicted instant that is not in the future stands for one \<^verbatim>\<open>chrono\<close> cannot represent.\<close>

lemma nothing_until_due:
  assumes "calc_next_schedule_time m lfdi now = (nt, evs)" "min_utc \<le> now" "now \<le> t" "t \<le> max_utc"
    and "\<forall>next. nt = Some next \<longrightarrow> next \<le> now \<or> t < next"
  shows "nothing_until m lfdi now t"
proof -
  let ?future = "all_future_events (all_controls_for_device m lfdi now) now"
  have "t < u" if "(u, a) \<in> set ?future" for u a
  proof -
    from that have "map fst ?future \<noteq> []" by auto
    then obtain v where v: "earliest (map fst ?future) = Some v"
      by (cases "earliest (map fst ?future)") auto
    then have "v \<le> u" and "v \<in> fst ` set ?future" using that by (force simp: earliest_Some)+
    then have "now < v" by (auto simp: in_all_future_events)
    have "nt = Some (datetime_from_int64 v)"
      using assms(1) v by (auto simp: calc_next_schedule_time_def calc_next_schedule_time_for_controls_def Let_def)
    then have "t < v" using assms(2,4,5) \<open>now < v\<close> by (auto simp: datetime_from_int64_def split: if_splits)
    with \<open>v \<le> u\<close> show ?thesis by simp
  qed
  then show ?thesis using assms(3) by (auto simp: nothing_until_def)
qed

lemma handled_asleep:
  assumes "steady_run lfdi m (inputs @ [Handle e now cmd]) clock s es"
  shows "clock = now" "asleep now s"
    "(ss_prior_next_time s, ss_prior_next_events s) = calc_next_schedule_time (ss_model s) lfdi now"
    "fold track_parameters es default_control_attributes = calc_parameters (ss_model s) lfdi now"
proof -
  from assms obtain clock0 s0 es0 es1 where run: "steady_run lfdi m inputs clock0 s0 es0"
    and "clock0 \<le> now" and step: "handle_command e now lfdi cmd s0 = Some (s, es1)"
    and es: "es = es0 @ es1" and "clock = now"
    by (rule steady_handleE) auto
  then show "clock = now" "asleep now s"
    using asleep_handle steady_asleep by blast+
  show "(ss_prior_next_time s, ss_prior_next_events s) = calc_next_schedule_time (ss_model s) lfdi now"
    by (rule handle_command_state(3) [OF step])
  show "fold track_parameters es default_control_attributes = calc_parameters (ss_model s) lfdi now"
    using handled_values(1) [OF steady_run_scheduler [OF run] step] by (simp add: es)
qed

lemma handled_quiet:
  assumes "steady_run lfdi m (inputs @ [Handle e now cmd]) clock s es"
    and "now \<le> t" "t \<le> max_utc" "\<forall>next evs. ss_wait_task s = Some (Some next, evs) \<longrightarrow> t < next"
  shows "nothing_until (ss_model s) lfdi now t"
proof (rule nothing_until_due [OF handled_asleep(3) [OF assms(1), symmetric] _ assms(2,3)])
  show "min_utc \<le> now" "\<forall>next. ss_prior_next_time s = Some next \<longrightarrow> next \<le> now \<or> t < next"
    using handled_asleep(2) [OF assms(1)] assms(4) by (auto simp: asleep_def)
qed

section \<open>The scheduler left alone\<close>

text \<open>
  Nothing comes from the server. Each time, the task that sleeps wakes \<open>delay\<close> seconds after its instant,
  broadcasts its events and sends the scheduler a command, if any, which handles it at that
  moment. The trace has, for each wake-up, the instant waited for, the moment of the wake-up, and what
  was broadcast.
\<close>

fun wakes ::
  "lfdi \<Rightarrow> (env \<times> int) list \<Rightarrow> scheduler_state \<Rightarrow> (scheduler_state \<times> (int \<times> int \<times> event list) list) option" where
  "wakes lfdi [] s = Some (s, [])"
| "wakes lfdi ((e, delay) # envs) s =
    (case ss_wait_task s of
       Some (Some next, _) \<Rightarrow>
         (case scheduler_action s of
            (s1, evs, None) \<Rightarrow> map_option (map_prod id ((#) (next, next + delay, evs))) (wakes lfdi envs s1)
          | (s1, evs, Some command) \<Rightarrow>
              (case handle_command e (next + delay) lfdi command s1 of
                 None \<Rightarrow> None
               | Some (s2, evs') \<Rightarrow>
                   map_option (map_prod id ((#) (next, next + delay, evs @ evs'))) (wakes lfdi envs s2)))
     | _ \<Rightarrow> Some (s, []))"

text \<open>The responses sent, each with the instant it was waited for.\<close>

definition responses_in :: "(int \<times> int \<times> event list) list \<Rightarrow> (int \<times> event) set" where
  "responses_in trace = {(t, ev). \<exists>now evs. (t, now, evs) \<in> set trace \<and> ev \<in> set evs \<and> is_status_event ev}"

lemma responses_in_simps [simp]:
  "responses_in [] = {}"
  "responses_in ((t, now, evs) # trace) = Pair t ` {ev \<in> set evs. is_status_event ev} \<union> responses_in trace"
  by (auto simp: responses_in_def)

text \<open>The starts and ends to come, at a later instant.\<close>

definition to_come :: "sep2_model \<Rightarrow> lfdi \<Rightarrow> int \<Rightarrow> (int \<times> event option) set" where
  "to_come m lfdi now = set (all_future_events (all_controls_for_device m lfdi now) now)"

lemma finite_to_come [simp]: "finite (to_come m lfdi now)"
  by (simp add: to_come_def)

lemma scheduled_listed:
  assumes "now \<le> t"
  shows "RefScheduled c \<in> set (all_controls_for_device m lfdi t) \<longleftrightarrow>
    RefScheduled c \<in> set (all_controls_for_device m lfdi now) \<and> t < end_time c"
proof -
  have "(p, RefScheduled c) \<in> set (program_controls m t prog) \<longleftrightarrow>
      (p, RefScheduled c) \<in> set (program_controls m now prog) \<and> t < end_time c" for p prog
    using assms by (auto simp: program_controls_def Let_def control_retained_def image_iff split: option.split)
  then have "(p, RefScheduled c) \<in> set (annotated_controls m lfdi t) \<longleftrightarrow>
      (p, RefScheduled c) \<in> set (annotated_controls m lfdi now) \<and> t < end_time c" for p
    by (auto simp: annotated_controls_def split: option.splits)
  then show ?thesis by (force simp: set_all_controls)
qed

definition proper_controls :: "sep2_model \<Rightarrow> lfdi \<Rightarrow> int \<Rightarrow> bool" where
  "proper_controls m lfdi now \<longleftrightarrow>
    (\<forall>c. RefScheduled c \<in> set (all_controls_for_device m lfdi now) \<longrightarrow>
      sc_start_time c \<le> end_time c \<and> end_time c \<le> max_utc)"

lemma proper_later: "proper_controls m lfdi now \<Longrightarrow> now \<le> t \<Longrightarrow> proper_controls m lfdi t"
  by (simp add: proper_controls_def scheduled_listed)

lemma to_come_later:
  assumes "proper_controls m lfdi now" "now \<le> t"
  shows "to_come m lfdi t = {(u, a) \<in> to_come m lfdi now. t < u}"
proof -
  have "(u, a) \<in> to_come m lfdi t \<longleftrightarrow> (u, a) \<in> to_come m lfdi now \<and> t < u" for u a
    using assms unfolding to_come_def proper_controls_def in_all_future_events scheduled_listed [OF assms(2)]
    by (metis dual_order.strict_trans1 order.strict_trans1)
  then show ?thesis by auto
qed

lemma to_come_bounded:
  "proper_controls m lfdi now \<Longrightarrow> (u, a) \<in> to_come m lfdi now \<Longrightarrow> now < u \<and> u \<le> max_utc"
  by (fastforce simp: to_come_def proper_controls_def in_all_future_events)

lemma to_come_status: "(u, Some ev) \<in> to_come m lfdi now \<Longrightarrow> is_status_event ev"
  by (auto simp: to_come_def in_all_future_events response_event_def eq_commute [of "Some ev"])

lemma card_later:
  fixes B :: "(int \<times> event option) set"
  assumes "finite B" "v \<in> fst ` B"
  shows "card (fst ` {(u, a) \<in> B. v < u}) < card (fst ` B)"
proof -
  have "fst ` {(u, a) \<in> B. v < u} \<subseteq> fst ` B - {v}" by auto
  then show ?thesis using assms by (intro psubset_card_mono) (simp, blast)
qed

text \<open>The responses of a wake-up are those of the earliest instant.\<close>

lemma responses_of_wake:
  assumes "\<forall>(u, a) \<in> B. v \<le> u" "\<forall>ev. ev \<in> set evs \<longleftrightarrow> (v, Some ev) \<in> B"
    and "\<And>u ev. (u, Some ev) \<in> B \<Longrightarrow> is_status_event ev" "\<forall>x \<in> set es. \<not> is_status_event x"
    and "responses_in trace = {(t, ev). (t, Some ev) \<in> {(u, a) \<in> B. v < u}}"
  shows "responses_in ((v, now, evs @ es) # trace) = {(t, ev). (t, Some ev) \<in> B}"
proof -
  have "{ev \<in> set (evs @ es). is_status_event ev} = set evs" using assms(2-4) by auto
  moreover have "(t, Some ev) \<in> B \<longleftrightarrow> t = v \<and> ev \<in> set evs \<or> (t, Some ev) \<in> B \<and> v < t" for t ev
    using assms(1,2) by fastforce
  ultimately show ?thesis unfolding responses_in_simps assms(5) by auto
qed

lemma card_to_come:
  "card (fst ` to_come m lfdi now) \<le> 2 * length (all_controls_for_device m lfdi now)"
proof -
  have "length (concat (map future_events_of cs)) \<le> 2 * length cs" for cs
    by (induction cs) (auto simp: future_events_of_def split: control_ref.split)
  then have "length (all_future_events cs now) \<le> 2 * length cs" for cs
    unfolding all_future_events_def by (metis length_filter_le le_trans)
  moreover have "card (fst ` set xs) \<le> length xs" for xs :: "(int \<times> event option) list"
    by (metis card_length length_map set_map)
  ultimately show ?thesis unfolding to_come_def by (meson le_trans)
qed

lemma nothing_to_come: "to_come m lfdi now = {} \<Longrightarrow> calc_next_schedule_time m lfdi now = (None, [])"
  by (simp add: to_come_def calc_next_schedule_time_def calc_next_schedule_time_for_controls_def Let_def
      map_filter_simps)

lemma next_to_come:
  assumes "proper_controls m lfdi now" "min_utc < now" "to_come m lfdi now \<noteq> {}"
  obtains v evs where "calc_next_schedule_time m lfdi now = (Some v, evs)" "now < v" "v \<in> fst ` to_come m lfdi now"
    "\<And>u a. (u, a) \<in> to_come m lfdi now \<Longrightarrow> v \<le> u" "\<And>ev. ev \<in> set evs \<longleftrightarrow> (v, Some ev) \<in> to_come m lfdi now"
proof -
  let ?future = "all_future_events (all_controls_for_device m lfdi now) now"
  have "map fst ?future \<noteq> []" using assms(3) by (simp add: to_come_def)
  then obtain v where v: "earliest (map fst ?future) = Some v"
    by (cases "earliest (map fst ?future)") auto
  then have mem: "v \<in> fst ` to_come m lfdi now" and least: "\<And>u a. (u, a) \<in> to_come m lfdi now \<Longrightarrow> v \<le> u"
    by (force simp: earliest_Some to_come_def)+
  then have "now < v \<and> v \<le> max_utc" using to_come_bounded [OF assms(1)] by auto
  with assms(2) have "datetime_from_int64 v = v" "now < v" by (simp_all add: datetime_from_int64_def)
  moreover have "ev \<in> set (List.map_filter snd (filter (\<lambda>(time, _). Some time = Some v) ?future)) \<longleftrightarrow>
      (v, Some ev) \<in> to_come m lfdi now" for ev
    by (force simp: in_set_map_filter to_come_def)
  ultimately show thesis
    using v mem least
    by (intro that [of v "List.map_filter snd (filter (\<lambda>(time, _). Some time = Some v) ?future)"])
      (simp_all add: calc_next_schedule_time_def calc_next_schedule_time_for_controls_def Let_def)
qed

text \<open>What is known of the state after each command, on a steady clock.\<close>

definition ready :: "lfdi \<Rightarrow> int \<Rightarrow> scheduler_state \<Rightarrow> bool" where
  "ready lfdi now s \<longleftrightarrow> min_utc < now \<and>
    (ss_prior_next_time s, ss_prior_next_events s) = calc_next_schedule_time (ss_model s) lfdi now \<and>
    (ss_wait_task s = Some (ss_prior_next_time s, ss_prior_next_events s) \<or>
     ss_wait_task s = None \<and> ss_prior_next_time s = None)"

lemma next_schedule_round:
  "\<exists>s' es. handle_command e now lfdi NextSchedule s = Some (s', es) \<and> ss_model s' = ss_model s \<and>
    (\<forall>x \<in> set es. \<not> is_status_event x)"
  by (auto simp: handle_command_def apply_command_def update_post_rates_def update_parameters_def Let_def
      split: prod.split)

lemma wake_ready:
  assumes "ready lfdi now s" "proper_controls (ss_model s) lfdi now" "to_come (ss_model s) lfdi now \<noteq> {}"
    and "0 \<le> delay"
  obtains v evs s1 s2 es where "ss_wait_task s = Some (Some v, evs)"
    "scheduler_action s = (s1, evs, Some NextSchedule)"
    "handle_command e (v + delay) lfdi NextSchedule s1 = Some (s2, es)" "ss_model s2 = ss_model s"
    "ready lfdi (v + delay) s2"
    "\<forall>x \<in> set es. \<not> is_status_event x" "now < v" "v \<in> fst ` to_come (ss_model s) lfdi now"
    "\<forall>(u, a) \<in> to_come (ss_model s) lfdi now. v \<le> u"
    "\<forall>ev. ev \<in> set evs \<longleftrightarrow> (v, Some ev) \<in> to_come (ss_model s) lfdi now"
proof -
  have "min_utc < now" using assms(1) by (simp add: ready_def)
  from next_to_come [OF assms(2) this assms(3)] obtain v evs where
    calc: "calc_next_schedule_time (ss_model s) lfdi now = (Some v, evs)" and "now < v"
    and v: "v \<in> fst ` to_come (ss_model s) lfdi now" "\<And>u a. (u, a) \<in> to_come (ss_model s) lfdi now \<Longrightarrow> v \<le> u"
      "\<And>ev. ev \<in> set evs \<longleftrightarrow> (v, Some ev) \<in> to_come (ss_model s) lfdi now"
    by blast
  let ?s1 = "s\<lparr>ss_wait_task := None\<rparr>" and ?t = "v + delay"
  have "now < ?t" "v \<le> ?t" using \<open>now < v\<close> assms(4) by simp_all
  have prior: "ss_prior_next_time s = Some v" "ss_prior_next_events s = evs" "ss_wait_task s = Some (Some v, evs)"
    using assms(1) calc by (auto simp: ready_def)
  obtain s2 es where step: "handle_command e ?t lfdi NextSchedule ?s1 = Some (s2, es)"
    and model: "ss_model s2 = ss_model s" and silent: "\<forall>x \<in> set es. \<not> is_status_event x"
    using next_schedule_round [of e ?t lfdi ?s1] by auto
  have "proper_controls (ss_model s) lfdi ?t" using proper_later [OF assms(2)] \<open>now < ?t\<close> by simp
  then have "calc_next_schedule_time (ss_model s) lfdi ?t \<noteq> (Some v, evs)"
  proof (cases "to_come (ss_model s) lfdi ?t = {}")
    case True
    then show ?thesis by (simp add: nothing_to_come)
  next
    case False
    have "min_utc < ?t" using \<open>min_utc < now\<close> \<open>now < ?t\<close> by simp
    then show ?thesis
    proof (rule next_to_come [OF \<open>proper_controls (ss_model s) lfdi ?t\<close> _ False])
      fix v' evs'
      assume "calc_next_schedule_time (ss_model s) lfdi ?t = (Some v', evs')" "?t < v'"
      then show ?thesis using \<open>v \<le> ?t\<close> by auto
    qed
  qed
  then have "ready lfdi ?t s2"
    using handle_command_state(3,4) [OF step] prior model \<open>min_utc < now\<close> \<open>now < ?t\<close> by (simp add: ready_def)
  moreover have "scheduler_action s = (?s1, evs, Some NextSchedule)"
    by (simp add: scheduler_action_def scheduler_action_task_def prior)
  ultimately show thesis using that prior(3) step model silent \<open>now < v\<close> v by blast
qed

text \<open>Delays that are shorter than the time between two changes to come.\<close>

definition delays_ok :: "int set \<Rightarrow> (env \<times> int) list \<Rightarrow> bool" where
  "delays_ok T envs \<longleftrightarrow> (\<forall>(e, delay) \<in> set envs. 0 \<le> delay \<and> (\<forall>u \<in> T. \<forall>v \<in> T. u < v \<longrightarrow> u + delay < v))"

lemma delays_okI:
  "(\<And>e delay. (e, delay) \<in> set envs \<Longrightarrow> 0 \<le> delay) \<Longrightarrow>
   (\<And>e delay u v. (e, delay) \<in> set envs \<Longrightarrow> u \<in> T \<Longrightarrow> v \<in> T \<Longrightarrow> u < v \<Longrightarrow> u + delay < v) \<Longrightarrow> delays_ok T envs"
  by (auto simp: delays_ok_def)

lemma delays_okD:
  "delays_ok T envs \<Longrightarrow> (e, delay) \<in> set envs \<Longrightarrow> 0 \<le> delay \<and> (\<forall>u v. u \<in> T \<longrightarrow> v \<in> T \<longrightarrow> u < v \<longrightarrow> u + delay < v)"
  by (auto simp: delays_ok_def)

lemma delays_ok_later: "delays_ok T (x # envs) \<Longrightarrow> T' \<subseteq> T \<Longrightarrow> delays_ok T' envs"
  by (auto simp: delays_ok_def subset_iff)

lemma wakes_answer:
  assumes "ready lfdi now s" "proper_controls (ss_model s) lfdi now"
    and "card (fst ` to_come (ss_model s) lfdi now) \<le> length envs" "delays_ok (fst ` to_come (ss_model s) lfdi now) envs"
  shows "\<exists>s' trace. wakes lfdi envs s = Some (s', trace) \<and> sorted_wrt (<) (now # map fst trace) \<and>
    responses_in trace = {(t, ev). (t, Some ev) \<in> to_come (ss_model s) lfdi now} \<and>
    (\<forall>next evs. ss_wait_task s' \<noteq> Some (Some next, evs))"
  using assms
proof (induction envs arbitrary: s now)
  case Nil
  then have "fst ` to_come (ss_model s) lfdi now = {}" by (simp add: to_come_def)
  then have "to_come (ss_model s) lfdi now = {}" by simp
  with Nil.prems(1) nothing_to_come [OF this] show ?case by (auto simp: ready_def)
next
  case (Cons input envs)
  obtain e delay where input: "input = (e, delay)" by (cases input)
  let ?B = "to_come (ss_model s) lfdi now"
  show ?case
  proof (cases "?B = {}")
    case True
    with Cons.prems(1) nothing_to_come [OF True] show ?thesis by (auto simp: ready_def input split: option.split)
  next
    case False
    have "0 \<le> delay" using delays_okD [OF Cons.prems(4), of e delay] by (simp add: input)
    from wake_ready [OF Cons.prems(1,2) False this, of e]
    obtain v evs s1 s2 es where wait: "ss_wait_task s = Some (Some v, evs)"
      and wake: "scheduler_action s = (s1, evs, Some NextSchedule)"
      and step: "handle_command e (v + delay) lfdi NextSchedule s1 = Some (s2, es)" and model: "ss_model s2 = ss_model s"
      and ready: "ready lfdi (v + delay) s2" and silent: "\<forall>x \<in> set es. \<not> is_status_event x" and "now < v"
      and v: "v \<in> fst ` ?B" and least: "\<forall>(u, a) \<in> ?B. v \<le> u"
      and evs: "\<forall>ev. ev \<in> set evs \<longleftrightarrow> (v, Some ev) \<in> ?B"
      by metis
    have "now \<le> v + delay" using \<open>now < v\<close> \<open>0 \<le> delay\<close> by simp
    have spaced: "v + delay < u \<longleftrightarrow> v < u" if "(u, a) \<in> ?B" for u a
    proof -
      have "u \<in> fst ` ?B" using that by force
      then have "v < u \<longrightarrow> v + delay < u"
        using delays_okD [OF Cons.prems(4), of e delay] v by (simp add: input)
      then show ?thesis using \<open>0 \<le> delay\<close> by auto
    qed
    have later: "to_come (ss_model s2) lfdi (v + delay) = {(u, a) \<in> ?B. v < u}"
      using to_come_later [OF Cons.prems(2) \<open>now \<le> v + delay\<close>] spaced by (auto simp: model)
    then have "card (fst ` to_come (ss_model s2) lfdi (v + delay)) \<le> length envs"
      using card_later [OF finite_to_come v] Cons.prems(3) by simp
    moreover have "proper_controls (ss_model s2) lfdi (v + delay)"
      using proper_later [OF Cons.prems(2) \<open>now \<le> v + delay\<close>] by (simp add: model)
    moreover have "delays_ok (fst ` to_come (ss_model s2) lfdi (v + delay)) envs"
      by (rule delays_ok_later [OF Cons.prems(4)]) (auto simp: later)
    ultimately obtain s' trace where rest: "wakes lfdi envs s2 = Some (s', trace)"
      and sorted: "sorted_wrt (<) ((v + delay) # map fst trace)"
      and answered: "responses_in trace = {(t, ev). (t, Some ev) \<in> to_come (ss_model s2) lfdi (v + delay)}"
      and quiet: "\<forall>next evs. ss_wait_task s' \<noteq> Some (Some next, evs)"
      using Cons.IH [OF ready] by blast
    have "responses_in ((v, v + delay, evs @ es) # trace) = {(t, ev). (t, Some ev) \<in> ?B}"
      using responses_of_wake [OF least evs _ silent] to_come_status answered unfolding later by blast
    then show ?thesis
      using rest sorted quiet \<open>now < v\<close> \<open>0 \<le> delay\<close> by (fastforce simp: input wait wake step)
  qed
qed

lemma handled_ready:
  assumes "steady_run lfdi m (inputs @ [Handle e now cmd]) clock s es" "proper_controls (ss_model s) lfdi now"
  shows "ready lfdi now s"
proof -
  note asleep = handled_asleep(2,3) [OF assms(1)]
  then have "min_utc < now" by (simp add: asleep_def)
  have "now < v" if "ss_prior_next_time s = Some v" for v
  proof (cases "to_come (ss_model s) lfdi now = {}")
    case True
    with nothing_to_come [OF True] asleep(2) that show ?thesis by simp
  next
    case False
    from next_to_come [OF assms(2) \<open>min_utc < now\<close> this] asleep(2) that show ?thesis
      by (metis option.inject prod.inject)
  qed
  then show ?thesis
    using asleep by (cases "ss_prior_next_time s") (fastforce simp: ready_def asleep_def)+
qed

section \<open>Properties\<close>

text \<open>
  C5: what was broadcast is right at every instant until the sleeping task is due, not only when it was
  computed. On a clock that is never set back and with wake-ups that do not come early, a consumer of the
  events of any run holds, at each later instant \<open>t\<close> before the task wakes, the parameters
  \<^verbatim>\<open>calc_parameters\<close> would yield for the scheduler's model at \<open>t\<close>. A sleeping task that is
  missing, or one left over from an older prediction, would break this.
\<close>

theorem parameters_right_until_due:
  assumes "steady_run lfdi m (inputs @ [Handle e now cmd]) clock s es"
    and "now \<le> t" "t \<le> max_utc" "\<forall>next evs. ss_wait_task s = Some (Some next, evs) \<longrightarrow> t < next"
  shows "fold track_parameters es default_control_attributes = calc_parameters (ss_model s) lfdi t"
  using handled_asleep(4) [OF assms(1)] parameters_until [OF handled_quiet [OF assms]] by simp

text \<open>
  C25: no start and no end of a control is missed. After any run on a steady clock, let nothing more come
  from the server. The sleeping task sends its command each time it wakes, and the scheduler handles it
  and spawns the next one, until nothing is left to wait for. The responses sent on the way are exactly the
  \<^verbatim>\<open>EventStarted\<close> of each control for its start and the \<^verbatim>\<open>EventCompleted\<close> for its end, for the controls that ask
  for a response. Two wake-ups for each control are enough. A wake-up may come late, as long as no other
  start or end falls within its delay: such a one would be passed over, as the prediction looks at
  later instants only.
\<close>

theorem every_change_answered:
  assumes "steady_run lfdi m (inputs @ [Handle e now cmd]) clock s es"
    and "\<And>c. RefScheduled c \<in> set (all_controls_for_device (ss_model s) lfdi now) \<Longrightarrow>
      sc_start_time c \<le> end_time c \<and> end_time c \<le> max_utc"
    and "2 * length (all_controls_for_device (ss_model s) lfdi now) \<le> length envs"
    and "changes = {t. now < t \<and> (\<exists>c. RefScheduled c \<in> set (all_controls_for_device (ss_model s) lfdi now) \<and>
      t \<in> {sc_start_time c, end_time c})}"
    and "\<And>e delay t u. (e, delay) \<in> set envs \<Longrightarrow> t \<in> changes \<Longrightarrow> u \<in> changes \<Longrightarrow> t < u \<Longrightarrow> t + delay < u"
    and "\<And>e delay. (e, delay) \<in> set envs \<Longrightarrow> 0 \<le> delay"
  shows "\<exists>s' trace. wakes lfdi envs s = Some (s', trace) \<and> sorted_wrt (<) (now # map fst trace) \<and>
    (\<forall>t ev. (t, ev) \<in> responses_in trace \<longleftrightarrow>
      now < t \<and> (\<exists>c. RefScheduled c \<in> set (all_controls_for_device (ss_model s) lfdi now) \<and>
        (t = sc_start_time c \<and> response_event (sc_der_control c) EventStarted = Some ev \<or>
         t = end_time c \<and> response_event (sc_der_control c) EventCompleted = Some ev))) \<and>
    (\<forall>next evs. ss_wait_task s' \<noteq> Some (Some next, evs))"
proof -
  have proper: "proper_controls (ss_model s) lfdi now" using assms(2) by (simp add: proper_controls_def)
  have "card (fst ` to_come (ss_model s) lfdi now) \<le> length envs"
    using card_to_come assms(3) by (rule le_trans)
  moreover have "fst ` to_come (ss_model s) lfdi now \<subseteq> changes"
    by (auto simp: assms(4) to_come_def in_all_future_events)
  then have "delays_ok (fst ` to_come (ss_model s) lfdi now) envs"
    by (intro delays_okI assms(6) assms(5) [OF _ subsetD subsetD])
  ultimately obtain s' trace where
    "wakes lfdi envs s = Some (s', trace)" "sorted_wrt (<) (now # map fst trace)"
    "responses_in trace = {(t, ev). (t, Some ev) \<in> to_come (ss_model s) lfdi now}"
    "\<forall>next evs. ss_wait_task s' \<noteq> Some (Some next, evs)"
    using wakes_answer [OF handled_ready [OF assms(1) proper] proper] by blast
  then show ?thesis
    by (intro exI [of _ s'] exI [of _ trace])
      (auto simp: to_come_def in_all_future_events eq_commute [of "Some _" "response_event _ _"])
qed

section \<open>Witnesses\<close>

lemma example_steady:
  obtains s es where "steady_run 1 example_site ([] @ [Handle example_env 1000 NextSchedule]) 1000 s es"
    "ss_model s = example_site" "ss_wait_task s = Some (Some 3540, [DERControlStatusChanged 42 EventStarted ''/rsp''])"
proof -
  obtain s es where step: "handle_command example_env 1000 1 NextSchedule (initial_scheduler example_site)
      = Some (s, es)" and m: "ss_model s = example_site"
    using next_schedule_Some [of example_env 1000 1 "initial_scheduler example_site"]
    by (auto simp: initial_scheduler_def)
  have "steady_run 1 example_site [] 1000 (initial_scheduler example_site) []"
    by (rule steady_start) (simp add: min_utc_def)
  from steady_handle [OF this _ step] have "steady_run 1 example_site ([] @ [Handle example_env 1000 NextSchedule]) 1000 s es"
    by simp
  moreover have "ss_wait_task s = Some (Some 3540, [DERControlStatusChanged 42 EventStarted ''/rsp''])"
    using handle_command_state(4) [OF step] m by (simp add: example_next initial_scheduler_def)
  ultimately show thesis using m that by blast
qed

theorem parameters_right_until_due_witness:
  "\<exists>s es. run_scheduler 1 [Handle example_env 1000 NextSchedule] (initial_scheduler example_site) = Some (s, es) \<and>
    fold track_parameters es default_control_attributes = calc_parameters example_site 1 3539"
proof -
  obtain s es where run: "steady_run 1 example_site ([] @ [Handle example_env 1000 NextSchedule]) 1000 s es"
    and m: "ss_model s = example_site" and wait: "ss_wait_task s = Some (Some 3540, [DERControlStatusChanged 42 EventStarted ''/rsp''])"
    by (rule example_steady)
  have "fold track_parameters es default_control_attributes = calc_parameters (ss_model s) 1 3539"
    by (rule parameters_right_until_due [OF run]) (simp_all add: wait max_utc_def)
  with steady_run_scheduler [OF run] m show ?thesis by (intro exI [of _ s] exI [of _ es]) simp
qed

theorem every_change_answered_witness:
  "\<exists>s s' trace. ss_model s = example_site \<and> wakes 1 [(example_env, 0), (example_env, 20)] s = Some (s', trace) \<and>
    (3540, DERControlStatusChanged 42 EventStarted ''/rsp'') \<in> responses_in trace \<and>
    (3810, DERControlStatusChanged 42 EventCompleted ''/rsp'') \<in> responses_in trace"
proof -
  obtain s es where run: "steady_run 1 example_site ([] @ [Handle example_env 1000 NextSchedule]) 1000 s es"
    and m: "ss_model s = example_site"
    by (rule example_steady)
  have control: "sc_start_time example_scheduled = 3540" "end_time example_scheduled = 3810"
    "response_event (sc_der_control example_scheduled) st = Some (DERControlStatusChanged 42 st ''/rsp'')" for st
    by (simp_all add: example_scheduled_def example_control_def end_time_def response_event_def
        reply_to_if_required_def arith_defs)
  have "\<exists>s' trace. wakes 1 [(example_env, 0), (example_env, 20)] s = Some (s', trace) \<and> sorted_wrt (<) (1000 # map fst trace) \<and>
    (\<forall>t ev. (t, ev) \<in> responses_in trace \<longleftrightarrow>
      1000 < t \<and> (\<exists>c. RefScheduled c \<in> set (all_controls_for_device (ss_model s) 1 1000) \<and>
        (t = sc_start_time c \<and> response_event (sc_der_control c) EventStarted = Some ev \<or>
         t = end_time c \<and> response_event (sc_der_control c) EventCompleted = Some ev))) \<and>
    (\<forall>next evs. ss_wait_task s' \<noteq> Some (Some next, evs))"
    by (rule every_change_answered [OF run _ _ refl]) (auto simp: m example_controls control max_utc_def)
  with m show ?thesis by (force simp: example_controls control)
qed

end
