(* ===== verification/Scaled_Value.thy ===== *)
theory Scaled_Value
  imports Bridge_Prelude
begin

text \<open>
  \<^verbatim>\<open>src/scaled_value.rs\<close>: a value with a power-of-ten scale factor and its rescaling, the
  arithmetic under every translation between SEP2 and SunSpec. The trait
  \<^verbatim>\<open>ScaledValueInner\<close> (conversion to and from \<^verbatim>\<open>i64\<close> and the bounds of the type) is
  the pair of bounds a value's type has; \<^verbatim>\<open>u16\<close>, \<^verbatim>\<open>i16\<close>, \<^verbatim>\<open>u32\<close> and
  \<^verbatim>\<open>i32\<close> implement it. The locale \<open>scaled_inner\<close> states what the trait's implementors
  guarantee, and its lemmas say what \<^verbatim>\<open>rescale\<close> computes: exact up to saturation towards a
  finer scale, the nearest value with halves away from zero towards a coarser one.
\<close>

record scaled_value =
  sv_value :: int
  sv_sf :: int

definition new_sv :: "int \<Rightarrow> int \<Rightarrow> scaled_value" where
  "new_sv v s = \<lparr>sv_value = v, sv_sf = s\<rparr>"

lemma new_sv_simps [simp]: "sv_value (new_sv v s) = v" "sv_sf (new_sv v s) = s"
  by (simp_all add: new_sv_def)

text \<open>Narrows back to the value type, capping at its bounds rather than wrapping.\<close>

definition saturating_from_i64 :: "int \<Rightarrow> int \<Rightarrow> int \<Rightarrow> int" where
  "saturating_from_i64 lo hi v =
     (if lo \<le> v \<and> v \<le> hi then v else if v > 0 then hi else lo)"

definition rescale :: "int \<Rightarrow> int \<Rightarrow> scaled_value \<Rightarrow> int \<Rightarrow> scaled_value" where
  "rescale lo hi self target_sf =
    (let sf_difference = sv_sf self - target_sf in
     if sf_difference = 0 then self
     else
       (let value = sv_value self;
            factor = sat_pow10_i64 (nat \<bar>sf_difference\<bar>);
            scaled =
              (if sf_difference > 0 then sat_mul_i64 value factor
               else
                 (let half_step = factor sdiv 2;
                      nudge = (if value < 0 then - half_step else half_step)
                  in wrap_i64 (value + nudge) sdiv factor))
        in \<lparr>sv_value = saturating_from_i64 lo hi scaled, sv_sf = target_sf\<rparr>))"

text \<open>The four implementations of the trait, as their \<^verbatim>\<open>Bounded\<close> limits.\<close>

definition u16_max :: int where "u16_max = 65535"
definition i16_min :: int where "i16_min = - 32768"
definition i16_max :: int where "i16_max = 32767"
definition u32_max :: int where "u32_max = 4294967295"
definition i32_min :: int where "i32_min = - 2147483648"
definition i32_max :: int where "i32_max = 2147483647"

lemmas int_bounds = u16_max_def i16_min_def i16_max_def u32_max_def i32_min_def i32_max_def

definition rescale_u16 :: "scaled_value \<Rightarrow> int \<Rightarrow> scaled_value" where
  "rescale_u16 = rescale 0 u16_max"
definition rescale_i16 :: "scaled_value \<Rightarrow> int \<Rightarrow> scaled_value" where
  "rescale_i16 = rescale i16_min i16_max"
definition rescale_u32 :: "scaled_value \<Rightarrow> int \<Rightarrow> scaled_value" where
  "rescale_u32 = rescale 0 u32_max"
definition rescale_i32 :: "scaled_value \<Rightarrow> int \<Rightarrow> scaled_value" where
  "rescale_i32 = rescale i32_min i32_max"

lemmas rescale_defs = rescale_u16_def rescale_i16_def rescale_u32_def rescale_i32_def

section \<open>Rounding to the nearest, halves away from zero\<close>

text \<open>The reference: the mathematical rounding of \<open>v / d\<close>, with no width in sight.\<close>

definition round_half_away :: "int \<Rightarrow> int \<Rightarrow> int" where
  "round_half_away v d = sgn v * ((2 * \<bar>v\<bar> + d) div (2 * d))"

lemma round_half_away_nonneg: "0 \<le> v \<Longrightarrow> 0 < d \<Longrightarrow> round_half_away v d = (2 * v + d) div (2 * d)"
  by (cases "v = 0") (simp_all add: round_half_away_def)

lemma round_half_away_uminus: "round_half_away (- v) d = - round_half_away v d"
  by (simp add: round_half_away_def)

lemma half_step_div:
  assumes "0 < (d::int)" "0 \<le> v"
  shows "(v + d div 2) div d = (2 * v + d) div (2 * d)"
proof -
  have "(2 * v + d) div (2 * d) = ((2 * v + d) div 2) div d"
    by (rule zdiv_zmult2_eq) (use assms in simp)
  also have "(2 * v + d) div 2 = v + d div 2"
    by simp
  finally show ?thesis by simp
qed

lemma round_half_away_nearest_nonneg:
  assumes "0 < d" "0 \<le> v"
  shows "2 * \<bar>round_half_away v d * d - v\<bar> \<le> d"
proof -
  let ?q = "(2 * v + d) div (2 * d)"
  let ?r = "(2 * v + d) mod (2 * d)"
  have "2 * v + d = ?q * (2 * d) + ?r"
    by (simp only: div_mult_mod_eq)
  moreover have "0 \<le> ?r" "?r < 2 * d"
    using assms by (simp_all only: pos_mod_bound pos_mod_sign mult_pos_pos zero_less_numeral)
  ultimately have "?q * (2 * d) \<le> 2 * v + d" "2 * v + d < ?q * (2 * d) + 2 * d"
    by linarith+
  then have "- d \<le> 2 * (?q * d - v) \<and> 2 * (?q * d - v) \<le> d"
    by (simp add: algebra_simps)
  then have "2 * \<bar>?q * d - v\<bar> \<le> d" by linarith
  then show ?thesis
    using assms by (simp only: round_half_away_nonneg)
qed

lemma round_half_away_nearest:
  assumes "0 < d"
  shows "2 * \<bar>round_half_away v d * d - v\<bar> \<le> d"
proof (cases "0 \<le> v")
  case True
  then show ?thesis using assms by (rule round_half_away_nearest_nonneg [rotated])
next
  case False
  then have "2 * \<bar>round_half_away (- v) d * d - (- v)\<bar> \<le> d"
    using assms by (intro round_half_away_nearest_nonneg) simp_all
  then show ?thesis by (simp add: round_half_away_uminus abs_minus_commute)
qed

lemma round_half_away_exact: "0 < d \<Longrightarrow> round_half_away (k * d) d = k"
proof -
  assume d: "0 < d"
  have "2 * \<bar>round_half_away (k * d) d * d - k * d\<bar> \<le> d"
    using d by (rule round_half_away_nearest)
  then have "2 * (\<bar>round_half_away (k * d) d - k\<bar> * d) \<le> 1 * d"
    using d by (simp add: left_diff_distrib [symmetric] abs_mult)
  then have "2 * \<bar>round_half_away (k * d) d - k\<bar> \<le> 1"
    using d by (metis mult.assoc mult_le_cancel_right_pos)
  moreover have "x = 0" if "2 * \<bar>x\<bar> \<le> 1" for x :: int
    using that by presburger
  ultimately show ?thesis by fastforce
qed

lemma round_half_away_small: "0 < d \<Longrightarrow> 2 * \<bar>v\<bar> < d \<Longrightarrow> round_half_away v d = 0"
  by (simp add: round_half_away_def div_pos_pos_trivial)

lemma int_div_less: "0 < c \<Longrightarrow> a < i * c \<Longrightarrow> a div c < (i::int)"
proof (rule ccontr)
  assume c: "0 < c" "a < i * c" and "\<not> a div c < i"
  then have "i * c \<le> a div c * c" by (intro mult_right_mono) simp_all
  also have "\<dots> \<le> a"
    using c div_mult_mod_eq [of a c] pos_mod_sign [of c a] by linarith
  finally show False using c by simp
qed

lemma round_half_away_abs_le:
  assumes "0 < d" "\<bar>v\<bar> \<le> b"
  shows "\<bar>round_half_away v d\<bar> \<le> b"
proof -
  have "(2 * \<bar>v\<bar> + d) div (2 * d) \<le> \<bar>v\<bar>" if "v \<noteq> 0"
  proof -
    have "2 * \<bar>v\<bar> + d < (\<bar>v\<bar> + 1) * (2 * d)"
    proof -
      have "\<bar>v\<bar> \<le> \<bar>v\<bar> * d" using assms mult_left_mono [of 1 d "\<bar>v\<bar>"] by simp
      then show ?thesis using assms by (simp add: algebra_simps)
    qed
    then have "(2 * \<bar>v\<bar> + d) div (2 * d) < \<bar>v\<bar> + 1"
      using assms by (intro int_div_less) simp_all
    then show ?thesis by simp
  qed
  moreover have "0 \<le> (2 * \<bar>v\<bar> + d) div (2 * d)"
    using assms by (intro div_int_pos_iff [THEN iffD2]) auto
  ultimately show ?thesis
    using assms by (auto simp: round_half_away_def abs_mult)
qed

lemma sdiv_nudged:
  assumes "0 < f"
  shows "(v + (if v < 0 then - (f sdiv 2) else f sdiv 2)) sdiv f = round_half_away v f"
proof (cases "v < 0")
  case True
  then have "v - f div 2 < 0"
    using assms pos_imp_zdiv_nonneg_iff [of 2 f] by linarith
  then have "(v - f div 2) sdiv f = - ((- v + f div 2) div f)"
    using assms by (simp add: sdiv_neg)
  also have "\<dots> = round_half_away v f"
    using True assms half_step_div [of f "- v"]
    by (simp add: round_half_away_def)
  finally show ?thesis using True assms by (simp add: sdiv_nonneg)
next
  case False
  then show ?thesis
    using assms half_step_div [of f v] by (simp add: sdiv_nonneg round_half_away_nonneg)
qed

section \<open>What the trait's implementors guarantee\<close>

locale scaled_inner =
  fixes lo hi :: int
  assumes lo_le_0: "lo \<le> 0"
    and hi_pos: "0 < hi"
    and lo_i64: "- (2 ^ 61) < lo"
    and hi_i64: "hi < 2 ^ 61"
begin

lemma bounds_ordered: "lo \<le> hi"
  using lo_le_0 hi_pos by linarith

lemma bounds_in_i64: "i64_min \<le> lo" "hi \<le> i64_max"
  using lo_i64 hi_i64 by (simp_all add: arith_defs)

lemma from_i64_clamp: "saturating_from_i64 lo hi x = clamp lo hi x"
  using lo_le_0 hi_pos by (auto simp: saturating_from_i64_def clamp_def)

lemma in_range_i64:
  assumes "lo \<le> v" "v \<le> hi"
  shows "\<bar>v\<bar> \<le> 2 ^ 61"
  using assms lo_i64 hi_i64 by linarith

lemma clamp_0 [simp]: "clamp lo hi 0 = 0"
  using lo_le_0 hi_pos by simp

lemma clamp_product_saturated:
  assumes "lo \<le> v" "v \<le> hi"
  shows "clamp lo hi (sat_mul_i64 v (sat_pow10_i64 n)) = clamp lo hi (v * 10 ^ n)"
proof (cases "n \<le> 18")
  case True
  then show ?thesis
    using bounds_in_i64 bounds_ordered
    by (simp add: sat_pow10_i64_small sat_mul_i64_def clamp_clamp)
next
  case False
  have big: "2 ^ 61 \<le> (10::int) ^ n"
  proof -
    have "(10::int) ^ 19 \<le> 10 ^ n" using False by (intro power_increasing) simp_all
    then show ?thesis by simp
  qed
  have max: "2 ^ 61 \<le> i64_max" by (simp add: i64_max_def)
  have prod: "clamp lo hi (v * m) = (if v = 0 then 0 else if v < 0 then lo else hi)"
    if "2 ^ 61 \<le> m" for m
  proof (cases "v = 0")
    case nz: False
    have "\<bar>v\<bar> * m \<ge> 1 * 2 ^ 61" using nz that by (intro mult_mono) simp_all
    then have "2 ^ 61 \<le> \<bar>v * m\<bar>" using that by (simp add: abs_mult)
    moreover have "v * m < 0 \<longleftrightarrow> v < 0"
      using that by (auto simp: mult_less_0_iff)
    ultimately show ?thesis
      using nz lo_i64 hi_i64 lo_le_0 hi_pos by (auto simp: clamp_def abs_if split: if_splits)
  qed simp
  show ?thesis
    using False big max bounds_in_i64 bounds_ordered
    by (simp add: sat_pow10_i64_large sat_mul_i64_def clamp_clamp prod)
qed

lemma nudge_no_overflow:
  assumes "lo \<le> v" "v \<le> hi" "0 < f" "f \<le> i64_max"
  shows "wrap_i64 (v + (if v < 0 then - (f sdiv 2) else f sdiv 2)) =
    v + (if v < 0 then - (f sdiv 2) else f sdiv 2)"
proof (rule wrap_i64_id)
  have h: "f sdiv 2 = f div 2" "0 \<le> f div 2" "f div 2 \<le> 2 ^ 62"
    using assms by (simp_all add: sdiv_nonneg pos_imp_zdiv_nonneg_iff i64_max_def)
  then show "i64_min \<le> v + (if v < 0 then - (f sdiv 2) else f sdiv 2)"
    and "v + (if v < 0 then - (f sdiv 2) else f sdiv 2) \<le> i64_max"
    using in_range_i64 [OF assms(1,2)] by (auto simp: arith_defs)
qed

text \<open>To a finer scale: the exact product, capped at the bounds of the type.\<close>

lemma rescale_finer:
  assumes "lo \<le> sv_value x" "sv_value x \<le> hi" "t \<le> sv_sf x"
  shows "rescale lo hi x t =
    \<lparr>sv_value = clamp lo hi (sv_value x * 10 ^ nat (sv_sf x - t)), sv_sf = t\<rparr>"
  using assms
  by (cases x) (auto simp: rescale_def Let_def from_i64_clamp clamp_product_saturated)

text \<open>To a coarser scale: the nearest value, never out of range.\<close>

lemma rescale_coarser:
  assumes "lo \<le> sv_value x" "sv_value x \<le> hi" "sv_sf x < t"
  shows "rescale lo hi x t =
    \<lparr>sv_value = round_half_away (sv_value x) (10 ^ nat (t - sv_sf x)), sv_sf = t\<rparr>"
proof -
  let ?v = "sv_value x" and ?n = "nat (t - sv_sf x)"
  have n: "nat \<bar>sv_sf x - t\<bar> = ?n" using assms by simp
  have sat: "round_half_away ?v (sat_pow10_i64 ?n) = round_half_away ?v (10 ^ ?n)"
  proof (cases "?n \<le> 18")
    case False
    have "(10::int) ^ 19 \<le> 10 ^ ?n" using False by (intro power_increasing) simp_all
    moreover have "\<bar>?v\<bar> \<le> 2 ^ 61" using assms by (intro in_range_i64)
    ultimately show ?thesis
      using False by (simp add: sat_pow10_i64_large round_half_away_small i64_max_def)
  qed (simp add: sat_pow10_i64_small)
  have "lo \<le> round_half_away ?v (10 ^ ?n) \<and> round_half_away ?v (10 ^ ?n) \<le> hi"
  proof (cases "0 \<le> ?v")
    case True
    then have "0 \<le> round_half_away ?v (10 ^ ?n)"
      by (simp add: round_half_away_nonneg pos_imp_zdiv_nonneg_iff)
    moreover have "\<bar>round_half_away ?v (10 ^ ?n)\<bar> \<le> hi"
      using True assms by (intro round_half_away_abs_le) simp_all
    ultimately show ?thesis using lo_le_0 by simp
  next
    case False
    then have "0 \<le> (2 * (- ?v) + 10 ^ ?n) div (2 * 10 ^ ?n)"
      by (intro pos_imp_zdiv_nonneg_iff [THEN iffD2] add_nonneg_nonneg) simp_all
    then have "0 \<le> round_half_away (- ?v) (10 ^ ?n)"
      using False by (simp add: round_half_away_nonneg del: mult_minus_right)
    moreover have "\<bar>round_half_away ?v (10 ^ ?n)\<bar> \<le> - lo"
      using False assms by (intro round_half_away_abs_le) simp_all
    ultimately show ?thesis using hi_pos by (simp add: round_half_away_uminus)
  qed
  then show ?thesis
    using assms n sat
    by (simp add: rescale_def Let_def sdiv_nudged nudge_no_overflow from_i64_clamp)
qed

lemma rescale_sf [simp]: "sv_sf (rescale lo hi x t) = t"
  by (simp add: rescale_def Let_def)

lemma rescale_in_range:
  assumes "lo \<le> sv_value x" "sv_value x \<le> hi"
  shows "lo \<le> sv_value (rescale lo hi x t) \<and> sv_value (rescale lo hi x t) \<le> hi"
  using assms bounds_ordered
  by (auto simp: rescale_def Let_def from_i64_clamp)

text \<open>Scaling up and back down again is lossless when the scaled-up value fits the type.\<close>

lemma rescale_up_down:
  assumes "lo \<le> sv_value x * 10 ^ n" "sv_value x * 10 ^ n \<le> hi"
  shows "rescale lo hi (rescale lo hi x (sv_sf x - int n)) (sv_sf x) = x"
proof -
  let ?v = "sv_value x"
  have one: "1 \<le> (10::int) ^ n" by simp
  have mag: "\<bar>?v\<bar> \<le> \<bar>?v * 10 ^ n\<bar>"
    using mult_left_mono [OF one, of "\<bar>?v\<bar>"] by (simp add: abs_mult)
  have "?v * 10 ^ n < 0 \<longleftrightarrow> ?v < 0"
    by (simp add: mult_less_0_iff)
  then have v: "lo \<le> ?v" "?v \<le> hi"
    using assms mag lo_le_0 hi_pos by linarith+
  have up: "rescale lo hi x (sv_sf x - int n) = \<lparr>sv_value = ?v * 10 ^ n, sv_sf = sv_sf x - int n\<rparr>"
    using v assms by (simp add: rescale_finer)
  show ?thesis
  proof (cases "n = 0")
    case True
    then show ?thesis by (simp add: rescale_def)
  next
    case False
    then show ?thesis
      using assms by (simp add: up rescale_coarser round_half_away_exact)
  qed
qed

end

text \<open>The locale's laws hold for the four integer types the source implements the trait for.\<close>

interpretation u16: scaled_inner 0 u16_max
  by unfold_locales (simp_all add: int_bounds)
interpretation i16: scaled_inner i16_min i16_max
  by unfold_locales (simp_all add: int_bounds)
interpretation u32: scaled_inner 0 u32_max
  by unfold_locales (simp_all add: int_bounds)
interpretation i32: scaled_inner i32_min i32_max
  by unfold_locales (simp_all add: int_bounds)

definition inner_types :: "(int \<times> int) list" where
  "inner_types = [(0, u16_max), (i16_min, i16_max), (0, u32_max), (i32_min, i32_max)]"

lemma inner_types_cases:
  assumes "(lo, hi) \<in> set inner_types"
  obtains "lo = 0" "hi = u16_max" | "lo = i16_min" "hi = i16_max" | "lo = 0" "hi = u32_max"
  | "lo = i32_min" "hi = i32_max"
  using assms by (auto simp: inner_types_def)

section \<open>Properties\<close>

text \<open>
  C26: rescaling computes what its comment promises, for the four integer types and any scale
  factors. Towards a finer scale the result is the exact product, bounded by the type rather than
  wrapped; towards a coarser one it is the nearest value, with a half step rounding away from
  zero, and it is off by at most half a step. Neither saturating step nor the nudge in
  \<^verbatim>\<open>i64\<close> disturbs that.
\<close>

theorem rescale_exact_or_nearest:
  assumes "(lo, hi) \<in> set inner_types" "lo \<le> sv_value x" "sv_value x \<le> hi"
  shows "rescale lo hi x t =
      (if t \<le> sv_sf x then \<lparr>sv_value = clamp lo hi (sv_value x * 10 ^ nat (sv_sf x - t)), sv_sf = t\<rparr>
       else \<lparr>sv_value = round_half_away (sv_value x) (10 ^ nat (t - sv_sf x)), sv_sf = t\<rparr>) \<and>
    (sv_sf x < t \<longrightarrow> 2 * \<bar>sv_value (rescale lo hi x t) * 10 ^ nat (t - sv_sf x) - sv_value x\<bar>
       \<le> 10 ^ nat (t - sv_sf x)) \<and>
    lo \<le> sv_value (rescale lo hi x t) \<and> sv_value (rescale lo hi x t) \<le> hi"
  using assms(1)
proof (cases rule: inner_types_cases)
  case 1
  then show ?thesis
    using assms(2,3) u16.rescale_finer u16.rescale_coarser u16.rescale_in_range round_half_away_nearest
    by simp
next
  case 2
  then show ?thesis
    using assms(2,3) i16.rescale_finer i16.rescale_coarser i16.rescale_in_range round_half_away_nearest
    by simp
next
  case 3
  then show ?thesis
    using assms(2,3) u32.rescale_finer u32.rescale_coarser u32.rescale_in_range round_half_away_nearest
    by simp
next
  case 4
  then show ?thesis
    using assms(2,3) i32.rescale_finer i32.rescale_coarser i32.rescale_in_range round_half_away_nearest
    by simp
qed

theorem rescale_exact_or_nearest_witness:
  "rescale i16_min i16_max \<lparr>sv_value = - 15, sv_sf = 0\<rparr> 1 = \<lparr>sv_value = - 2, sv_sf = 1\<rparr> \<and>
   rescale 0 u16_max \<lparr>sv_value = 70, sv_sf = 3\<rparr> 0 = \<lparr>sv_value = 65535, sv_sf = 0\<rparr>"
  using rescale_exact_or_nearest [of i16_min i16_max "\<lparr>sv_value = - 15, sv_sf = 0\<rparr>" 1]
    rescale_exact_or_nearest [of 0 u16_max "\<lparr>sv_value = 70, sv_sf = 3\<rparr>" 0]
  by (simp add: inner_types_def int_bounds round_half_away_def clamp_def)

text \<open>
  Rescaling to a finer scale and back is lossless whenever the finer value fits the type.
\<close>

theorem rescale_roundtrip:
  assumes "(lo, hi) \<in> set inner_types"
    and "lo \<le> sv_value x * 10 ^ n" "sv_value x * 10 ^ n \<le> hi"
  shows "rescale lo hi (rescale lo hi x (sv_sf x - int n)) (sv_sf x) = x"
  using assms(1)
proof (cases rule: inner_types_cases)
  case 1
  then show ?thesis using assms(2,3) u16.rescale_up_down by simp
next
  case 2
  then show ?thesis using assms(2,3) i16.rescale_up_down by simp
next
  case 3
  then show ?thesis using assms(2,3) u32.rescale_up_down by simp
next
  case 4
  then show ?thesis using assms(2,3) i32.rescale_up_down by simp
qed

theorem rescale_roundtrip_witness:
  "rescale i16_min i16_max (rescale i16_min i16_max \<lparr>sv_value = - 327, sv_sf = 0\<rparr> (- 2)) 0 =
     \<lparr>sv_value = - 327, sv_sf = 0\<rparr>"
  using rescale_roundtrip [of i16_min i16_max "\<lparr>sv_value = - 327, sv_sf = 0\<rparr>" 2]
  by (simp add: inner_types_def int_bounds)

end
