(* ===== verification/Modbus_Types.thy ===== *)
theory Modbus_Types
  imports Scaled_Value "HOL-Library.Word"
begin

text \<open>
  The data of \<open>src/modbus_connection.rs\<close>: the parameters to be written to a SunSpec
  device, the curves, and what is polled from it. The models themselves (\<^verbatim>\<open>Model701\<close>, ...) come
  from the package \<^verbatim>\<open>sunspec\<close>, which is not part of the repository: each record holds the points
  the program reads, an enumeration the constructors it names, and a bit set is the list of the
  flags it iterates over. The enumerations of \<^verbatim>\<open>sunspec\<close> that are all \<^verbatim>\<open>Disabled\<close> or
  \<^verbatim>\<open>Enabled\<close> share one type here.
\<close>

section \<open>Enumerations\<close>

datatype enable = Disabled | Enabled

datatype excitation = OverExcited | UnderExcited

datatype var_set_mod = VS_WMaxPct | VS_VarMaxPct | VS_VarAvailPct

datatype w_set_mod = WS_WMaxPct | WS_Watts

datatype dept_ref_705 = VV_WMaxPct | VV_VarMaxPct | VV_VarAvalPct

datatype dept_ref_706 = VW_WMaxPct | VW_WAvalPct

datatype st_701 = St_Off | St_On | St_Invalid nat

datatype conn_st_701 = ConnSt_Disconnected | ConnSt_Connected | ConnSt_Invalid nat

datatype alrm_701 =
  GroundFault | DcOverVolt | AcDisconnect | DcDisconnect | GridDisconnect | CabinetOpen
| ManualShutdown | OverTemp | OverFrequency | UnderFrequency | AcOverVolt | AcUnderVolt
| BlownStringFuse | UnderTemp | MemoryLoss | HwTestFailure | ManufacturerAlrm | OtherAlrm nat

datatype ctrl_mode =
  MaxW | FixedW | FixedVar | FixedPf | VoltVar | FreqWatt | DynReactCurr | LvTrip | HvTrip
| WattVar | VoltWatt | ScheduledMode | LfTrip | HfTrip | OtherMode nat

datatype phase_reference = LLV | LNV | VL1L2 | VL1 | VL2L3 | VL2 | VL3L1 | VL3

section \<open>Curves\<close>

record curve =
  cu_points :: "(int \<times> int) list"
  cu_sf_x :: int
  cu_sf_y :: int

definition iter_scaled :: "curve \<Rightarrow> (scaled_value \<times> scaled_value) list" where
  "iter_scaled self = map (\<lambda>(x, y). (new_sv x (cu_sf_x self), new_sv y (cu_sf_y self))) (cu_points self)"

text \<open>\<^verbatim>\<open>u16::try_from(self.points.len()).unwrap_or(u16::MAX)\<close>.\<close>

definition curve_length :: "curve \<Rightarrow> 16 word" where
  "curve_length self =
    (if int (length (cu_points self)) \<le> u16_max then of_nat (length (cu_points self))
     else word_of_int u16_max)"

section \<open>Parameters\<close>

record model711_ctl =
  db_of :: scaled_value
  db_uf :: scaled_value
  k_of :: scaled_value
  k_uf :: scaled_value
  rsp_tms :: scaled_value

record parameters =
  p_pfw_inj_ena :: "enable option"
  p_pfw_inj_pf :: "scaled_value option"
  p_pfw_inj_ext :: "excitation option"
  p_pfw_abs_ena :: "enable option"
  p_pfw_abs_pf :: "scaled_value option"
  p_pfw_abs_ext :: "excitation option"
  p_vref :: "scaled_value option"
  p_vref_auto_ena :: "enable option"
  p_vref_auto_tms :: "int option"
  p_der_volt_var :: "curve option"
  p_der_volt_var_tms :: "scaled_value option"
  p_der_volt_var_dept_ref :: "dept_ref_705 option"
  p_der_volt_watt :: "curve option"
  p_der_volt_watt_tms :: "scaled_value option"
  p_der_volt_watt_dept_ref :: "dept_ref_706 option"
  p_var_set_ena :: "enable option"
  p_var_set_mod :: "var_set_mod option"
  p_var_set_pct :: "scaled_value option"
  p_der_trip_lv_must :: "curve option"
  p_der_trip_lv_may :: "curve option"
  p_der_trip_lv_mom_cess :: "curve option"
  p_der_trip_hv_must :: "curve option"
  p_der_trip_hv_may :: "curve option"
  p_der_trip_hv_mom_cess :: "curve option"
  p_der_trip_lf_must :: "curve option"
  p_der_trip_lf_may :: "curve option"
  p_der_trip_hf_must :: "curve option"
  p_der_trip_hf_may :: "curve option"
  p_droop_ctl :: "model711_ctl option"
  p_es :: "enable option"
  p_esv_hi :: "scaled_value option"
  p_esv_lo :: "scaled_value option"
  p_es_hz_hi :: "scaled_value option"
  p_es_hz_lo :: "scaled_value option"
  p_es_dly_tms :: "int option"
  p_es_rnd_tms :: "int option"
  p_es_rmp_tms :: "int option"
  p_w_max_lim_pct_ena :: "enable option"
  p_w_max_lim_pct :: "scaled_value option"
  p_w_set_pct :: "scaled_value option"
  p_w_set_ena :: "enable option"
  p_w_set_mod :: "w_set_mod option"
  p_w_set :: "scaled_value option"
  p_w_set_is_import_site_limit :: bool
  p_w_max_lim :: "scaled_value option"

definition default_parameters :: parameters where
  "default_parameters =
    \<lparr> p_pfw_inj_ena = None, p_pfw_inj_pf = None, p_pfw_inj_ext = None, p_pfw_abs_ena = None,
      p_pfw_abs_pf = None, p_pfw_abs_ext = None, p_vref = None, p_vref_auto_ena = None,
      p_vref_auto_tms = None, p_der_volt_var = None, p_der_volt_var_tms = None,
      p_der_volt_var_dept_ref = None, p_der_volt_watt = None, p_der_volt_watt_tms = None,
      p_der_volt_watt_dept_ref = None, p_var_set_ena = None, p_var_set_mod = None,
      p_var_set_pct = None, p_der_trip_lv_must = None, p_der_trip_lv_may = None,
      p_der_trip_lv_mom_cess = None, p_der_trip_hv_must = None, p_der_trip_hv_may = None,
      p_der_trip_hv_mom_cess = None, p_der_trip_lf_must = None, p_der_trip_lf_may = None,
      p_der_trip_hf_must = None, p_der_trip_hf_may = None, p_droop_ctl = None, p_es = None,
      p_esv_hi = None, p_esv_lo = None, p_es_hz_hi = None, p_es_hz_lo = None,
      p_es_dly_tms = None, p_es_rnd_tms = None, p_es_rmp_tms = None, p_w_max_lim_pct_ena = None,
      p_w_max_lim_pct = None, p_w_set_pct = None, p_w_set_ena = None, p_w_set_mod = None,
      p_w_set = None, p_w_set_is_import_site_limit = False, p_w_max_lim = None \<rparr>"

section \<open>What is polled\<close>

record model_701 =
  m701_st :: "st_701 option"
  m701_conn_st :: "conn_st_701 option"
  m701_alrm :: "alrm_701 list option"
  m701_w :: "int option"
  m701_wl1 :: "int option"
  m701_wl2 :: "int option"
  m701_wl3 :: "int option"
  m701_w_sf :: "int option"
  m701_var :: "int option"
  m701_var_sf :: "int option"
  m701_llv :: "int option"
  m701_lnv :: "int option"
  m701_vl1l2 :: "int option"
  m701_vl1 :: "int option"
  m701_vl2l3 :: "int option"
  m701_vl2 :: "int option"
  m701_vl3l1 :: "int option"
  m701_vl3 :: "int option"
  m701_v_sf :: "int option"
  m701_hz :: "int option"
  m701_hz_sf :: "int option"

record model_702 =
  m702_w_max_rtg :: "int option"
  m702_w_ovr_ext_rtg :: "int option"
  m702_w_ovr_ext_rtg_pf :: "int option"
  m702_w_und_ext_rtg :: "int option"
  m702_w_und_ext_rtg_pf :: "int option"
  m702_va_max_rtg :: "int option"
  m702_var_max_inj_rtg :: "int option"
  m702_var_max_abs_rtg :: "int option"
  m702_w_cha_rte_max_rtg :: "int option"
  m702_va_cha_rte_max_rtg :: "int option"
  m702_v_nom_rtg :: "int option"
  m702_v_max_rtg :: "int option"
  m702_v_min_rtg :: "int option"
  m702_ctrl_modes :: "ctrl_mode list option"
  m702_react_suscept_rtg :: "int option"
  m702_w_sf :: "int option"
  m702_pf_sf :: "int option"
  m702_va_sf :: "int option"
  m702_var_sf :: "int option"
  m702_v_sf :: "int option"
  m702_s_sf :: "int option"

record model_703 =
  m703_esv_hi :: "int option"
  m703_esv_lo :: "int option"
  m703_es_hz_hi :: "int option"
  m703_es_hz_lo :: "int option"
  m703_es_dly_tms :: "int option"
  m703_es_rnd_tms :: "int option"
  m703_es_rmp_tms :: "int option"
  m703_v_sf :: "int option"
  m703_hz_sf :: "int option"

record model_713 =
  m713_soc :: "int option"
  m713_pct_sf :: "int option"

record capabilities =
  c_w_max_rtg :: "scaled_value option"
  c_w_ovr_ext_rtg :: "scaled_value option"
  c_w_ovr_ext_rtg_pf :: "scaled_value option"
  c_w_und_ext_rtg :: "scaled_value option"
  c_w_und_ext_rtg_pf :: "scaled_value option"
  c_va_max_rtg :: "scaled_value option"
  c_var_max_inj_rtg :: "scaled_value option"
  c_var_max_abs_rtg :: "scaled_value option"
  c_w_cha_rte_max_rtg :: "scaled_value option"
  c_va_cha_rte_max_rtg :: "scaled_value option"
  c_v_nom_rtg :: "scaled_value option"
  c_v_max_rtg :: "scaled_value option"
  c_v_min_rtg :: "scaled_value option"
  c_ctrl_modes :: "ctrl_mode list option"
  c_react_suscept_rtg :: "scaled_value option"

record status =
  s_st :: "st_701 option"
  s_conn_st :: "conn_st_701 option"
  s_alrm :: "alrm_701 list option"
  s_soc :: "scaled_value option"

record settings =
  g_esv_hi :: "scaled_value option"
  g_esv_lo :: "scaled_value option"
  g_es_hz_hi :: "scaled_value option"
  g_es_hz_lo :: "scaled_value option"
  g_es_dly_tms :: "int option"
  g_es_rnd_tms :: "int option"
  g_es_rmp_tms :: "int option"

record metering =
  mt_w :: "int option"
  mt_wl1 :: "int option"
  mt_wl2 :: "int option"
  mt_wl3 :: "int option"
  mt_w_sf :: "int option"
  mt_var :: "int option"
  mt_var_sf :: "int option"
  mt_voltages :: "(int \<times> phase_reference) list"
  mt_v_sf :: "int option"
  mt_hz :: "int option"
  mt_hz_sf :: "int option"

text \<open>\<^verbatim>\<open>unwrap_or_default\<close> of a scale factor, and a value paired with it.\<close>

definition sf_or_default :: "int option \<Rightarrow> int" where
  "sf_or_default sf = (case sf of None \<Rightarrow> 0 | Some x \<Rightarrow> x)"

definition scaled :: "int option \<Rightarrow> int \<Rightarrow> scaled_value option" where
  "scaled x sf = map_option (\<lambda>val. new_sv val sf) x"

definition capabilities_from_702 :: "model_702 \<Rightarrow> capabilities" where
  "capabilities_from_702 m702 =
    (let w_sf = sf_or_default (m702_w_sf m702);
         pf_sf = sf_or_default (m702_pf_sf m702);
         va_sf = sf_or_default (m702_va_sf m702);
         var_sf = sf_or_default (m702_var_sf m702);
         v_sf = sf_or_default (m702_v_sf m702);
         s_sf = sf_or_default (m702_s_sf m702)
     in \<lparr> c_w_max_rtg = scaled (m702_w_max_rtg m702) w_sf,
          c_w_ovr_ext_rtg = scaled (m702_w_ovr_ext_rtg m702) w_sf,
          c_w_ovr_ext_rtg_pf = scaled (m702_w_ovr_ext_rtg_pf m702) pf_sf,
          c_w_und_ext_rtg = scaled (m702_w_und_ext_rtg m702) w_sf,
          c_w_und_ext_rtg_pf = scaled (m702_w_und_ext_rtg_pf m702) pf_sf,
          c_va_max_rtg = scaled (m702_va_max_rtg m702) va_sf,
          c_var_max_inj_rtg = scaled (m702_var_max_inj_rtg m702) var_sf,
          c_var_max_abs_rtg = scaled (m702_var_max_abs_rtg m702) var_sf,
          c_w_cha_rte_max_rtg = scaled (m702_w_cha_rte_max_rtg m702) w_sf,
          c_va_cha_rte_max_rtg = scaled (m702_va_cha_rte_max_rtg m702) va_sf,
          c_v_nom_rtg = scaled (m702_v_nom_rtg m702) v_sf,
          c_v_max_rtg = scaled (m702_v_max_rtg m702) v_sf,
          c_v_min_rtg = scaled (m702_v_min_rtg m702) v_sf,
          c_ctrl_modes = m702_ctrl_modes m702,
          c_react_suscept_rtg = scaled (m702_react_suscept_rtg m702) s_sf \<rparr>)"

definition status_from :: "model_701 option \<Rightarrow> model_713 option \<Rightarrow> status option" where
  "status_from m701 m713 =
    (if m701 = None \<and> m713 = None then None
     else Some
       \<lparr> s_st = Option.bind m701 m701_st,
         s_conn_st = Option.bind m701 m701_conn_st,
         s_alrm = Option.bind m701 m701_alrm,
         s_soc = Option.bind m713 (\<lambda>m. scaled (m713_soc m) (sf_or_default (m713_pct_sf m))) \<rparr>)"

definition settings_from :: "model_703 option \<Rightarrow> settings option" where
  "settings_from m703 =
    map_option (\<lambda>m703.
      (let v_sf = sf_or_default (m703_v_sf m703);
           hz_sf = sf_or_default (m703_hz_sf m703)
       in \<lparr> g_esv_hi = scaled (m703_esv_hi m703) v_sf,
            g_esv_lo = scaled (m703_esv_lo m703) v_sf,
            g_es_hz_hi = scaled (m703_es_hz_hi m703) hz_sf,
            g_es_hz_lo = scaled (m703_es_hz_lo m703) hz_sf,
            g_es_dly_tms = m703_es_dly_tms m703,
            g_es_rnd_tms = m703_es_rnd_tms m703,
            g_es_rmp_tms = m703_es_rmp_tms m703 \<rparr>)) m703"

definition metering_from :: "model_701 option \<Rightarrow> metering option" where
  "metering_from m701 =
    (case m701 of
       None \<Rightarrow> None
     | Some m \<Rightarrow>
         (let voltages = List.map_filter (\<lambda>(v, phase). map_option (\<lambda>x. (x, phase)) v)
                [(m701_llv m, LLV), (m701_lnv m, LNV), (m701_vl1l2 m, VL1L2), (m701_vl1 m, VL1),
                 (m701_vl2l3 m, VL2L3), (m701_vl2 m, VL2), (m701_vl3l1 m, VL3L1), (m701_vl3 m, VL3)]
          in Some
            \<lparr> mt_w = m701_w m, mt_wl1 = m701_wl1 m, mt_wl2 = m701_wl2 m, mt_wl3 = m701_wl3 m,
              mt_w_sf = m701_w_sf m, mt_var = m701_var m, mt_var_sf = m701_var_sf m,
              mt_voltages = voltages, mt_v_sf = m701_v_sf m,
              mt_hz = m701_hz m, mt_hz_sf = m701_hz_sf m \<rparr>))"

end
