(* ===== verification/Translation.thy ===== *)
theory Translation
  imports Sep2_Types Modbus_Types
begin

text \<open>
  The first half of \<^verbatim>\<open>src/translation.rs\<close>: the conversions between single values and the
  translation of what is polled from the device to SEP2 (capability, status, settings, meter
  readings). A conversion that can fail returns \<^verbatim>\<open>Error\<close> in a sum, and a translation names
  the field at which it failed; its fields are converted in the order the code writes them, so the
  first error is the one reported. The clock is the parameter \<open>clk\<close>: \<open>clk n\<close> is what
  \<^verbatim>\<open>Utc::now().timestamp()\<close> returns at the \<open>n\<close>-th place that reads it. Of the SEP2 records only the fields
  the code fills are kept, every other one being \<^verbatim>\<open>Default::default()\<close>.
\<close>

definition SEP2_HUNDREDTHS_SF :: int where "SEP2_HUNDREDTHS_SF = - 2"
definition SEP2_THOUSANDTHS_SF :: int where "SEP2_THOUSANDTHS_SF = - 3"
definition SUNSPEC_SECONDS_SF :: int where "SUNSPEC_SECONDS_SF = 0"

lemmas sf_defs = SEP2_HUNDREDTHS_SF_def SEP2_THOUSANDTHS_SF_def SUNSPEC_SECONDS_SF_def

section \<open>Errors\<close>

datatype conv_error =
  UnsignedNegative | IntegerOverflow | MandatoryNone | UnmappableInvalid | OutOfRange

record named_error =
  ne_kind :: conv_error
  ne_name :: string

definition name_error :: "string \<Rightarrow> conv_error \<Rightarrow> named_error" where
  "name_error n e = \<lparr>ne_kind = e, ne_name = n\<rparr>"

text \<open>\<^verbatim>\<open>.map_err(|err| err.name(n))?\<close> followed by the rest of the translation.\<close>

definition field :: "string \<Rightarrow> conv_error + 'a \<Rightarrow> ('a \<Rightarrow> named_error + 'b) \<Rightarrow> named_error + 'b" where
  "field n r k = rbind (map_err (name_error n) r) k"

lemma field_simps [simp]:
  "field n (Inl e) k = Inl (name_error n e)" "field n (Inr x) k = k x"
  by (simp_all add: field_def)

lemma field_eq_Inr [result_simps]: "field n r k = Inr y \<longleftrightarrow> (\<exists>x. r = Inr x \<and> k x = Inr y)"
  by (cases r) simp_all

lemma field_eq_Inl [result_simps]:
  "field n r k = Inl e \<longleftrightarrow> (\<exists>e'. r = Inl e' \<and> e = name_error n e') \<or> (\<exists>x. r = Inr x \<and> k x = Inl e)"
  by (cases r) auto

text \<open>\<^verbatim>\<open>OptionTryConvert\<close>.\<close>

definition try_option :: "('a \<Rightarrow> 'e + 'b) \<Rightarrow> 'a option \<Rightarrow> 'e + 'b option" where
  "try_option f x = transpose_opt (map_option f x)"

definition try_mandatory :: "('a \<Rightarrow> conv_error + 'b) \<Rightarrow> 'a option \<Rightarrow> conv_error + 'b" where
  "try_mandatory f x = (case x of None \<Rightarrow> Inl MandatoryNone | Some val \<Rightarrow> f val)"

lemma try_option_simps [simp]:
  "try_option f None = Inr None"
  "try_option f (Some x) = rbind (f x) (\<lambda>y. Inr (Some y))"
  by (simp_all add: try_option_def) (cases "f x"; simp)

lemma try_option_eq_Inr [result_simps]:
  "try_option f x = Inr y \<longleftrightarrow> (x = None \<and> y = None) \<or> (\<exists>a b. x = Some a \<and> f a = Inr b \<and> y = Some b)"
  by (cases x) (auto simp: result_simps)

lemma try_option_eq_Inl [result_simps]:
  "try_option f x = Inl e \<longleftrightarrow> (\<exists>a. x = Some a \<and> f a = Inl e)"
  by (cases x) (auto simp: result_simps)

section \<open>Integers\<close>

definition u16_to_int16 :: "int \<Rightarrow> conv_error + int" where
  "u16_to_int16 x = (if x \<le> i16_max then Inr x else Inl IntegerOverflow)"

definition u32_to_uint16 :: "int \<Rightarrow> conv_error + int" where
  "u32_to_uint16 x = (if x \<le> u16_max then Inr x else Inl IntegerOverflow)"

definition int16_to_u16 :: "int \<Rightarrow> conv_error + int" where
  "int16_to_u16 x = (if 0 \<le> x then Inr x else Inl UnsignedNegative)"

definition int32_to_u32 :: "int \<Rightarrow> conv_error + int" where
  "int32_to_u32 x = (if 0 \<le> x then Inr x else Inl UnsignedNegative)"

definition int32_to_u16 :: "int \<Rightarrow> conv_error + int" where
  "int32_to_u16 x =
    (if x < 0 then Inl UnsignedNegative else if x \<le> u16_max then Inr x else Inl IntegerOverflow)"

definition int32_to_i16 :: "int \<Rightarrow> conv_error + int" where
  "int32_to_i16 x = (if i16_min \<le> x \<and> x \<le> i16_max then Inr x else Inl IntegerOverflow)"

definition uint32_to_u16 :: "int \<Rightarrow> conv_error + int" where
  "uint32_to_u16 x = (if x \<le> u16_max then Inr x else Inl IntegerOverflow)"

lemmas int_conversions = u16_to_int16_def u32_to_uint16_def int16_to_u16_def int32_to_u32_def
  int32_to_u16_def int32_to_i16_def uint32_to_u16_def

section \<open>Powers of ten\<close>

definition i16_to_potm :: "int \<Rightarrow> conv_error + potm" where
  "i16_to_potm sf =
    (if sf = - 9 then Inr Nano
     else if sf = - 8 then Inr NegativeEight
     else if sf = - 7 then Inr NegativeSeven
     else if sf = - 6 then Inr Micro
     else if sf = - 5 then Inr NegativeFive
     else if sf = - 4 then Inr NegativeFour
     else if sf = - 3 then Inr Milli
     else if sf = - 2 then Inr Centi
     else if sf = - 1 then Inr Deci
     else if sf = 0 then Inr PotNone
     else if sf = 1 then Inr Deca
     else if sf = 2 then Inr Hecto
     else if sf = 3 then Inr Kilo
     else if sf = 4 then Inr Four
     else if sf = 5 then Inr Five
     else if sf = 6 then Inr Mega
     else if sf = 7 then Inr Seven
     else if sf = 8 then Inr Eight
     else if sf = 9 then Inr Giga
     else Inl OutOfRange)"

fun potm_to_i16 :: "potm \<Rightarrow> int" where
  "potm_to_i16 Nano = - 9"
| "potm_to_i16 NegativeEight = - 8"
| "potm_to_i16 NegativeSeven = - 7"
| "potm_to_i16 Micro = - 6"
| "potm_to_i16 NegativeFive = - 5"
| "potm_to_i16 NegativeFour = - 4"
| "potm_to_i16 Milli = - 3"
| "potm_to_i16 Centi = - 2"
| "potm_to_i16 Deci = - 1"
| "potm_to_i16 PotNone = 0"
| "potm_to_i16 Deca = 1"
| "potm_to_i16 Hecto = 2"
| "potm_to_i16 Kilo = 3"
| "potm_to_i16 Four = 4"
| "potm_to_i16 Five = 5"
| "potm_to_i16 Mega = 6"
| "potm_to_i16 Seven = 7"
| "potm_to_i16 Eight = 8"
| "potm_to_i16 Giga = 9"

section \<open>Quantities of SEP2\<close>

record apparent_power =
  va_value :: int
  va_multiplier :: potm

record reactive_power =
  var_value :: int
  var_multiplier :: potm

record power_factor =
  pf_displacement :: int
  pf_multiplier :: potm

record voltage_rms =
  vrms_value :: int
  vrms_multiplier :: potm

record reactive_susceptance =
  rs_value :: int
  rs_multiplier :: potm

definition to_active_power :: "scaled_value \<Rightarrow> conv_error + active_power" where
  "to_active_power x =
    rbind (u16_to_int16 (sv_value x)) (\<lambda>v. rbind (i16_to_potm (sv_sf x)) (\<lambda>m.
      Inr \<lparr>ap_value = v, ap_multiplier = m\<rparr>))"

definition to_power_factor :: "scaled_value \<Rightarrow> conv_error + power_factor" where
  "to_power_factor x =
    rbind (i16_to_potm (sv_sf x)) (\<lambda>m. Inr \<lparr>pf_displacement = sv_value x, pf_multiplier = m\<rparr>)"

definition to_apparent_power :: "scaled_value \<Rightarrow> conv_error + apparent_power" where
  "to_apparent_power x =
    rbind (i16_to_potm (sv_sf x)) (\<lambda>m. Inr \<lparr>va_value = sv_value x, va_multiplier = m\<rparr>)"

definition to_reactive_power :: "scaled_value \<Rightarrow> conv_error + reactive_power" where
  "to_reactive_power x =
    rbind (u16_to_int16 (sv_value x)) (\<lambda>v. rbind (i16_to_potm (sv_sf x)) (\<lambda>m.
      Inr \<lparr>var_value = v, var_multiplier = m\<rparr>))"

definition to_voltage_rms :: "scaled_value \<Rightarrow> conv_error + voltage_rms" where
  "to_voltage_rms x =
    rbind (i16_to_potm (sv_sf x)) (\<lambda>m. Inr \<lparr>vrms_value = sv_value x, vrms_multiplier = m\<rparr>)"

definition to_reactive_susceptance :: "scaled_value \<Rightarrow> conv_error + reactive_susceptance" where
  "to_reactive_susceptance x =
    rbind (i16_to_potm (sv_sf x)) (\<lambda>m. Inr \<lparr>rs_value = sv_value x, rs_multiplier = m\<rparr>)"

section \<open>Capability\<close>

datatype der_control_flag =
  OpModMaxLimW | OpModFixedW | OpModFixedVar | OpModFixedPFInjectW | OpModFixedPFAbsorbW
| OpModVoltVar | OpModLVRTMustTrip | OpModLVRTMayTrip | OpModLVRTMomentaryCessation
| OpModHVRTMustTrip | OpModHVRTMayTrip | OpModHVRTMomentaryCessation | OpModVoltWatt
| OpModLFRTMustTrip | OpModLFRTMayTrip | OpModHFRTMustTrip | OpModHFRTMayTrip

fun ctrl_mode_flags :: "ctrl_mode \<Rightarrow> der_control_flag list" where
  "ctrl_mode_flags MaxW = [OpModMaxLimW]"
| "ctrl_mode_flags FixedW = [OpModFixedW]"
| "ctrl_mode_flags FixedVar = [OpModFixedVar]"
| "ctrl_mode_flags FixedPf = [OpModFixedPFInjectW, OpModFixedPFAbsorbW]"
| "ctrl_mode_flags VoltVar = [OpModVoltVar]"
| "ctrl_mode_flags LvTrip = [OpModLVRTMustTrip, OpModLVRTMayTrip, OpModLVRTMomentaryCessation]"
| "ctrl_mode_flags HvTrip = [OpModHVRTMustTrip, OpModHVRTMayTrip, OpModHVRTMomentaryCessation]"
| "ctrl_mode_flags VoltWatt = [OpModVoltWatt]"
| "ctrl_mode_flags LfTrip = [OpModLFRTMustTrip, OpModLFRTMayTrip]"
| "ctrl_mode_flags HfTrip = [OpModHFRTMustTrip, OpModHFRTMayTrip]"
| "ctrl_mode_flags FreqWatt = []"
| "ctrl_mode_flags WattVar = []"
| "ctrl_mode_flags ScheduledMode = []"
| "ctrl_mode_flags DynReactCurr = []"
| "ctrl_mode_flags (OtherMode _) = []"

definition to_modes_supported :: "ctrl_mode list option \<Rightarrow> der_control_flag set" where
  "to_modes_supported modes =
    (case modes of None \<Rightarrow> {} | Some ms \<Rightarrow> set (concat (map ctrl_mode_flags ms)))"

record der_capability =
  rtg_max_w :: active_power
  rtg_over_excited_w :: "active_power option"
  rtg_over_excited_pf :: "power_factor option"
  rtg_under_excited_w :: "active_power option"
  rtg_under_excited_pf :: "power_factor option"
  rtg_max_va :: "apparent_power option"
  rtg_max_var :: "reactive_power option"
  rtg_max_var_neg :: "reactive_power option"
  rtg_max_charge_rate_w :: "active_power option"
  rtg_max_charge_rate_va :: "apparent_power option"
  rtg_v_nom :: "voltage_rms option"
  rtg_max_v :: "voltage_rms option"
  rtg_min_v :: "voltage_rms option"
  modes_supported :: "der_control_flag set"
  rtg_reactive_susceptance :: "reactive_susceptance option"

definition to_der_capability :: "capabilities \<Rightarrow> named_error + der_capability" where
  "to_der_capability caps =
    field ''rtg_max_w'' (try_mandatory to_active_power (c_w_max_rtg caps)) (\<lambda>max_w.
    field ''rtg_over_excited_w'' (try_option to_active_power (c_w_ovr_ext_rtg caps)) (\<lambda>over_w.
    field ''rtg_over_excited_pf'' (try_option to_power_factor (c_w_ovr_ext_rtg_pf caps)) (\<lambda>over_pf.
    field ''rtg_under_excited_w'' (try_option to_active_power (c_w_und_ext_rtg caps)) (\<lambda>under_w.
    field ''rtg_under_excited_pf'' (try_option to_power_factor (c_w_und_ext_rtg_pf caps)) (\<lambda>under_pf.
    field ''rtg_max_va'' (try_option to_apparent_power (c_va_max_rtg caps)) (\<lambda>max_va.
    field ''rtg_max_var'' (try_option to_reactive_power (c_var_max_inj_rtg caps)) (\<lambda>max_var.
    field ''rtg_max_var_neg'' (try_option to_reactive_power (c_var_max_abs_rtg caps)) (\<lambda>max_var_abs.
    field ''rtg_max_charge_rate_w'' (try_option to_active_power (c_w_cha_rte_max_rtg caps)) (\<lambda>charge_w.
    field ''rtg_max_charge_rate_va'' (try_option to_apparent_power (c_va_cha_rte_max_rtg caps)) (\<lambda>charge_va.
    field ''rtg_v_nom'' (try_option to_voltage_rms (c_v_nom_rtg caps)) (\<lambda>v_nom.
    field ''rtg_max_v'' (try_option to_voltage_rms (c_v_max_rtg caps)) (\<lambda>max_v.
    field ''rtg_min_v'' (try_option to_voltage_rms (c_v_min_rtg caps)) (\<lambda>min_v.
    field ''rtg_reactive_susceptance''
      (try_option to_reactive_susceptance (c_react_suscept_rtg caps)) (\<lambda>susceptance.
    Inr \<lparr> rtg_max_w = max_w, rtg_over_excited_w = over_w, rtg_over_excited_pf = over_pf,
          rtg_under_excited_w = under_w, rtg_under_excited_pf = under_pf, rtg_max_va = max_va,
          rtg_max_var = max_var,
          rtg_max_var_neg = map_option (\<lambda>var. var\<lparr>var_value := - var_value var\<rparr>) max_var_abs,
          rtg_max_charge_rate_w = charge_w, rtg_max_charge_rate_va = charge_va,
          rtg_v_nom = v_nom, rtg_max_v = max_v, rtg_min_v = min_v,
          modes_supported = to_modes_supported (c_ctrl_modes caps),
          rtg_reactive_susceptance = susceptance \<rparr>))))))))))))))"

section \<open>Status\<close>

datatype operational_mode = OpOff | OpOperational

record operational_mode_status =
  oms_date_time :: int
  oms_value :: operational_mode

text \<open>\<^verbatim>\<open>ConnectStatusValue\<close> is a bit set: empty, or its flag \<^verbatim>\<open>Connected\<close>.\<close>

datatype connect_flag = Connected

record connect_status =
  cs_date_time :: int
  cs_value :: "connect_flag set"

datatype alarm_flag =
  DER_FAULT_OVER_VOLTAGE | DER_FAULT_EMERGENCY_LOCAL | DER_FAULT_OVER_FREQUENCY
| DER_FAULT_UNDER_FREQUENCY | DER_FAULT_UNDER_VOLTAGE

record state_of_charge_status =
  soc_date_time :: int
  soc_value :: int

fun st_to_operational_mode :: "int \<Rightarrow> st_701 \<Rightarrow> conv_error + operational_mode_status" where
  "st_to_operational_mode now St_Off = Inr \<lparr>oms_date_time = now, oms_value = OpOff\<rparr>"
| "st_to_operational_mode now St_On = Inr \<lparr>oms_date_time = now, oms_value = OpOperational\<rparr>"
| "st_to_operational_mode now (St_Invalid _) = Inl UnmappableInvalid"

fun conn_st_to_connect_status :: "int \<Rightarrow> conn_st_701 \<Rightarrow> conv_error + connect_status" where
  "conn_st_to_connect_status now ConnSt_Disconnected = Inr \<lparr>cs_date_time = now, cs_value = {}\<rparr>"
| "conn_st_to_connect_status now ConnSt_Connected = Inr \<lparr>cs_date_time = now, cs_value = {Connected}\<rparr>"
| "conn_st_to_connect_status now (ConnSt_Invalid _) = Inl UnmappableInvalid"

fun alrm_flag :: "alrm_701 \<Rightarrow> alarm_flag option" where
  "alrm_flag DcOverVolt = Some DER_FAULT_OVER_VOLTAGE"
| "alrm_flag ManualShutdown = Some DER_FAULT_EMERGENCY_LOCAL"
| "alrm_flag OverFrequency = Some DER_FAULT_OVER_FREQUENCY"
| "alrm_flag UnderFrequency = Some DER_FAULT_UNDER_FREQUENCY"
| "alrm_flag AcOverVolt = Some DER_FAULT_OVER_VOLTAGE"
| "alrm_flag AcUnderVolt = Some DER_FAULT_UNDER_VOLTAGE"
| "alrm_flag _ = None"

definition to_alarm_status :: "alrm_701 list \<Rightarrow> alarm_flag set" where
  "to_alarm_status alrm = set (List.map_filter alrm_flag alrm)"

text \<open>\<^verbatim>\<open>Percent::new\<close> returns none above 10000; the code then takes 100 percent.\<close>

definition percent_new :: "int \<Rightarrow> int option" where
  "percent_new x = (if 0 \<le> x \<and> x \<le> 10000 then Some x else None)"

definition to_soc_status :: "int \<Rightarrow> scaled_value \<Rightarrow> state_of_charge_status" where
  "to_soc_status now x =
    (let hundredths = sv_value (rescale_u16 x SEP2_HUNDREDTHS_SF)
     in \<lparr>soc_date_time = now,
         soc_value = (case percent_new hundredths of Some p \<Rightarrow> p | None \<Rightarrow> 10000)\<rparr>)"

record der_status =
  ds_operational_mode_status :: "operational_mode_status option"
  ds_gen_connect_status :: "connect_status option"
  ds_stor_connect_status :: "connect_status option"
  ds_alarm_status :: "alarm_flag set option"
  ds_state_of_charge_status :: "state_of_charge_status option"
  ds_reading_time :: int

definition to_der_status :: "(nat \<Rightarrow> int) \<Rightarrow> status \<Rightarrow> named_error + der_status" where
  "to_der_status clk status =
    field ''conn_st'' (try_option (conn_st_to_connect_status (clk 0)) (s_conn_st status)) (\<lambda>connect_status.
    field ''operational_mode_status'' (try_option (st_to_operational_mode (clk 1)) (s_st status)) (\<lambda>mode.
    Inr \<lparr> ds_operational_mode_status = mode,
          ds_gen_connect_status = connect_status,
          ds_stor_connect_status = connect_status,
          ds_alarm_status = map_option to_alarm_status (s_alrm status),
          ds_state_of_charge_status = map_option (to_soc_status (clk 2)) (s_soc status),
          ds_reading_time = clk 3 \<rparr>))"

section \<open>Settings\<close>

definition hundredths_to_seconds :: "int \<Rightarrow> int" where
  "hundredths_to_seconds x = sv_value (rescale_u32 (new_sv x SEP2_HUNDREDTHS_SF) SUNSPEC_SECONDS_SF)"

definition seconds_to_hundredths :: "int \<Rightarrow> int" where
  "seconds_to_hundredths x = sv_value (rescale_u32 (new_sv x SUNSPEC_SECONDS_SF) SEP2_HUNDREDTHS_SF)"

record der_settings =
  dset_es_high_volt :: "int option"
  dset_es_low_volt :: "int option"
  dset_es_high_freq :: "int option"
  dset_es_low_freq :: "int option"
  dset_es_delay :: "int option"
  dset_es_random_delay :: "int option"
  dset_es_ramp_tms :: "int option"
  dset_updated_time :: int

definition volts_hundredths :: "scaled_value option \<Rightarrow> conv_error + int option" where
  "volts_hundredths x =
    try_option u16_to_int16 (map_option (\<lambda>val. sv_value (rescale_u16 val SEP2_HUNDREDTHS_SF)) x)"

definition hertz_hundredths :: "scaled_value option \<Rightarrow> conv_error + int option" where
  "hertz_hundredths x =
    try_option u32_to_uint16 (map_option (\<lambda>val. sv_value (rescale_u32 val SEP2_HUNDREDTHS_SF)) x)"

definition to_der_settings :: "int \<Rightarrow> settings \<Rightarrow> named_error + der_settings" where
  "to_der_settings now g =
    field ''set_es_high_volt'' (volts_hundredths (g_esv_hi g)) (\<lambda>high_volt.
    field ''set_es_low_volt'' (volts_hundredths (g_esv_lo g)) (\<lambda>low_volt.
    field ''set_es_high_freq'' (hertz_hundredths (g_es_hz_hi g)) (\<lambda>high_freq.
    field ''set_es_low_freq'' (hertz_hundredths (g_es_hz_lo g)) (\<lambda>low_freq.
    Inr \<lparr> dset_es_high_volt = high_volt, dset_es_low_volt = low_volt,
          dset_es_high_freq = high_freq, dset_es_low_freq = low_freq,
          dset_es_delay = map_option seconds_to_hundredths (g_es_dly_tms g),
          dset_es_random_delay = map_option seconds_to_hundredths (g_es_rnd_tms g),
          dset_es_ramp_tms = map_option seconds_to_hundredths (g_es_rmp_tms g),
          dset_updated_time = now \<rparr>))))"

section \<open>Meter readings\<close>

fun phase_to_code :: "phase_reference \<Rightarrow> phase_code" where
  "phase_to_code LLV = PhaseABC"
| "phase_to_code LNV = PhaseAN"
| "phase_to_code VL1 = PhaseA"
| "phase_to_code VL2 = PhaseB"
| "phase_to_code VL3 = PhaseC"
| "phase_to_code VL1L2 = PhaseAB"
| "phase_to_code VL2L3 = PhaseBC"
| "phase_to_code VL3L1 = PhaseCA"

text \<open>The \<^verbatim>\<open>Display\<close> of a phase reference.\<close>

fun phase_name :: "phase_reference \<Rightarrow> string" where
  "phase_name LLV = ''LLV''"
| "phase_name LNV = ''LNV''"
| "phase_name VL1L2 = ''VL1L2''"
| "phase_name VL1 = ''VL1''"
| "phase_name VL2L3 = ''VL2L3''"
| "phase_name VL2 = ''VL2''"
| "phase_name VL3L1 = ''VL3L1''"
| "phase_name VL3 = ''VL3''"

definition meter_reading ::
  "int \<Rightarrow> string \<Rightarrow> flow_direction \<Rightarrow> uom \<Rightarrow> potm option \<Rightarrow> phase_code option \<Rightarrow> int \<Rightarrow> mirror_meter_reading" where
  "meter_reading now description flow unit multiplier phase value =
    \<lparr> mmr_mrid = 0, mmr_description = description,
      mmr_reading_type = Some
        \<lparr> rt_kind = KindPower, rt_accumulation_behaviour = Instantaneous,
          rt_commodity = ElectricitySecondaryMetered, rt_flow_direction = flow, rt_uom = Some unit,
          rt_multiplier = multiplier, rt_phase = phase \<rparr>,
      mmr_reading = \<lparr> rd_value = value, rd_start = now, rd_duration = 0 \<rparr> \<rparr>"

text \<open>The closure \<^verbatim>\<open>power_template\<close>, and its like for reactive power and frequency.\<close>

definition quantity_template ::
  "int \<Rightarrow> string \<Rightarrow> flow_direction \<Rightarrow> uom \<Rightarrow> int option \<Rightarrow> string \<Rightarrow> phase_code option \<Rightarrow> int option \<Rightarrow>
     named_error + mirror_meter_reading option" where
  "quantity_template now name flow unit sf sf_name phase value =
    try_option (\<lambda>value.
      field sf_name (try_option i16_to_potm sf) (\<lambda>multiplier.
        Inr (meter_reading now name flow unit multiplier phase value))) value"

definition voltage_reading ::
  "int \<Rightarrow> int option \<Rightarrow> int \<times> phase_reference \<Rightarrow> named_error + mirror_meter_reading" where
  "voltage_reading now v_sf = (\<lambda>(v, phase).
    field ''v_sf'' (try_option i16_to_potm v_sf) (\<lambda>multiplier.
      Inr (meter_reading now (''voltage_'' @ phase_name phase) FlowForward Uom_Voltage multiplier
             (Some (phase_to_code phase)) v)))"

definition to_meter_readings :: "int \<Rightarrow> metering \<Rightarrow> named_error + mirror_meter_reading list" where
  "to_meter_readings now mt =
    (let power = (\<lambda>name value phase.
           quantity_template now name FlowReverse Uom_W (mt_w_sf mt) ''w_sf'' phase value)
     in rbind (power ''w'' (mt_w mt) None) (\<lambda>w.
        rbind (power ''wl1'' (mt_wl1 mt) (Some PhaseA)) (\<lambda>wl1.
        rbind (power ''wl2'' (mt_wl2 mt) (Some PhaseB)) (\<lambda>wl2.
        rbind (power ''wl3'' (mt_wl3 mt) (Some PhaseC)) (\<lambda>wl3.
        rbind (quantity_template now ''reactive_power'' FlowReverse Uom_VAr (mt_var_sf mt) ''var_sf''
                 None (mt_var mt)) (\<lambda>var.
        rbind (rmapM (voltage_reading now (mt_v_sf mt)) (mt_voltages mt)) (\<lambda>voltages.
        rbind (quantity_template now ''frequency'' FlowReverse Uom_Hz (mt_hz_sf mt) ''hz_sf''
                 None (mt_hz mt)) (\<lambda>hz.
        Inr (List.map_filter (\<lambda>x. x) [w, wl1, wl2, wl3, var, hz] @ voltages)))))))))"

section \<open>Single conversions\<close>

lemma i16_to_potm_eq_Inr [result_simps]: "i16_to_potm sf = Inr m \<longleftrightarrow> potm_to_i16 m = sf"
proof
  assume "potm_to_i16 m = sf"
  then show "i16_to_potm sf = Inr m" by (cases m) (auto simp: i16_to_potm_def)
next
  assume "i16_to_potm sf = Inr m"
  then show "potm_to_i16 m = sf" by (auto simp: i16_to_potm_def split: if_splits)
qed

lemma potm_range: "- 9 \<le> potm_to_i16 m \<and> potm_to_i16 m \<le> 9"
  by (cases m) simp_all

lemma potm_onto: "- 9 \<le> sf \<Longrightarrow> sf \<le> 9 \<Longrightarrow> \<exists>m. potm_to_i16 m = sf"
proof -
  assume "- 9 \<le> sf" "sf \<le> 9"
  then have "sf \<in> potm_to_i16 ` {Nano, NegativeEight, NegativeSeven, Micro, NegativeFive, NegativeFour,
      Milli, Centi, Deci, PotNone, Deca, Hecto, Kilo, Four, Five, Mega, Seven, Eight, Giga}"
    by simp presburger
  then show ?thesis by blast
qed

text \<open>The scaled value a SEP2 quantity denotes.\<close>

definition active_power_sv :: "active_power \<Rightarrow> scaled_value" where
  "active_power_sv p = new_sv (ap_value p) (potm_to_i16 (ap_multiplier p))"
definition apparent_power_sv :: "apparent_power \<Rightarrow> scaled_value" where
  "apparent_power_sv p = new_sv (va_value p) (potm_to_i16 (va_multiplier p))"
definition reactive_power_sv :: "reactive_power \<Rightarrow> scaled_value" where
  "reactive_power_sv p = new_sv (var_value p) (potm_to_i16 (var_multiplier p))"
definition power_factor_sv :: "power_factor \<Rightarrow> scaled_value" where
  "power_factor_sv p = new_sv (pf_displacement p) (potm_to_i16 (pf_multiplier p))"
definition voltage_rms_sv :: "voltage_rms \<Rightarrow> scaled_value" where
  "voltage_rms_sv p = new_sv (vrms_value p) (potm_to_i16 (vrms_multiplier p))"
definition reactive_susceptance_sv :: "reactive_susceptance \<Rightarrow> scaled_value" where
  "reactive_susceptance_sv p = new_sv (rs_value p) (potm_to_i16 (rs_multiplier p))"

lemmas quantity_sv = active_power_sv_def apparent_power_sv_def reactive_power_sv_def
  power_factor_sv_def voltage_rms_sv_def reactive_susceptance_sv_def

lemmas quantity_conversions = to_active_power_def to_power_factor_def to_apparent_power_def
  to_reactive_power_def to_voltage_rms_def to_reactive_susceptance_def

lemma u16_to_int16_eq_Inr [result_simps]: "u16_to_int16 x = Inr y \<longleftrightarrow> y = x \<and> x \<le> i16_max"
  by (auto simp: u16_to_int16_def)

lemma to_quantity_eq_Inr [result_simps]:
  "to_active_power x = Inr p \<longleftrightarrow> active_power_sv p = x \<and> sv_value x \<le> i16_max"
  "to_reactive_power x = Inr q \<longleftrightarrow> reactive_power_sv q = x \<and> sv_value x \<le> i16_max"
  "to_apparent_power x = Inr a \<longleftrightarrow> apparent_power_sv a = x"
  "to_power_factor x = Inr f \<longleftrightarrow> power_factor_sv f = x"
  "to_voltage_rms x = Inr v \<longleftrightarrow> voltage_rms_sv v = x"
  "to_reactive_susceptance x = Inr r \<longleftrightarrow> reactive_susceptance_sv r = x"
  by (cases p; cases q; cases a; cases f; cases v; cases r; cases x;
      auto simp: quantity_conversions quantity_sv result_simps new_sv_def)+

lemma try_option_eq_map:
  assumes "\<And>x y. f x = Inr y \<longleftrightarrow> g y = x \<and> P x"
  shows "try_option f x = Inr y \<longleftrightarrow> x = map_option g y \<and> (\<forall>a \<in> set_option x. P a)"
  by (cases x; cases y) (auto simp: result_simps assms)

lemmas try_quantity [result_simps] =
  try_option_eq_map [OF to_quantity_eq_Inr(1)] try_option_eq_map [OF to_quantity_eq_Inr(2)]
  try_option_eq_map [where P = "\<lambda>_. True", simplified, OF to_quantity_eq_Inr(3)]
  try_option_eq_map [where P = "\<lambda>_. True", simplified, OF to_quantity_eq_Inr(4)]
  try_option_eq_map [where P = "\<lambda>_. True", simplified, OF to_quantity_eq_Inr(5)]
  try_option_eq_map [where P = "\<lambda>_. True", simplified, OF to_quantity_eq_Inr(6)]

lemma try_mandatory_eq_Inr:
  "try_mandatory f x = Inr y \<longleftrightarrow> (\<exists>a. x = Some a \<and> f a = Inr y)"
  by (cases x) (simp_all add: try_mandatory_def)

lemma ex_field: "(\<exists>c. field n r k = Inr c) \<longleftrightarrow> (\<exists>x. r = Inr x \<and> (\<exists>c. k x = Inr c))"
  by (auto simp: field_eq_Inr)

lemma ex_try_option: "(\<exists>y. try_option f x = Inr y) \<longleftrightarrow> (\<forall>a \<in> set_option x. \<exists>y. f a = Inr y)"
  by (cases x) (auto simp: result_simps)

lemma ex_try_mandatory:
  "(\<exists>y. try_mandatory f x = Inr y) \<longleftrightarrow> x \<noteq> None \<and> (\<forall>a \<in> set_option x. \<exists>y. f a = Inr y)"
  by (cases x) (auto simp: try_mandatory_def)

lemma ex_potm: "(\<exists>m. i16_to_potm sf = Inr m) \<longleftrightarrow> - 9 \<le> sf \<and> sf \<le> 9"
  unfolding i16_to_potm_eq_Inr using potm_range potm_onto [of sf] by metis

lemma ex_quantity:
  "(\<exists>p. to_active_power x = Inr p) \<longleftrightarrow> sv_value x \<le> i16_max \<and> - 9 \<le> sv_sf x \<and> sv_sf x \<le> 9"
  "(\<exists>q. to_reactive_power x = Inr q) \<longleftrightarrow> sv_value x \<le> i16_max \<and> - 9 \<le> sv_sf x \<and> sv_sf x \<le> 9"
  "(\<exists>a. to_apparent_power x = Inr a) \<longleftrightarrow> - 9 \<le> sv_sf x \<and> sv_sf x \<le> 9"
  "(\<exists>f. to_power_factor x = Inr f) \<longleftrightarrow> - 9 \<le> sv_sf x \<and> sv_sf x \<le> 9"
  "(\<exists>v. to_voltage_rms x = Inr v) \<longleftrightarrow> - 9 \<le> sv_sf x \<and> sv_sf x \<le> 9"
  "(\<exists>r. to_reactive_susceptance x = Inr r) \<longleftrightarrow> - 9 \<le> sv_sf x \<and> sv_sf x \<le> 9"
  using ex_potm [of "sv_sf x"]
  by (auto simp: quantity_conversions rbind_eq_Inr u16_to_int16_eq_Inr)

lemma potm_error: "i16_to_potm sf = Inl e \<Longrightarrow> e = OutOfRange"
  by (auto simp: i16_to_potm_def split: if_splits)

lemma quantity_error [simp]:
  "to_active_power x \<noteq> Inl MandatoryNone" "to_reactive_power x \<noteq> Inl MandatoryNone"
  "to_apparent_power x \<noteq> Inl MandatoryNone" "to_power_factor x \<noteq> Inl MandatoryNone"
  "to_voltage_rms x \<noteq> Inl MandatoryNone" "to_reactive_susceptance x \<noteq> Inl MandatoryNone"
  using potm_error [of "sv_sf x" MandatoryNone]
  by (auto simp: quantity_conversions rbind_eq_Inl u16_to_int16_def split: if_splits)

lemma field_MandatoryNone:
  "field n r k = Inl \<lparr>ne_kind = MandatoryNone, ne_name = m\<rparr> \<longleftrightarrow>
     r = Inl MandatoryNone \<and> n = m \<or>
     (\<exists>x. r = Inr x \<and> k x = Inl \<lparr>ne_kind = MandatoryNone, ne_name = m\<rparr>)"
  by (cases r) (auto simp: name_error_def)

lemma try_option_MandatoryNone:
  "(try_option f x = Inl MandatoryNone) \<longleftrightarrow> (\<exists>a. x = Some a \<and> f a = Inl MandatoryNone)"
  by (rule try_option_eq_Inl)

text \<open>What a meter reading says: its name, unit, scale factor, value and instant.\<close>

definition reading_summary :: "mirror_meter_reading \<Rightarrow> string \<times> uom option \<times> int option \<times> int \<times> int" where
  "reading_summary r =
    (mmr_description r, Option.bind (mmr_reading_type r) rt_uom,
     map_option potm_to_i16 (Option.bind (mmr_reading_type r) rt_multiplier), rd_value (mmr_reading r),
     rd_start (mmr_reading r))"

lemma try_potm: "try_option i16_to_potm sf = Inr m \<longleftrightarrow> map_option potm_to_i16 m = sf"
  by (cases sf; cases m) (auto simp: result_simps)

lemma quantity_template_summary:
  assumes "quantity_template now name flow unit sf sf_name phase value = Inr r"
  shows "map_option reading_summary r = map_option (\<lambda>v. (name, Some unit, sf, v, now)) value"
  using assms
  by (auto simp: quantity_template_def result_simps try_potm reading_summary_def meter_reading_def)

lemma voltage_reading_summary:
  "voltage_reading now v_sf (v, phase) = Inr r \<Longrightarrow>
     reading_summary r = (''voltage_'' @ phase_name phase, Some Uom_Voltage, v_sf, v, now)"
  by (auto simp: voltage_reading_def result_simps try_potm reading_summary_def meter_reading_def)

lemma voltage_readings_summary:
  assumes "rmapM (voltage_reading now v_sf) vs = Inr rs"
  shows "map reading_summary rs =
    map (\<lambda>(v, phase). (''voltage_'' @ phase_name phase, Some Uom_Voltage, v_sf, v, now)) vs"
  using assms
proof (induction vs arbitrary: rs)
  case (Cons x vs)
  then show ?case by (cases x) (auto simp: result_simps voltage_reading_summary)
qed simp

lemma map_map_filter_id:
  "map f (List.map_filter (\<lambda>x. x) xs) = List.map_filter (\<lambda>x. x) (map (map_option f) xs)"
  by (induction xs) (auto simp: map_filter_simps split: option.split)

section \<open>Properties\<close>

text \<open>
  The power-of-ten multipliers of SEP2 and the scale factors of SunSpec correspond one to one
  from -9 to 9, and every other scale factor is reported as out of range.
\<close>

theorem multiplier_roundtrip:
  "(i16_to_potm sf = Inr m \<longleftrightarrow> potm_to_i16 m = sf) \<and>
   (i16_to_potm sf = Inl OutOfRange \<longleftrightarrow> sf < - 9 \<or> 9 < sf)"
proof -
  have "i16_to_potm sf = Inl OutOfRange \<longleftrightarrow> (\<nexists>m. i16_to_potm sf = Inr m)"
    by (auto simp: i16_to_potm_def)
  also have "\<dots> \<longleftrightarrow> sf < - 9 \<or> 9 < sf"
    unfolding i16_to_potm_eq_Inr using potm_range potm_onto [of sf] by (metis not_le)
  finally show ?thesis by (simp add: i16_to_potm_eq_Inr)
qed

text \<open>
  C31: the capability sent to the server is lossless. When the translation succeeds, each rating of
  SEP2 denotes exactly the value and scale factor polled from the device; the one exception is the
  absorbed reactive power, whose sign is flipped because SEP2 wants it negative.
\<close>

theorem capability_lossless:
  assumes "to_der_capability caps = Inr c"
  shows "c_w_max_rtg caps = Some (active_power_sv (rtg_max_w c)) \<and>
    c_w_ovr_ext_rtg caps = map_option active_power_sv (rtg_over_excited_w c) \<and>
    c_w_ovr_ext_rtg_pf caps = map_option power_factor_sv (rtg_over_excited_pf c) \<and>
    c_w_und_ext_rtg caps = map_option active_power_sv (rtg_under_excited_w c) \<and>
    c_w_und_ext_rtg_pf caps = map_option power_factor_sv (rtg_under_excited_pf c) \<and>
    c_va_max_rtg caps = map_option apparent_power_sv (rtg_max_va c) \<and>
    c_var_max_inj_rtg caps = map_option reactive_power_sv (rtg_max_var c) \<and>
    c_var_max_abs_rtg caps =
      map_option (\<lambda>var. reactive_power_sv (var\<lparr>var_value := - var_value var\<rparr>)) (rtg_max_var_neg c) \<and>
    c_w_cha_rte_max_rtg caps = map_option active_power_sv (rtg_max_charge_rate_w c) \<and>
    c_va_cha_rte_max_rtg caps = map_option apparent_power_sv (rtg_max_charge_rate_va c) \<and>
    c_v_nom_rtg caps = map_option voltage_rms_sv (rtg_v_nom c) \<and>
    c_v_max_rtg caps = map_option voltage_rms_sv (rtg_max_v c) \<and>
    c_v_min_rtg caps = map_option voltage_rms_sv (rtg_min_v c) \<and>
    c_react_suscept_rtg caps = map_option reactive_susceptance_sv (rtg_reactive_susceptance c) \<and>
    modes_supported c = to_modes_supported (c_ctrl_modes caps)"
proof -
  have flip: "map_option (\<lambda>var. reactive_power_sv (var\<lparr>var_value := - var_value var\<rparr>))
      (map_option (\<lambda>var. var\<lparr>var_value := - var_value var\<rparr>) x) = map_option reactive_power_sv x" for x
    by (cases x) (simp_all add: reactive_power_sv_def)
  show ?thesis
    using assms unfolding to_der_capability_def field_eq_Inr try_quantity try_mandatory_eq_Inr
      to_quantity_eq_Inr sum.inject
    by (elim exE conjE, hypsubst_thin, intro conjI)
      (simp_all only: der_capability.select_convs flip)
qed

text \<open>
  When the capability cannot be translated, and which error is reported. It succeeds exactly
  when the device gives a maximum power rating, the ratings SEP2 holds as signed 16-bit integers
  fit, and the scale factors are within -9 to 9; a missing maximum rating is the error
  \<^verbatim>\<open>MandatoryNone\<close> named \<^verbatim>\<open>rtg_max_w\<close>, whatever else is wrong.
\<close>

theorem capability_succeeds_iff:
  "((\<exists>c. to_der_capability caps = Inr c) \<longleftrightarrow>
     c_w_max_rtg caps \<noteq> None \<and>
     (\<forall>x \<in> set_option (c_w_max_rtg caps) \<union> set_option (c_w_ovr_ext_rtg caps) \<union>
        set_option (c_w_und_ext_rtg caps) \<union> set_option (c_var_max_inj_rtg caps) \<union>
        set_option (c_var_max_abs_rtg caps) \<union> set_option (c_w_cha_rte_max_rtg caps).
        sv_value x \<le> i16_max) \<and>
     (\<forall>x \<in> set_option (c_w_max_rtg caps) \<union> set_option (c_w_ovr_ext_rtg caps) \<union>
        set_option (c_w_ovr_ext_rtg_pf caps) \<union> set_option (c_w_und_ext_rtg caps) \<union>
        set_option (c_w_und_ext_rtg_pf caps) \<union> set_option (c_va_max_rtg caps) \<union>
        set_option (c_var_max_inj_rtg caps) \<union> set_option (c_var_max_abs_rtg caps) \<union>
        set_option (c_w_cha_rte_max_rtg caps) \<union> set_option (c_va_cha_rte_max_rtg caps) \<union>
        set_option (c_v_nom_rtg caps) \<union> set_option (c_v_max_rtg caps) \<union>
        set_option (c_v_min_rtg caps) \<union> set_option (c_react_suscept_rtg caps).
        - 9 \<le> sv_sf x \<and> sv_sf x \<le> 9)) \<and>
   (to_der_capability caps = Inl \<lparr>ne_kind = MandatoryNone, ne_name = ''rtg_max_w''\<rparr> \<longleftrightarrow>
     c_w_max_rtg caps = None)"
proof
  show "(\<exists>c. to_der_capability caps = Inr c) \<longleftrightarrow>
     c_w_max_rtg caps \<noteq> None \<and>
     (\<forall>x \<in> set_option (c_w_max_rtg caps) \<union> set_option (c_w_ovr_ext_rtg caps) \<union>
        set_option (c_w_und_ext_rtg caps) \<union> set_option (c_var_max_inj_rtg caps) \<union>
        set_option (c_var_max_abs_rtg caps) \<union> set_option (c_w_cha_rte_max_rtg caps).
        sv_value x \<le> i16_max) \<and>
     (\<forall>x \<in> set_option (c_w_max_rtg caps) \<union> set_option (c_w_ovr_ext_rtg caps) \<union>
        set_option (c_w_ovr_ext_rtg_pf caps) \<union> set_option (c_w_und_ext_rtg caps) \<union>
        set_option (c_w_und_ext_rtg_pf caps) \<union> set_option (c_va_max_rtg caps) \<union>
        set_option (c_var_max_inj_rtg caps) \<union> set_option (c_var_max_abs_rtg caps) \<union>
        set_option (c_w_cha_rte_max_rtg caps) \<union> set_option (c_va_cha_rte_max_rtg caps) \<union>
        set_option (c_v_nom_rtg caps) \<union> set_option (c_v_max_rtg caps) \<union>
        set_option (c_v_min_rtg caps) \<union> set_option (c_react_suscept_rtg caps).
        - 9 \<le> sv_sf x \<and> sv_sf x \<le> 9)"
    by (simp only: to_der_capability_def ex_field sum.inject simp_thms ex_simps ex_try_option
        ex_try_mandatory ex_quantity ball_Un ball_conj_distrib)
      (rule iffI; elim conjE; intro conjI; assumption)
next
  show "to_der_capability caps = Inl \<lparr>ne_kind = MandatoryNone, ne_name = ''rtg_max_w''\<rparr> \<longleftrightarrow>
     c_w_max_rtg caps = None"
  proof (cases "c_w_max_rtg caps")
    case None
    then show ?thesis
      by (simp add: to_der_capability_def try_mandatory_def name_error_def)
  next
    case (Some x)
    then show ?thesis
      by (simp only: to_der_capability_def field_MandatoryNone try_mandatory_def option.case
          try_option_MandatoryNone quantity_error simp_thms sum.simps option.simps ex_simps)
  qed
qed

text \<open>
  The meter readings are exactly the quantities the device reported, in a fixed order: power,
  power per phase, reactive power and frequency, then the voltages, each with its value, the scale
  factor of its kind and one common instant; nothing reported is dropped and nothing is invented.
\<close>

theorem meter_readings_complete:
  assumes "to_meter_readings now mt = Inr rs"
  shows "map reading_summary rs =
    List.map_filter (\<lambda>x. x)
      [map_option (\<lambda>v. (''w'', Some Uom_W, mt_w_sf mt, v, now)) (mt_w mt),
       map_option (\<lambda>v. (''wl1'', Some Uom_W, mt_w_sf mt, v, now)) (mt_wl1 mt),
       map_option (\<lambda>v. (''wl2'', Some Uom_W, mt_w_sf mt, v, now)) (mt_wl2 mt),
       map_option (\<lambda>v. (''wl3'', Some Uom_W, mt_w_sf mt, v, now)) (mt_wl3 mt),
       map_option (\<lambda>v. (''reactive_power'', Some Uom_VAr, mt_var_sf mt, v, now)) (mt_var mt),
       map_option (\<lambda>v. (''frequency'', Some Uom_Hz, mt_hz_sf mt, v, now)) (mt_hz mt)] @
    map (\<lambda>(v, phase). (''voltage_'' @ phase_name phase, Some Uom_Voltage, mt_v_sf mt, v, now)) (mt_voltages mt)"
proof -
  from assms obtain w wl1 wl2 wl3 var hz voltages
    where "quantity_template now ''w'' FlowReverse Uom_W (mt_w_sf mt) ''w_sf'' None (mt_w mt) = Inr w"
      "quantity_template now ''wl1'' FlowReverse Uom_W (mt_w_sf mt) ''w_sf'' (Some PhaseA) (mt_wl1 mt) = Inr wl1"
      "quantity_template now ''wl2'' FlowReverse Uom_W (mt_w_sf mt) ''w_sf'' (Some PhaseB) (mt_wl2 mt) = Inr wl2"
      "quantity_template now ''wl3'' FlowReverse Uom_W (mt_w_sf mt) ''w_sf'' (Some PhaseC) (mt_wl3 mt) = Inr wl3"
      "quantity_template now ''reactive_power'' FlowReverse Uom_VAr (mt_var_sf mt) ''var_sf'' None (mt_var mt) = Inr var"
      "quantity_template now ''frequency'' FlowReverse Uom_Hz (mt_hz_sf mt) ''hz_sf'' None (mt_hz mt) = Inr hz"
      "rmapM (voltage_reading now (mt_v_sf mt)) (mt_voltages mt) = Inr voltages"
      "rs = List.map_filter (\<lambda>x. x) [w, wl1, wl2, wl3, var, hz] @ voltages"
    unfolding to_meter_readings_def Let_def rbind_eq_Inr sum.inject by blast
  then show ?thesis
    by (simp only: map_append map_map_filter_id list.map quantity_template_summary voltage_readings_summary)
qed

text \<open>
  The state of charge sent to the server is a valid percentage for every value and scale
  factor of the device: it is the value in hundredths of a percent, rounded, and capped at 10000.
\<close>

theorem state_of_charge_valid:
  assumes "0 \<le> sv_value x" "sv_value x \<le> u16_max"
  shows "soc_value (to_soc_status now x) = min 10000 (sv_value (rescale_u16 x (- 2))) \<and>
    0 \<le> soc_value (to_soc_status now x) \<and> soc_value (to_soc_status now x) \<le> 10000"
  using u16.rescale_in_range [OF assms, of "- 2"]
  by (auto simp: to_soc_status_def percent_new_def sf_defs rescale_defs Let_def min_def)

text \<open>
  A delay in seconds sent to the server in hundredths comes back unchanged when it is received
  as a setting, for every delay whose hundredths fit; longer ones are capped, not wrapped.
\<close>

theorem delay_roundtrip:
  assumes "0 \<le> x" "x \<le> u32_max"
  shows "seconds_to_hundredths x = min u32_max (100 * x) \<and>
    hundredths_to_seconds (seconds_to_hundredths x) = (if 100 * x \<le> u32_max then x else 42949673)"
proof -
  have up: "seconds_to_hundredths x = min u32_max (100 * x)"
    using assms u32.rescale_finer [of "new_sv x 0" "- 2"]
    by (simp add: seconds_to_hundredths_def sf_defs rescale_defs clamp_def min_def)
  have down: "hundredths_to_seconds y = round_half_away y 100" if "0 \<le> y" "y \<le> u32_max" for y
    using that u32.rescale_coarser [of "new_sv y (- 2)" 0]
    by (simp add: hundredths_to_seconds_def sf_defs rescale_defs)
  have "hundredths_to_seconds (min u32_max (100 * x)) = (if 100 * x \<le> u32_max then x else 42949673)"
    using assms down [of "min u32_max (100 * x)"] round_half_away_exact [of 100 x]
    by (auto simp: min_def mult.commute round_half_away_def u32_max_def)
  with up show ?thesis by simp
qed

section \<open>Witnesses\<close>

definition example_capabilities :: capabilities where
  "example_capabilities =
    \<lparr> c_w_max_rtg = Some (new_sv 500 1), c_w_ovr_ext_rtg = None, c_w_ovr_ext_rtg_pf = None,
      c_w_und_ext_rtg = None, c_w_und_ext_rtg_pf = None, c_va_max_rtg = Some (new_sv 550 1),
      c_var_max_inj_rtg = Some (new_sv 220 1), c_var_max_abs_rtg = Some (new_sv 220 1),
      c_w_cha_rte_max_rtg = None, c_va_cha_rte_max_rtg = None, c_v_nom_rtg = Some (new_sv 230 0),
      c_v_max_rtg = None, c_v_min_rtg = None, c_ctrl_modes = Some [MaxW, LfTrip],
      c_react_suscept_rtg = None \<rparr>"

lemma example_capability_succeeds: "\<exists>c. to_der_capability example_capabilities = Inr c"
  by (simp add: to_der_capability_def example_capabilities_def try_mandatory_def quantity_conversions
      u16_to_int16_def i16_max_def i16_to_potm_def)

theorem capability_lossless_witness:
  "\<exists>c. to_der_capability example_capabilities = Inr c \<and> active_power_sv (rtg_max_w c) = new_sv 500 1"
proof -
  obtain c where "to_der_capability example_capabilities = Inr c"
    using example_capability_succeeds by blast
  with capability_lossless [OF this] show ?thesis by (simp add: example_capabilities_def)
qed

theorem capability_succeeds_iff_witness:
  "\<exists>c. to_der_capability example_capabilities = Inr c"
  using capability_succeeds_iff [of example_capabilities]
  by (simp add: example_capabilities_def i16_max_def)

theorem meter_readings_complete_witness:
  "\<exists>rs. to_meter_readings 7 \<lparr>mt_w = Some 5, mt_wl1 = None, mt_wl2 = None, mt_wl3 = None, mt_w_sf = Some 2,
      mt_var = None, mt_var_sf = None, mt_voltages = [(2301, LNV)], mt_v_sf = Some (- 1), mt_hz = None,
      mt_hz_sf = None\<rparr> = Inr rs \<and>
     map reading_summary rs =
       [(''w'', Some Uom_W, Some 2, 5, 7), (''voltage_LNV'', Some Uom_Voltage, Some (- 1), 2301, 7)]"
proof -
  let ?mt = "\<lparr>mt_w = Some 5, mt_wl1 = None, mt_wl2 = None, mt_wl3 = None, mt_w_sf = Some 2,
      mt_var = None, mt_var_sf = None, mt_voltages = [(2301, LNV)], mt_v_sf = Some (- 1), mt_hz = None,
      mt_hz_sf = None\<rparr>"
  have "\<exists>rs. to_meter_readings 7 ?mt = Inr rs"
    by (simp add: to_meter_readings_def quantity_template_def voltage_reading_def i16_to_potm_def)
  then obtain rs where rs: "to_meter_readings 7 ?mt = Inr rs" by blast
  then show ?thesis using meter_readings_complete [OF rs] by (simp add: map_filter_simps)
qed

theorem state_of_charge_valid_witness:
  "soc_value (to_soc_status 0 (new_sv 101 0)) = 10000"
  using state_of_charge_valid [of "new_sv 101 0" 0] u16.rescale_finer [of "new_sv 101 0" "- 2"]
  by (simp add: u16_max_def rescale_defs)

theorem delay_roundtrip_witness:
  "hundredths_to_seconds (seconds_to_hundredths 300) = 300"
  using delay_roundtrip [of 300] by (auto simp: u32_max_def)

end
