(* ===== verification/Translation_Params.thy ===== *)
theory Translation_Params
  imports Translation
begin

text \<open>
  The second half of \<^verbatim>\<open>src/translation.rs\<close>: from the control attributes of the scheduler to
  the parameters the Modbus connection writes. The build feature
  \<^verbatim>\<open>map-imp-exp-site-limits\<close> is the parameter \<open>site_limits\<close>. The lemmas show which
  registers a control leads to and that the pairs of enable, mode and value stay consistent.
\<close>

section \<open>Enumerations\<close>

definition bool_to_enable :: "bool \<Rightarrow> enable" where
  "bool_to_enable b = (if b then Enabled else Disabled)"

definition bool_to_excitation :: "bool \<Rightarrow> excitation" where
  "bool_to_excitation b = (if b then UnderExcited else OverExcited)"

fun to_var_set_mod :: "der_unit_ref \<Rightarrow> conv_error + var_set_mod" where
  "to_var_set_mod SetMaxW = Inr VS_WMaxPct"
| "to_var_set_mod SetMaxVar = Inr VS_VarMaxPct"
| "to_var_set_mod StatVarAvail = Inr VS_VarAvailPct"
| "to_var_set_mod _ = Inl UnmappableInvalid"

fun to_dept_ref_705 :: "der_unit_ref \<Rightarrow> conv_error + dept_ref_705" where
  "to_dept_ref_705 SetMaxW = Inr VV_WMaxPct"
| "to_dept_ref_705 SetMaxVar = Inr VV_VarMaxPct"
| "to_dept_ref_705 StatVarAvail = Inr VV_VarAvalPct"
| "to_dept_ref_705 _ = Inl UnmappableInvalid"

fun to_dept_ref_706 :: "der_unit_ref \<Rightarrow> conv_error + dept_ref_706" where
  "to_dept_ref_706 SetMaxW = Inr VW_WMaxPct"
| "to_dept_ref_706 StatWAvail = Inr VW_WAvalPct"
| "to_dept_ref_706 _ = Inl UnmappableInvalid"

section \<open>Values\<close>

definition to_model711_ctl :: "freq_droop \<Rightarrow> model711_ctl" where
  "to_model711_ctl d =
    \<lparr> db_of = new_sv (fd_d_bof d) SEP2_THOUSANDTHS_SF,
      db_uf = new_sv (fd_d_buf d) SEP2_THOUSANDTHS_SF,
      k_of = new_sv (fd_k_of d) SEP2_THOUSANDTHS_SF,
      k_uf = new_sv (fd_k_uf d) SEP2_THOUSANDTHS_SF,
      rsp_tms = new_sv (fd_open_loop_tms d) SEP2_HUNDREDTHS_SF \<rparr>"

definition active_power_to_scaled :: "active_power \<Rightarrow> scaled_value" where
  "active_power_to_scaled p = new_sv (ap_value p) (potm_to_i16 (ap_multiplier p))"

definition hundredths :: "int option \<Rightarrow> scaled_value option" where
  "hundredths x = map_option (\<lambda>val. new_sv val SEP2_HUNDREDTHS_SF) x"

definition import_site_limit_to_wset :: "bool \<Rightarrow> der_control_base \<Rightarrow> scaled_value option" where
  "import_site_limit_to_wset site_limits base =
    (if site_limits then
       map_option (\<lambda>active_power.
         (let w_set = active_power_to_scaled active_power
          in new_sv (- \<bar>sv_value w_set\<bar>) (sv_sf w_set))) (op_mod_imp_lim_w base)
     else None)"

definition export_site_limit_to_wmaxlim :: "bool \<Rightarrow> der_control_base \<Rightarrow> scaled_value option" where
  "export_site_limit_to_wmaxlim site_limits base =
    (if site_limits then
       map_option (\<lambda>active_power.
         (let w_max_lim = active_power_to_scaled active_power
          in new_sv \<bar>sv_value w_max_lim\<bar> (sv_sf w_max_lim))) (op_mod_exp_lim_w base)
     else None)"

section \<open>Curves\<close>

datatype axis_order = Same | Flipped

definition convert_curve ::
  "(int \<Rightarrow> conv_error + int) \<Rightarrow> (int \<Rightarrow> conv_error + int) \<Rightarrow> der_curve \<Rightarrow> axis_order \<Rightarrow> conv_error + curve" where
  "convert_curve try_x try_y input axis_order =
    (case axis_order of
       Same \<Rightarrow>
         rbind (rmapM (\<lambda>point. rbind (try_x (cd_xvalue point)) (\<lambda>x.
             rbind (try_y (cd_yvalue point)) (\<lambda>y. Inr (x, y)))) (cv_curve_data input)) (\<lambda>points.
         Inr \<lparr>cu_points = points, cu_sf_x = potm_to_i16 (cv_x_multiplier input),
              cu_sf_y = potm_to_i16 (cv_y_multiplier input)\<rparr>)
     | Flipped \<Rightarrow>
         rbind (rmapM (\<lambda>point. rbind (try_x (cd_yvalue point)) (\<lambda>x.
             rbind (try_y (cd_xvalue point)) (\<lambda>y. Inr (x, y)))) (cv_curve_data input)) (\<lambda>points.
         Inr \<lparr>cu_points = points, cu_sf_x = potm_to_i16 (cv_y_multiplier input),
              cu_sf_y = potm_to_i16 (cv_x_multiplier input)\<rparr>))"

text \<open>\<^verbatim>\<open>get_curve_data\<close>: the curve of a link, as the scheduler sent it along.\<close>

definition get_curve_data :: "control_attributes \<Rightarrow> href option \<Rightarrow> der_curve option" where
  "get_curve_data attrs link = Option.bind link (map_of (ca_curves attrs))"

text \<open>A volt curve is a \<^verbatim>\<open>Curve<u16, i16>\<close>, a voltage trip curve a \<^verbatim>\<open>Curve<u16, u32>\<close>, a
  frequency trip curve a \<^verbatim>\<open>Curve<u32, u32>\<close>.\<close>

definition volt_curve :: "der_curve option \<Rightarrow> conv_error + curve option" where
  "volt_curve c = try_option (\<lambda>c. convert_curve int32_to_u16 int32_to_i16 c Same) c"

definition volt_trip_curve :: "control_attributes \<Rightarrow> href option \<Rightarrow> conv_error + curve option" where
  "volt_trip_curve attrs link =
    try_option (\<lambda>c. convert_curve int32_to_u16 int32_to_u32 c Flipped) (get_curve_data attrs link)"

definition freq_trip_curve :: "control_attributes \<Rightarrow> href option \<Rightarrow> conv_error + curve option" where
  "freq_trip_curve attrs link =
    try_option (\<lambda>c. convert_curve int32_to_u32 int32_to_u32 c Flipped) (get_curve_data attrs link)"

section \<open>The translation\<close>

text \<open>Table F.12 to E.12: the set point, from a target or from an import limit.\<close>

definition w_set_of :: "bool \<Rightarrow> der_control_base \<Rightarrow> scaled_value option" where
  "w_set_of site_limits base =
    (let target_w = map_option active_power_to_scaled (op_mod_target_w base);
         site_limit_w = import_site_limit_to_wset site_limits base
     in or_else target_w site_limit_w)"

definition w_set_is_import :: "bool \<Rightarrow> der_control_base \<Rightarrow> bool" where
  "w_set_is_import site_limits base \<longleftrightarrow>
     op_mod_target_w base = None \<and> is_some (import_site_limit_to_wset site_limits base)"

fun w_set_mod_of :: "int option \<Rightarrow> scaled_value option \<Rightarrow> w_set_mod option" where
  "w_set_mod_of None None = None"
| "w_set_mod_of (Some _) None = Some WS_WMaxPct"
| "w_set_mod_of None (Some _) = Some WS_Watts"
| "w_set_mod_of (Some _) (Some _) = Some WS_WMaxPct"

definition vref_auto_tms_of :: "der_curve option \<Rightarrow> conv_error + int option" where
  "vref_auto_tms_of c =
    try_option (\<lambda>val. uint32_to_u16 (hundredths_to_seconds val))
      (Option.bind c cv_autonomous_v_ref_time_constant)"

definition to_parameters :: "bool \<Rightarrow> control_attributes \<Rightarrow> named_error + parameters" where
  "to_parameters site_limits attrs =
    (let inner = ca_inner attrs;
         base = dd_base inner;
         fixed_w = op_mod_fixed_w base;
         w_set = w_set_of site_limits base;
         volt_var = get_curve_data attrs (op_mod_volt_var base);
         volt_watt = get_curve_data attrs (op_mod_volt_watt base)
     in
    field ''der_volt_var'' (volt_curve volt_var) (\<lambda>vv.
    field ''der_volt_var_dept_ref'' (try_option (\<lambda>c. to_dept_ref_705 (cv_y_ref_type c)) volt_var) (\<lambda>vv_ref.
    field ''vref_auto_tms'' (vref_auto_tms_of volt_var) (\<lambda>auto_tms.
    field ''var_set_mod'' (try_option (\<lambda>var. to_var_set_mod (fv_ref_type var)) (op_mod_fixed_var base))
      (\<lambda>var_mod.
    field ''der_volt_watt'' (volt_curve volt_watt) (\<lambda>vw.
    field ''der_volt_watt_dept_ref'' (try_option (\<lambda>c. to_dept_ref_706 (cv_y_ref_type c)) volt_watt) (\<lambda>vw_ref.
    field ''der_trip_lv_must'' (volt_trip_curve attrs (op_mod_lvrt_must_trip base)) (\<lambda>lv_must.
    field ''der_trip_lv_may'' (volt_trip_curve attrs (op_mod_lvrt_may_trip base)) (\<lambda>lv_may.
    field ''der_trip_lv_mom_cess'' (volt_trip_curve attrs (op_mod_lvrt_momentary_cessation base)) (\<lambda>lv_mom.
    field ''der_trip_hv_must'' (volt_trip_curve attrs (op_mod_hvrt_must_trip base)) (\<lambda>hv_must.
    field ''der_trip_hv_may'' (volt_trip_curve attrs (op_mod_hvrt_may_trip base)) (\<lambda>hv_may.
    field ''der_trip_hv_mom_cess'' (volt_trip_curve attrs (op_mod_hvrt_momentary_cessation base)) (\<lambda>hv_mom.
    field ''der_trip_lf_must'' (freq_trip_curve attrs (op_mod_lfrt_must_trip base)) (\<lambda>lf_must.
    field ''der_trip_lf_may'' (freq_trip_curve attrs (op_mod_lfrt_may_trip base)) (\<lambda>lf_may.
    field ''der_trip_hf_must'' (freq_trip_curve attrs (op_mod_hfrt_must_trip base)) (\<lambda>hf_must.
    field ''der_trip_hf_may'' (freq_trip_curve attrs (op_mod_hfrt_may_trip base)) (\<lambda>hf_may.
    field ''esv_hi'' (try_option int16_to_u16 (set_es_high_volt inner)) (\<lambda>esv_hi.
    field ''esv_lo'' (try_option int16_to_u16 (set_es_low_volt inner)) (\<lambda>esv_lo.
    Inr
      \<lparr> p_pfw_inj_ena = Some (bool_to_enable (is_some (op_mod_fixed_pf_inject_w base))),
        p_pfw_inj_pf = map_option (\<lambda>pfw. new_sv (pfe_displacement pfw) (potm_to_i16 (pfe_multiplier pfw)))
          (op_mod_fixed_pf_inject_w base),
        p_pfw_inj_ext = map_option (\<lambda>pfw. bool_to_excitation (pfe_excitation pfw))
          (op_mod_fixed_pf_inject_w base),
        p_pfw_abs_ena = Some (bool_to_enable (is_some (op_mod_fixed_pf_absorb_w base))),
        p_pfw_abs_pf = map_option (\<lambda>pfw. new_sv (pfe_displacement pfw) (potm_to_i16 (pfe_multiplier pfw)))
          (op_mod_fixed_pf_absorb_w base),
        p_pfw_abs_ext = map_option (\<lambda>pfw. bool_to_excitation (pfe_excitation pfw))
          (op_mod_fixed_pf_absorb_w base),
        p_vref = hundredths (Option.bind volt_var cv_v_ref),
        p_vref_auto_ena = map_option (\<lambda>c. bool_to_enable
          (case cv_autonomous_v_ref_enable c of None \<Rightarrow> False | Some b \<Rightarrow> b)) volt_var,
        p_vref_auto_tms = auto_tms,
        p_der_volt_var = vv,
        p_der_volt_var_tms = hundredths (Option.bind volt_var cv_open_loop_tms),
        p_der_volt_var_dept_ref = vv_ref,
        p_der_volt_watt = vw,
        p_der_volt_watt_tms = hundredths (Option.bind volt_watt cv_open_loop_tms),
        p_der_volt_watt_dept_ref = vw_ref,
        p_var_set_ena = Some (bool_to_enable (is_some (op_mod_fixed_var base))),
        p_var_set_mod = var_mod,
        p_var_set_pct = hundredths (map_option fv_value (op_mod_fixed_var base)),
        p_der_trip_lv_must = lv_must, p_der_trip_lv_may = lv_may, p_der_trip_lv_mom_cess = lv_mom,
        p_der_trip_hv_must = hv_must, p_der_trip_hv_may = hv_may, p_der_trip_hv_mom_cess = hv_mom,
        p_der_trip_lf_must = lf_must, p_der_trip_lf_may = lf_may,
        p_der_trip_hf_must = hf_must, p_der_trip_hf_may = hf_may,
        p_droop_ctl = map_option to_model711_ctl (op_mod_freq_droop base),
        p_es = map_option bool_to_enable (op_mod_connect base),
        p_esv_hi = hundredths esv_hi,
        p_esv_lo = hundredths esv_lo,
        p_es_hz_hi = hundredths (set_es_high_freq inner),
        p_es_hz_lo = hundredths (set_es_low_freq inner),
        p_es_dly_tms = map_option hundredths_to_seconds (set_es_delay inner),
        p_es_rnd_tms = map_option hundredths_to_seconds (set_es_random_delay inner),
        p_es_rmp_tms = map_option hundredths_to_seconds (set_es_ramp_tms inner),
        p_w_max_lim_pct_ena = Some (bool_to_enable (is_some (op_mod_max_lim_w base))),
        p_w_max_lim_pct = hundredths (op_mod_max_lim_w base),
        p_w_set_pct = hundredths fixed_w,
        p_w_set_ena = Some (bool_to_enable (is_some fixed_w \<or> is_some w_set)),
        p_w_set_mod = w_set_mod_of fixed_w w_set,
        p_w_set = w_set,
        p_w_set_is_import_site_limit = w_set_is_import site_limits base,
        p_w_max_lim = export_site_limit_to_wmaxlim site_limits base \<rparr>)))))))))))))))))))"

section \<open>When it succeeds\<close>

lemma ex_rmapM: "(\<exists>ys. rmapM f xs = Inr ys) \<longleftrightarrow> (\<forall>x \<in> set xs. \<exists>y. f x = Inr y)"
  by (induction xs) (auto simp: rbind_eq_Inr)

lemma ex_rbind2:
  "(\<exists>z. rbind r1 (\<lambda>x. rbind r2 (\<lambda>y. Inr (x, y))) = Inr z) \<longleftrightarrow> (\<exists>x. r1 = Inr x) \<and> (\<exists>y. r2 = Inr y)"
  by (auto simp: rbind_eq_Inr)

lemma ex_rbind: "(\<exists>z. rbind r k = Inr z) \<longleftrightarrow> (\<exists>x. r = Inr x \<and> (\<exists>z. k x = Inr z))"
  by (auto simp: rbind_eq_Inr)

lemma ex_int: "(\<exists>y. int32_to_u16 x = Inr y) \<longleftrightarrow> 0 \<le> x \<and> x \<le> u16_max"
  "(\<exists>y. int32_to_i16 x = Inr y) \<longleftrightarrow> i16_min \<le> x \<and> x \<le> i16_max"
  "(\<exists>y. int32_to_u32 x = Inr y) \<longleftrightarrow> 0 \<le> x"
  "(\<exists>y. int16_to_u16 x = Inr y) \<longleftrightarrow> 0 \<le> x"
  "(\<exists>y. uint32_to_u16 x = Inr y) \<longleftrightarrow> x \<le> u16_max"
  by (auto simp: int_conversions)

lemma ex_convert_curve:
  "(\<exists>c. convert_curve tx ty d Same = Inr c) \<longleftrightarrow>
     (\<forall>p \<in> set (cv_curve_data d). (\<exists>x. tx (cd_xvalue p) = Inr x) \<and> (\<exists>y. ty (cd_yvalue p) = Inr y))"
  "(\<exists>c. convert_curve tx ty d Flipped = Inr c) \<longleftrightarrow>
     (\<forall>p \<in> set (cv_curve_data d). (\<exists>x. tx (cd_yvalue p) = Inr x) \<and> (\<exists>y. ty (cd_xvalue p) = Inr y))"
  by (simp_all add: convert_curve_def ex_rbind ex_rmapM ex_rbind2 del: rmapM.simps)
    (simp_all flip: ex_rmapM ex_rbind2)

lemma ex_unit_ref:
  "(\<exists>r. to_var_set_mod u = Inr r) \<longleftrightarrow> u \<in> {SetMaxW, SetMaxVar, StatVarAvail}"
  "(\<exists>r. to_dept_ref_705 u = Inr r) \<longleftrightarrow> u \<in> {SetMaxW, SetMaxVar, StatVarAvail}"
  "(\<exists>r. to_dept_ref_706 u = Inr r) \<longleftrightarrow> u \<in> {SetMaxW, StatWAvail}"
  by (cases u; simp)+

text \<open>The points of a curve that fit the widths of its registers.\<close>

definition volt_curve_fits :: "der_curve \<Rightarrow> bool" where
  "volt_curve_fits d \<longleftrightarrow> (\<forall>p \<in> set (cv_curve_data d). 0 \<le> cd_xvalue p \<and> cd_xvalue p \<le> u16_max \<and>
     i16_min \<le> cd_yvalue p \<and> cd_yvalue p \<le> i16_max)"

definition volt_trip_fits :: "der_curve \<Rightarrow> bool" where
  "volt_trip_fits d \<longleftrightarrow> (\<forall>p \<in> set (cv_curve_data d). 0 \<le> cd_yvalue p \<and> cd_yvalue p \<le> u16_max \<and>
     0 \<le> cd_xvalue p)"

definition freq_trip_fits :: "der_curve \<Rightarrow> bool" where
  "freq_trip_fits d \<longleftrightarrow> (\<forall>p \<in> set (cv_curve_data d). 0 \<le> cd_yvalue p \<and> 0 \<le> cd_xvalue p)"

lemma ex_curves:
  "(\<exists>c. volt_curve x = Inr c) \<longleftrightarrow> (\<forall>d \<in> set_option x. volt_curve_fits d)"
  "(\<exists>c. volt_trip_curve attrs l = Inr c) \<longleftrightarrow> (\<forall>d \<in> set_option (get_curve_data attrs l). volt_trip_fits d)"
  "(\<exists>c. freq_trip_curve attrs l = Inr c) \<longleftrightarrow> (\<forall>d \<in> set_option (get_curve_data attrs l). freq_trip_fits d)"
  by (simp_all only: volt_curve_def volt_trip_curve_def freq_trip_curve_def ex_try_option
      ex_convert_curve ex_int volt_curve_fits_def volt_trip_fits_def freq_trip_fits_def conj_assoc)

text \<open>The points of a converted curve.\<close>

lemma convert_curve_points:
  assumes "convert_curve tx ty d axis = Inr c" "\<And>x y. tx x = Inr y \<Longrightarrow> y = x" "\<And>x y. ty x = Inr y \<Longrightarrow> y = x"
  shows "c = (case axis of
      Same \<Rightarrow> \<lparr>cu_points = map (\<lambda>p. (cd_xvalue p, cd_yvalue p)) (cv_curve_data d),
        cu_sf_x = potm_to_i16 (cv_x_multiplier d), cu_sf_y = potm_to_i16 (cv_y_multiplier d)\<rparr>
    | Flipped \<Rightarrow> \<lparr>cu_points = map (\<lambda>p. (cd_yvalue p, cd_xvalue p)) (cv_curve_data d),
        cu_sf_x = potm_to_i16 (cv_y_multiplier d), cu_sf_y = potm_to_i16 (cv_x_multiplier d)\<rparr>)"
proof -
  have points: "ps = map (\<lambda>p. (f p, g p)) xs"
    if "rmapM (\<lambda>p. rbind (tx (f p)) (\<lambda>x. rbind (ty (g p)) (\<lambda>y. Inr (x, y)))) xs = Inr ps"
    for f g and xs :: "curve_data list" and ps
    using that
  proof (induction xs arbitrary: ps)
    case (Cons p xs)
    then show ?case using assms(2,3) by (auto simp: result_simps)
  qed simp
  show ?thesis
    using assms(1) points
    by (cases axis) (auto simp: convert_curve_def rbind_eq_Inr)
qed

lemma int_identity:
  "int32_to_u16 x = Inr y \<Longrightarrow> y = x" "int32_to_i16 x = Inr y \<Longrightarrow> y = x" "int32_to_u32 x = Inr y \<Longrightarrow> y = x"
  by (auto simp: int_conversions split: if_splits)

lemma try_option_None: "try_option f x = Inr y \<Longrightarrow> y = None \<longleftrightarrow> x = None"
  by (cases x) (auto simp: result_simps)

text \<open>The curves as the server has drawn them, and with their axes exchanged.\<close>

definition same_axes :: "der_curve \<Rightarrow> curve" where
  "same_axes d = \<lparr>cu_points = map (\<lambda>p. (cd_xvalue p, cd_yvalue p)) (cv_curve_data d),
     cu_sf_x = potm_to_i16 (cv_x_multiplier d), cu_sf_y = potm_to_i16 (cv_y_multiplier d)\<rparr>"

definition exchanged_axes :: "der_curve \<Rightarrow> curve" where
  "exchanged_axes d = \<lparr>cu_points = map (\<lambda>p. (cd_yvalue p, cd_xvalue p)) (cv_curve_data d),
     cu_sf_x = potm_to_i16 (cv_y_multiplier d), cu_sf_y = potm_to_i16 (cv_x_multiplier d)\<rparr>"

lemma volt_curve_eq: "volt_curve c = Inr r \<Longrightarrow> r = map_option same_axes c"
  by (cases c) (auto simp: volt_curve_def result_simps same_axes_def
      dest: convert_curve_points [OF _ int_identity(1,2)])

lemma volt_trip_curve_eq: "volt_trip_curve attrs l = Inr r \<Longrightarrow> r = map_option exchanged_axes (get_curve_data attrs l)"
  by (cases "get_curve_data attrs l") (auto simp: volt_trip_curve_def result_simps exchanged_axes_def
      dest: convert_curve_points [OF _ int_identity(1,3)])

lemma freq_trip_curve_eq: "freq_trip_curve attrs l = Inr r \<Longrightarrow> r = map_option exchanged_axes (get_curve_data attrs l)"
  by (cases "get_curve_data attrs l") (auto simp: freq_trip_curve_def result_simps exchanged_axes_def
      dest: convert_curve_points [OF _ int_identity(3,3)])

section \<open>Properties\<close>


text \<open>
  C29: site limits, with the feature enabled. An import limit becomes a set point that never asks
  for export: minus the limit's magnitude, at its scale; a target for the device itself takes
  precedence over it. An export limit becomes a limit of the same magnitude. Without the feature
  neither limit has any effect.
\<close>

theorem site_limits_mapped:
  assumes "to_parameters site_limits attrs = Inr p" "base = dd_base (ca_inner attrs)"
  shows "(p_w_set_is_import_site_limit p \<longleftrightarrow>
      site_limits \<and> op_mod_target_w base = None \<and> op_mod_imp_lim_w base \<noteq> None) \<and>
    p_w_set p =
      (case op_mod_target_w base of
         Some t \<Rightarrow> Some (active_power_to_scaled t)
       | None \<Rightarrow> if site_limits then map_option (\<lambda>l. new_sv (- \<bar>ap_value l\<bar>) (potm_to_i16 (ap_multiplier l)))
           (op_mod_imp_lim_w base) else None) \<and>
    p_w_max_lim p =
      (if site_limits then map_option (\<lambda>l. new_sv \<bar>ap_value l\<bar> (potm_to_i16 (ap_multiplier l)))
         (op_mod_exp_lim_w base) else None)"
proof -
  have "p_w_set_is_import_site_limit p = w_set_is_import site_limits base"
    "p_w_set p = w_set_of site_limits base" "p_w_max_lim p = export_site_limit_to_wmaxlim site_limits base"
    using assms(1) unfolding to_parameters_def Let_def field_eq_Inr sum.inject assms(2)
    by (elim exE conjE, hypsubst_thin, simp only: parameters.select_convs)+
  then show ?thesis
    by (auto simp: w_set_is_import_def w_set_of_def import_site_limit_to_wset_def
        export_site_limit_to_wmaxlim_def active_power_to_scaled_def Let_def is_some_iff
        split: option.split)
qed

text \<open>
  C30: the axes of all ten trip curves are exchanged, those of the two volt curves are not. Each curve the
  device is given is the one the scheduler sent along for the link of that function, and none when there is
  none; its points are those of the server, in order and with their scale factors. For trip curves the
  axes are exchanged, because SEP2 plots voltage or frequency over time and SunSpec time over them.
\<close>

theorem curves_transposed:
  assumes "to_parameters site_limits attrs = Inr p" "base = dd_base (ca_inner attrs)"
    and "curve = (\<lambda>link. get_curve_data attrs (link base))"
  shows "p_der_trip_lv_must p = map_option exchanged_axes (curve op_mod_lvrt_must_trip) \<and>
    p_der_trip_lv_may p = map_option exchanged_axes (curve op_mod_lvrt_may_trip) \<and>
    p_der_trip_lv_mom_cess p = map_option exchanged_axes (curve op_mod_lvrt_momentary_cessation) \<and>
    p_der_trip_hv_must p = map_option exchanged_axes (curve op_mod_hvrt_must_trip) \<and>
    p_der_trip_hv_may p = map_option exchanged_axes (curve op_mod_hvrt_may_trip) \<and>
    p_der_trip_hv_mom_cess p = map_option exchanged_axes (curve op_mod_hvrt_momentary_cessation) \<and>
    p_der_trip_lf_must p = map_option exchanged_axes (curve op_mod_lfrt_must_trip) \<and>
    p_der_trip_lf_may p = map_option exchanged_axes (curve op_mod_lfrt_may_trip) \<and>
    p_der_trip_hf_must p = map_option exchanged_axes (curve op_mod_hfrt_must_trip) \<and>
    p_der_trip_hf_may p = map_option exchanged_axes (curve op_mod_hfrt_may_trip) \<and>
    p_der_volt_var p = map_option same_axes (curve op_mod_volt_var) \<and>
    p_der_volt_watt p = map_option same_axes (curve op_mod_volt_watt)"
  using assms(1) unfolding to_parameters_def Let_def field_eq_Inr sum.inject assms(2,3)
  by (elim exE conjE, hypsubst_thin)
    (simp only: parameters.select_convs volt_trip_curve_eq freq_trip_curve_eq volt_curve_eq simp_thms)

text \<open>
  C28: exactly when the parameters can be derived. The curves that are used must fit their
  registers, their reference and that of a fixed reactive power must be ones SunSpec knows, the
  time constant of the voltage reference must fit 16 bits and the voltage settings must not be
  negative. Nothing else the server may send makes the translation fail.
\<close>

theorem translation_succeeds_iff:
  "(\<exists>p. to_parameters site_limits attrs = Inr p) \<longleftrightarrow>
    (let base = dd_base (ca_inner attrs); curve = get_curve_data attrs in
     (\<forall>d \<in> set_option (curve (op_mod_volt_var base)). volt_curve_fits d) \<and>
     (\<forall>d \<in> set_option (curve (op_mod_volt_var base)).
        cv_y_ref_type d \<in> {SetMaxW, SetMaxVar, StatVarAvail}) \<and>
     (\<forall>t \<in> set_option (Option.bind (curve (op_mod_volt_var base)) cv_autonomous_v_ref_time_constant).
        hundredths_to_seconds t \<le> u16_max) \<and>
     (\<forall>v \<in> set_option (op_mod_fixed_var base). fv_ref_type v \<in> {SetMaxW, SetMaxVar, StatVarAvail}) \<and>
     (\<forall>d \<in> set_option (curve (op_mod_volt_watt base)). volt_curve_fits d) \<and>
     (\<forall>d \<in> set_option (curve (op_mod_volt_watt base)). cv_y_ref_type d \<in> {SetMaxW, StatWAvail}) \<and>
     (\<forall>d \<in> set_option (curve (op_mod_lvrt_must_trip base)). volt_trip_fits d) \<and>
     (\<forall>d \<in> set_option (curve (op_mod_lvrt_may_trip base)). volt_trip_fits d) \<and>
     (\<forall>d \<in> set_option (curve (op_mod_lvrt_momentary_cessation base)). volt_trip_fits d) \<and>
     (\<forall>d \<in> set_option (curve (op_mod_hvrt_must_trip base)). volt_trip_fits d) \<and>
     (\<forall>d \<in> set_option (curve (op_mod_hvrt_may_trip base)). volt_trip_fits d) \<and>
     (\<forall>d \<in> set_option (curve (op_mod_hvrt_momentary_cessation base)). volt_trip_fits d) \<and>
     (\<forall>d \<in> set_option (curve (op_mod_lfrt_must_trip base)). freq_trip_fits d) \<and>
     (\<forall>d \<in> set_option (curve (op_mod_lfrt_may_trip base)). freq_trip_fits d) \<and>
     (\<forall>d \<in> set_option (curve (op_mod_hfrt_must_trip base)). freq_trip_fits d) \<and>
     (\<forall>d \<in> set_option (curve (op_mod_hfrt_may_trip base)). freq_trip_fits d) \<and>
     (\<forall>v \<in> set_option (set_es_high_volt (ca_inner attrs)). 0 \<le> v) \<and>
     (\<forall>v \<in> set_option (set_es_low_volt (ca_inner attrs)). 0 \<le> v))"
  by (simp only: to_parameters_def Let_def ex_field sum.inject simp_thms ex_simps ex_curves
      ex_try_option ex_unit_ref ex_int vref_auto_tms_of_def conj_assoc)

section \<open>Witnesses\<close>

definition example_curve :: der_curve where
  "example_curve =
    \<lparr> cv_href = Some ''c'', cv_mrid = 5, cv_curve_data = [\<lparr>cd_xvalue = 92, cd_yvalue = 44\<rparr>,
        \<lparr>cd_xvalue = 110, cd_yvalue = 0\<rparr>],
      cv_x_multiplier = PotNone, cv_y_multiplier = Centi, cv_y_ref_type = SetMaxVar,
      cv_open_loop_tms = Some 500, cv_v_ref = None, cv_autonomous_v_ref_enable = None,
      cv_autonomous_v_ref_time_constant = None \<rparr>"

definition example_attributes :: control_attributes where
  "example_attributes =
    \<lparr> ca_inner = default_default_der_control\<lparr>dd_base := default_der_control_base
        \<lparr> op_mod_volt_var := Some ''c'', op_mod_lvrt_must_trip := Some ''c'',
          op_mod_imp_lim_w := Some \<lparr>ap_value = 1500, ap_multiplier = PotNone\<rparr> \<rparr>\<rparr>,
      ca_curves = [(''c'', example_curve)] \<rparr>"

lemmas example_attribute_defs = example_attributes_def example_curve_def
  default_default_der_control_def default_der_control_base_def get_curve_data_def

theorem translation_succeeds_iff_witness:
  "\<exists>p. to_parameters True example_attributes = Inr p"
  by (subst translation_succeeds_iff)
    (simp add: example_attribute_defs volt_curve_fits_def volt_trip_fits_def int_bounds)

lemma example_translated:
  obtains p where "to_parameters True example_attributes = Inr p"
proof -
  have "\<exists>p. to_parameters True example_attributes = Inr p"
    by (simp only: to_parameters_def Let_def ex_field sum.inject simp_thms ex_simps ex_curves
        ex_try_option ex_unit_ref ex_int vref_auto_tms_of_def)
      (simp add: example_attribute_defs volt_curve_fits_def volt_trip_fits_def int_bounds)
  then show thesis using that by blast
qed


theorem site_limits_mapped_witness:
  "\<exists>p. to_parameters True example_attributes = Inr p \<and> p_w_set p = Some (new_sv (- 1500) 0)"
proof -
  obtain p where p: "to_parameters True example_attributes = Inr p" by (rule example_translated)
  then show ?thesis
    using site_limits_mapped [OF p refl] by (auto simp: example_attribute_defs)
qed

theorem curves_transposed_witness:
  "\<exists>p. to_parameters True example_attributes = Inr p \<and>
     p_der_trip_lv_must p = Some \<lparr>cu_points = [(44, 92), (0, 110)], cu_sf_x = - 2, cu_sf_y = 0\<rparr>"
proof -
  obtain p where p: "to_parameters True example_attributes = Inr p" by (rule example_translated)
  then show ?thesis
    using curves_transposed [OF p refl refl] by (simp add: example_attribute_defs exchanged_axes_def)
qed

end
