(* ===== verification/Sep2_Connection.thy ===== *)
theory Sep2_Connection
  imports Translation "HOL-Library.Sublist"
begin

text \<open>
  \<^verbatim>\<open>src/sep2_connection.rs\<close> and \<^verbatim>\<open>src/sep2_connection/polling.rs\<close>: the task that talks to the
  SEP2 server. The package \<^verbatim>\<open>sep2_client\<close> is a parameter: a \<open>server\<close> says how every request
  is answered, given what was done before, what the clock reads and which mRIDs are generated. A
  request that fails returns the text of its error. What the task does (requests, polls, the events
  it broadcasts, the tasks it starts) is its trace of \<open>conn_action\<close>s.

  The loop body is one \<open>conn_round\<close>: it takes one command and the environment of that round, and
  returns the state for the next round, with the trace of the round. Its part after the command is
  a sequence of \<open>stage\<close>s, in the order of the code, each of which goes on to the next one,
  starts the next iteration (\<^verbatim>\<open>continue\<close>) or ends the task.
\<close>

section \<open>Commands, requests and actions\<close>

text \<open>\<^verbatim>\<open>src/lib.rs\<close>: \<^verbatim>\<open>Error\<close>.\<close>

datatype sep2_error =
  UnexpectedDevice | ServerRejected | InvalidInput string | ItemDetailsUnknown | ChannelClosed
| SignalReceived string

record control_response =
  cr_subject :: mrid
  cr_status :: response_status
  cr_reply_to :: href
  cr_time :: int

datatype conn_command =
  SendDeviceStatus der_status
| SendDeviceCapability der_capability
| SendDeviceSettings der_settings
| SendControlResponse control_response
| SendMeterReadings "mirror_meter_reading list"
| UpdatePostRates post_rates
| ResetConnection
| Wake
| SubscribeToResource href resource_kind "int option"
| UnsubscribeFromResource href

text \<open>
  Of \<^verbatim>\<open>SEDevice\<close> the LFDI and the \<^verbatim>\<open>EndDevice\<close> to post; of the arguments all but the
  client, which is the \<open>server\<close>. \<open>ca_metrics\<close>: the metrics have been initialised.
\<close>

record se_device =
  sd_lfdi :: lfdi
  sd_edev :: end_device

record conn_args =
  ca_dcap_uri :: string
  ca_max_list_size :: nat
  ca_default_poll_rate :: int
  ca_device_to_register :: se_device
  ca_expected_pin :: "int option"
  ca_pen :: int
  ca_metrics :: bool

record registration =
  rg_pin :: int

record der_control_response =
  dcr_created_date_time :: "int option"
  dcr_end_device_lfdi :: lfdi
  dcr_status :: "response_status option"
  dcr_subject :: mrid
  dcr_href :: "href option"

text \<open>What a successful POST returns: \<^verbatim>\<open>SEPResponse\<close>, of which the code names one case.\<close>

datatype sep_response = Created "href option" | OtherSuccess nat

datatype put_payload = PutSettings der_settings | PutStatus der_status | PutCapability der_capability

datatype post_payload =
  PostEndDevice end_device
| PostResponse der_control_response
| PostReading mirror_meter_reading
| PostMup mirror_usage_point

datatype conn_action =
  Get href
| Put href put_payload
| Post href post_payload
| StartPoll href int
| UpdatePollRate href int
| CancelPoll href
| Broadcast sep2_resource_event
| SpawnDcapPoll device_capability
| AbortDcapPoll
| SpawnRetry
| AbortRetry
| GenerateMrid
| CountDcapFailure

text \<open>
  The environment. Each answer may depend on everything done before in the same round; the
  environment of another round is another \<open>server\<close>. \<open>sv_clock\<close> is \<^verbatim>\<open>Instant::now()\<close> in
  nanoseconds; \<open>sv_elapsed\<close> tells whether a POST under \<^verbatim>\<open>time::timeout\<close> times out;
  \<open>sv_listening\<close> tells whether the output channel is open.
\<close>

type_synonym 'a answer = "conn_action list \<Rightarrow> href \<Rightarrow> string + 'a"

record server =
  sv_dcap :: "device_capability answer"
  sv_time :: "sep2_time answer"
  sv_end_device_list :: "end_device_list answer"
  sv_end_device :: "end_device answer"
  sv_registration :: "registration answer"
  sv_fsa_list :: "fsa_list answer"
  sv_program_list :: "der_program_list answer"
  sv_default_control :: "default_der_control answer"
  sv_control_list :: "der_control_list answer"
  sv_curve_list :: "der_curve_list answer"
  sv_der_list :: "der_list answer"
  sv_mup_list :: "mup_list answer"
  sv_put :: "conn_action list \<Rightarrow> href \<Rightarrow> put_payload \<Rightarrow> string + unit"
  sv_post :: "conn_action list \<Rightarrow> href \<Rightarrow> post_payload \<Rightarrow> string + sep_response"
  sv_elapsed :: "conn_action list \<Rightarrow> href \<Rightarrow> post_payload \<Rightarrow> bool"
  sv_clock :: "conn_action list \<Rightarrow> int"
  sv_mrid_gen :: "conn_action list \<Rightarrow> int \<Rightarrow> mrid"
  sv_listening :: bool

text \<open>A computation that talks to the server: it extends the trace and returns a value.\<close>

type_synonym 'a web = "conn_action list \<Rightarrow> 'a \<times> conn_action list"

definition get :: "'a answer \<Rightarrow> href \<Rightarrow> (string + 'a) web" where
  "get answer uri tr = (answer tr uri, tr @ [Get uri])"

definition put :: "server \<Rightarrow> href \<Rightarrow> put_payload \<Rightarrow> (string + unit) web" where
  "put sv uri payload tr = (sv_put sv tr uri payload, tr @ [Put uri payload])"

definition post :: "server \<Rightarrow> href \<Rightarrow> post_payload \<Rightarrow> (string + sep_response) web" where
  "post sv uri payload tr = (sv_post sv tr uri payload, tr @ [Post uri payload])"

definition mrid_gen :: "server \<Rightarrow> int \<Rightarrow> mrid web" where
  "mrid_gen sv pen tr = (sv_mrid_gen sv tr pen, tr @ [GenerateMrid])"

lemmas web_defs = get_def put_def post_def mrid_gen_def

section \<open>Polls\<close>

text \<open>The decimal digits of a number, as \<^verbatim>\<open>format!\<close> prints an unsigned integer.\<close>

fun decimal :: "nat \<Rightarrow> string" where
  "decimal n =
    (if n < 10 then [char_of (48 + n)] else decimal (n div 10) @ [char_of (48 + n mod 10)])"

declare decimal.simps [simp del]

definition paginated_uri :: "string \<Rightarrow> nat \<Rightarrow> string" where
  "paginated_uri uri max_list_size = uri @ ''?l='' @ decimal max_list_size"

text \<open>The poll of the client is known by the address it polls.\<close>

record established_poll =
  ep_handle :: href
  ep_poll_rate :: int

fun kind_href :: "resource_kind \<Rightarrow> href \<Rightarrow> nat \<Rightarrow> href" where
  "kind_href Time href n = href"
| "kind_href DefaultDERControl href n = href"
| "kind_href DERProgram href n = href"
| "kind_href DERControl href n = href"
| "kind_href DERCurve href n = href"
| "kind_href EndDevice href n = href"
| "kind_href FunctionSetAssignments href n = href"
| "kind_href EndDeviceList href n = paginated_uri href n"
| "kind_href FunctionSetAssignmentsList href n = paginated_uri href n"
| "kind_href DERProgramList href n = paginated_uri href n"
| "kind_href DERCurveList href n = paginated_uri href n"
| "kind_href DERControlList href n = paginated_uri href n"
| "kind_href DERList href n = paginated_uri href n"
| "kind_href MirrorUsagePointList href n = paginated_uri href n"

text \<open>
  The callback broadcasts what it is given, ignoring a closed channel; here it is called once, with
  what the initial GET returned.
\<close>

definition get_then_poll ::
  "'a answer \<Rightarrow> ('a \<Rightarrow> sep2_resource_event) \<Rightarrow> href \<Rightarrow> int \<Rightarrow> conn_action list \<Rightarrow> conn_action list" where
  "get_then_poll answer event href poll_rate tr =
    (case get answer href tr of
       (Inr output, tr') \<Rightarrow> tr' @ [Broadcast (event output), StartPoll href poll_rate]
     | (Inl err, tr') \<Rightarrow> tr' @ [StartPoll href poll_rate])"

fun start_kind :: "server \<Rightarrow> resource_kind \<Rightarrow> (href \<Rightarrow> int \<Rightarrow> conn_action list \<Rightarrow> conn_action list) option" where
  "start_kind sv Time = Some (get_then_poll (sv_time sv) EvTime)"
| "start_kind sv EndDeviceList = Some (get_then_poll (sv_end_device_list sv) EvEndDeviceList)"
| "start_kind sv FunctionSetAssignmentsList =
     Some (get_then_poll (sv_fsa_list sv) EvFunctionSetAssignmentsList)"
| "start_kind sv DERProgramList = Some (get_then_poll (sv_program_list sv) EvDERProgramList)"
| "start_kind sv DERControlList = Some (get_then_poll (sv_control_list sv) EvDERControlList)"
| "start_kind sv DefaultDERControl =
     Some (get_then_poll (sv_default_control sv) EvDefaultDERControl)"
| "start_kind sv DERCurveList = Some (get_then_poll (sv_curve_list sv) EvDERCurveList)"
| "start_kind sv DERList = Some (get_then_poll (sv_der_list sv) EvDERList)"
| "start_kind sv MirrorUsagePointList =
     Some (get_then_poll (sv_mup_list sv) EvMirrorUsagePointList)"
| "start_kind sv EndDevice = None"
| "start_kind sv FunctionSetAssignments = None"
| "start_kind sv DERProgram = None"
| "start_kind sv DERControl = None"
| "start_kind sv DERCurve = None"

definition start_poll_for ::
  "server \<Rightarrow> resource_kind \<Rightarrow> href \<Rightarrow> int \<Rightarrow> nat \<Rightarrow> established_poll option web" where
  "start_poll_for sv kind href poll_rate max_list_size tr =
    (let uri = kind_href kind href max_list_size
     in case start_kind sv kind of
          None \<Rightarrow> (None, tr)
        | Some start \<Rightarrow> (Some \<lparr>ep_handle = uri, ep_poll_rate = poll_rate\<rparr>, start uri poll_rate tr))"

section \<open>Registering the device\<close>

definition register_new_device :: "server \<Rightarrow> href \<Rightarrow> se_device \<Rightarrow> (sep2_error + end_device) web" where
  "register_new_device sv edev_link device_info tr =
    (case post sv edev_link (PostEndDevice (sd_edev device_info)) tr of
       (Inl err, tr') \<Rightarrow> (Inl ItemDetailsUnknown, tr')
     | (Inr (Created None), tr') \<Rightarrow>
         (Inl (InvalidInput ''Expected a valid href for the newly registered device''), tr')
     | (Inr (Created (Some loc)), tr') \<Rightarrow>
         (case get (sv_end_device sv) loc tr' of
            (Inl err, tr'') \<Rightarrow> (Inl ItemDetailsUnknown, tr'')
          | (Inr device, tr'') \<Rightarrow> (Inr device, tr''))
     | (Inr (OtherSuccess n), tr') \<Rightarrow> (Inl ServerRejected, tr'))"

definition ensure_device_registered ::
  "server \<Rightarrow> href \<Rightarrow> se_device \<Rightarrow> nat \<Rightarrow> (sep2_error + end_device option) web" where
  "ensure_device_registered sv edev_uri device_to_register max_list_size tr =
    (case get (sv_end_device_list sv) (paginated_uri edev_uri max_list_size) tr of
       (Inl err, tr') \<Rightarrow> (Inr None, tr')
     | (Inr edev_response, tr') \<Rightarrow>
         if edl_all edev_response = 0 then
           (case register_new_device sv edev_uri device_to_register tr' of
              (Inr device, tr'') \<Rightarrow> (Inr (Some device), tr'')
            | (Inl err, tr'') \<Rightarrow> (Inr None, tr''))
         else if edl_all edev_response = 1 then
           (case edl_end_device edev_response of
              [] \<Rightarrow> (Inl (InvalidInput ''EndDeviceList is missing an item''), tr')
            | device # _ \<Rightarrow>
                if ed_lfdi device \<noteq> Some (sd_lfdi device_to_register)
                then (Inl UnexpectedDevice, tr')
                else (Inr (Some device), tr'))
         else (Inl UnexpectedDevice, tr'))"

definition ensure_der :: "server \<Rightarrow> end_device \<Rightarrow> nat \<Rightarrow> der option web" where
  "ensure_der sv end_device max_list_size tr =
    (case ed_der_list_link end_device of
       None \<Rightarrow> (None, tr)
     | Some derl_link \<Rightarrow>
         (case get (sv_der_list sv) (paginated_uri derl_link max_list_size) tr of
            (Inl err, tr') \<Rightarrow> (None, tr')
          | (Inr derl_response, tr') \<Rightarrow>
              if length (dl_der derl_response) \<noteq> 1 then (None, tr')
              else (Some (hd (dl_der derl_response)), tr')))"

section \<open>Control responses\<close>

definition response_payload :: "lfdi \<Rightarrow> control_response \<Rightarrow> der_control_response" where
  "response_payload lfdi r =
    \<lparr>dcr_created_date_time = Some (cr_time r), dcr_end_device_lfdi = lfdi,
     dcr_status = Some (cr_status r), dcr_subject = cr_subject r, dcr_href = None\<rparr>"

definition is_failure_retriable :: "string \<Rightarrow> bool" where
  "is_failure_retriable err_s \<longleftrightarrow>
    sublist ''Connection refused'' err_s \<or>
    (sublist ''Unexpected HTTP response'' err_s \<and> sublist ''429'' err_s)"

text \<open>The POST of a response that has to be sent again: it timed out, or failed in a way that may pass.\<close>

definition retryable_error :: "server \<Rightarrow> href \<Rightarrow> post_payload \<Rightarrow> conn_action list \<Rightarrow> bool" where
  "retryable_error sv uri payload tr \<longleftrightarrow>
    (if sv_elapsed sv tr uri payload then True
     else case sv_post sv tr uri payload of
            Inr _ \<Rightarrow> False
          | Inl err \<Rightarrow> is_failure_retriable err)"

fun send_control_responses ::
  "server \<Rightarrow> lfdi \<Rightarrow> control_response list \<Rightarrow> conn_action list \<Rightarrow> (bool \<times> control_response list) \<times> conn_action list" where
  "send_control_responses sv lfdi [] tr = ((False, []), tr)"
| "send_control_responses sv lfdi (r # queue) tr =
    (let payload = PostResponse (response_payload lfdi r);
         tr' = tr @ [Post (cr_reply_to r) payload]
     in if retryable_error sv (cr_reply_to r) payload tr then ((True, r # queue), tr')
        else send_control_responses sv lfdi queue tr')"

section \<open>Meter readings\<close>

datatype cache_key = CacheKey uom "phase_code option" potm

definition reading_key :: "mirror_meter_reading \<Rightarrow> cache_key option" where
  "reading_key reading =
    (case mmr_reading_type reading of
       None \<Rightarrow> None
     | Some reading_type \<Rightarrow>
         map_option (\<lambda>unit. CacheKey unit (rt_phase reading_type)
             (case rt_multiplier reading_type of None \<Rightarrow> PotNone | Some m \<Rightarrow> m))
           (rt_uom reading_type))"

definition lookup_mup :: "server \<Rightarrow> href \<Rightarrow> lfdi \<Rightarrow> nat \<Rightarrow> mirror_usage_point option web" where
  "lookup_mup sv mupl lfdi max_list_size tr =
    (case get (sv_mup_list sv) (paginated_uri mupl max_list_size) tr of
       (Inl err, tr') \<Rightarrow> (None, tr')
     | (Inr mup_list, tr') \<Rightarrow> (find (\<lambda>mup. mup_device_lfdi mup = lfdi) (mupl_items mup_list), tr'))"

definition ensure_mup :: "conn_args \<Rightarrow> server \<Rightarrow> href \<Rightarrow> mirror_meter_reading \<Rightarrow> href option web" where
  "ensure_mup a sv mupl reading tr =
    (let lfdi = sd_lfdi (ca_device_to_register a)
     in case lookup_mup sv mupl lfdi (ca_max_list_size a) tr of
          (Some mup, tr1) \<Rightarrow>
            (case mup_href mup of
               None \<Rightarrow> (None, tr1)
             | Some href \<Rightarrow>
                 (case post sv href (PostReading reading) tr1 of
                    (Inl err, tr2) \<Rightarrow> (None, tr2)
                  | (Inr _, tr2) \<Rightarrow> (Some href, tr2)))
        | (None, tr1) \<Rightarrow>
            (let (new_mrid, tr2) = mrid_gen sv (ca_pen a) tr1
             in case post sv mupl
                       (PostMup \<lparr>mup_href = None, mup_mrid = new_mrid, mup_device_lfdi = lfdi,
                          mup_status = UsagePointOn, mup_readings = [reading], mup_post_rate = None\<rparr>) tr2 of
                  (Inr (Created (Some location)), tr3) \<Rightarrow> (Some location, tr3)
                | (Inr _, tr3) \<Rightarrow> (None, tr3)
                | (Inl err, tr3) \<Rightarrow> (None, tr3)))"

type_synonym mrid_cache = "(cache_key \<times> mrid) list"

text \<open>The readings that have a key, collected into a map: of two with the same key the later one stays.\<close>

definition initialise_reading_mrid_cache ::
  "server \<Rightarrow> device_capability \<Rightarrow> lfdi \<Rightarrow> nat \<Rightarrow> mrid_cache web" where
  "initialise_reading_mrid_cache sv dcap lfdi max_list_size tr =
    (case dcap_mup_list_link dcap of
       None \<Rightarrow> ([], tr)
     | Some mupl_link \<Rightarrow>
         (case lookup_mup sv mupl_link lfdi max_list_size tr of
            (None, tr') \<Rightarrow> ([], tr')
          | (Some mup, tr') \<Rightarrow>
              (fold (\<lambda>(key, mrid). hm_insert key mrid)
                 (List.map_filter
                    (\<lambda>reading. map_option (\<lambda>key. (key, mmr_mrid reading)) (reading_key reading))
                    (mup_readings mup)) [], tr')))"

text \<open>\<^verbatim>\<open>cache.entry(key).or_insert_with(|| mrid_gen(pen))\<close>: the mRID and the cache that has it.\<close>

definition mrid_entry :: "conn_args \<Rightarrow> server \<Rightarrow> mrid_cache \<Rightarrow> cache_key \<Rightarrow> (mrid \<times> mrid_cache) web" where
  "mrid_entry a sv cache key tr =
    (case map_of cache key of
       Some mrid \<Rightarrow> ((mrid, cache), tr)
     | None \<Rightarrow> (let (mrid, tr') = mrid_gen sv (ca_pen a) tr in ((mrid, hm_insert key mrid cache), tr')))"

text \<open>
  The loop of \<^verbatim>\<open>send_meter_readings\<close>: whether to retry, the usage point and the cache it leaves.
\<close>

fun send_readings ::
  "conn_args \<Rightarrow> server \<Rightarrow> device_capability \<Rightarrow> mirror_meter_reading list \<Rightarrow> href option \<Rightarrow> mrid_cache \<Rightarrow>
     (bool \<times> href option \<times> mrid_cache) web" where
  "send_readings a sv dcap [] mup cache tr = ((False, mup, cache), tr)"
| "send_readings a sv dcap (reading # readings) mup cache tr =
    (case reading_key reading of
       None \<Rightarrow> send_readings a sv dcap readings mup cache tr
     | Some key \<Rightarrow>
         (let ((mrid, cache'), tr1) = mrid_entry a sv cache key tr;
              modified_reading = reading\<lparr>mmr_mrid := mrid\<rparr>
          in case mup of
               Some href \<Rightarrow>
                 (case post sv href (PostReading modified_reading) tr1 of
                    (Inl err, tr2) \<Rightarrow> ((True, mup, cache'), tr2)
                  | (Inr _, tr2) \<Rightarrow> send_readings a sv dcap readings mup cache' tr2)
             | None \<Rightarrow>
                 (case dcap_mup_list_link dcap of
                    None \<Rightarrow> ((True, None, cache'), tr1)
                  | Some mupl_link \<Rightarrow>
                      (case ensure_mup a sv mupl_link modified_reading tr1 of
                         (None, tr2) \<Rightarrow> ((True, None, cache'), tr2)
                       | (Some href, tr2) \<Rightarrow>
                           send_readings a sv dcap readings (Some href) cache' tr2))))"

definition send_meter_readings ::
  "conn_args \<Rightarrow> server \<Rightarrow> device_capability \<Rightarrow> mirror_meter_reading list \<Rightarrow> href option \<Rightarrow> mrid_cache \<Rightarrow>
     (bool \<times> href option \<times> mrid_cache) web" where
  "send_meter_readings a sv dcap readings mup cache tr =
    (let (cache', tr') =
       (if cache = []
        then initialise_reading_mrid_cache sv dcap (sd_lfdi (ca_device_to_register a)) (ca_max_list_size a) tr
        else (cache, tr))
     in send_readings a sv dcap readings mup cache' tr')"

section \<open>The state of the task\<close>

text \<open>
  Instants and durations are nanoseconds. Of the retry task and of the poll of the entry point the
  state knows whether there is a handle.
\<close>

definition from_secs :: "int \<Rightarrow> int" where
  "from_secs n = n * 1000000000"

definition POST_RATE_GENERIC :: int where "POST_RATE_GENERIC = from_secs 300"
definition POST_RATE_CAPABILITIES :: int where "POST_RATE_CAPABILITIES = from_secs (24 * 3600)"
definition MAX_RESPONSE_QUEUE_SIZE :: nat where "MAX_RESPONSE_QUEUE_SIZE = 30"

record conn_state =
  cs_dcap :: "device_capability option"
  cs_server_device :: "end_device option"
  cs_registration :: "registration option"
  cs_der :: "der option"
  cs_post_rate_der :: int
  cs_post_rate_mup :: int
  cs_queue :: "control_response list"
  cs_latest_settings :: "der_settings option"
  cs_last_sent_settings :: "int option"
  cs_latest_status :: "der_status option"
  cs_last_sent_status :: "int option"
  cs_capabilities :: "der_capability option"
  cs_last_sent_capabilities :: "int option"
  cs_latest_readings :: "mirror_meter_reading list option"
  cs_last_sent_readings :: "int option"
  cs_mup :: "href option"
  cs_mrid_cache :: mrid_cache
  cs_retry_handle :: bool
  cs_retry_requested :: bool
  cs_polls :: "(href \<times> established_poll) list"
  cs_dcap_poll :: bool

definition initial_conn :: conn_state where
  "initial_conn =
    \<lparr>cs_dcap = None, cs_server_device = None, cs_registration = None, cs_der = None,
     cs_post_rate_der = POST_RATE_GENERIC, cs_post_rate_mup = POST_RATE_GENERIC, cs_queue = [],
     cs_latest_settings = None, cs_last_sent_settings = None, cs_latest_status = None,
     cs_last_sent_status = None, cs_capabilities = None, cs_last_sent_capabilities = None,
     cs_latest_readings = None, cs_last_sent_readings = None, cs_mup = None, cs_mrid_cache = [],
     cs_retry_handle = False, cs_retry_requested = False, cs_polls = [], cs_dcap_poll = False\<rparr>"

text \<open>\<^verbatim>\<open>last.is_none_or(|time| Instant::now().duration_since(time) > rate)\<close>; the difference of
  instants saturates at zero.\<close>

definition duration_since :: "int \<Rightarrow> int \<Rightarrow> int" where
  "duration_since now earlier = max 0 (now - earlier)"

fun post_due :: "int \<Rightarrow> int option \<Rightarrow> int \<Rightarrow> bool" where
  "post_due now None rate = True"
| "post_due now (Some earlier) rate = (rate < duration_since now earlier)"

section \<open>One iteration, up to the command\<close>

type_synonym world = "conn_state \<times> conn_action list"

definition manage_retry :: "world \<Rightarrow> world" where
  "manage_retry = (\<lambda>(s, tr).
    if cs_retry_requested s then
      if \<not> cs_retry_handle s then (s\<lparr>cs_retry_handle := True\<rparr>, tr @ [SpawnRetry]) else (s, tr)
    else if cs_retry_handle s then (s\<lparr>cs_retry_handle := False\<rparr>, tr @ [AbortRetry]) else (s, tr))"

datatype flow = Proceed | Continue | Fail sep2_error

type_synonym stage = "world \<Rightarrow> flow \<times> world"

definition andthen :: "stage \<Rightarrow> stage \<Rightarrow> stage" where
  "andthen m k w =
    (case m w of
       (Proceed, w') \<Rightarrow> k w'
     | (Continue, w') \<Rightarrow> (Continue, w')
     | (Fail e, w') \<Rightarrow> (Fail e, w'))"

fun stages :: "stage list \<Rightarrow> stage" where
  "stages [] w = (Proceed, w)"
| "stages (m # ms) w = andthen m (stages ms) w"

definition subscribe :: "conn_args \<Rightarrow> server \<Rightarrow> href \<Rightarrow> resource_kind \<Rightarrow> int option \<Rightarrow> world \<Rightarrow> world" where
  "subscribe a sv href kind poll_rate_opt = (\<lambda>(s, tr).
    let poll_rate = (case poll_rate_opt of None \<Rightarrow> ca_default_poll_rate a | Some r \<Rightarrow> r)
    in case map_of (cs_polls s) href of
         Some poll \<Rightarrow>
           if ep_poll_rate poll \<noteq> poll_rate
           then (s\<lparr>cs_polls := hm_insert href (poll\<lparr>ep_poll_rate := poll_rate\<rparr>) (cs_polls s)\<rparr>,
                 tr @ [UpdatePollRate (ep_handle poll) poll_rate])
           else (s, tr)
       | None \<Rightarrow>
           (case start_poll_for sv kind href poll_rate (ca_max_list_size a) tr of
              (Some poll, tr') \<Rightarrow> (s\<lparr>cs_polls := hm_insert href poll (cs_polls s)\<rparr>, tr')
            | (None, tr') \<Rightarrow> (s, tr')))"

definition unsubscribe :: "href \<Rightarrow> world \<Rightarrow> world" where
  "unsubscribe href = (\<lambda>(s, tr).
    case map_of (cs_polls s) href of
      Some poll \<Rightarrow>
        (s\<lparr>cs_polls := hm_retain (\<lambda>k _. k \<noteq> href) (cs_polls s)\<rparr>, tr @ [CancelPoll (ep_handle poll)])
    | None \<Rightarrow> (s, tr))"

text \<open>\<^verbatim>\<open>while queue.len() >= MAX_RESPONSE_QUEUE_SIZE { queue.pop_front(); }\<close>\<close>

function limit_queue :: "'a list \<Rightarrow> 'a list" where
  "limit_queue queue =
    (if MAX_RESPONSE_QUEUE_SIZE \<le> length queue then limit_queue (tl queue) else queue)"
  by pat_completeness auto
termination
  by (relation "measure length") (auto simp: MAX_RESPONSE_QUEUE_SIZE_def)

declare limit_queue.simps [simp del]

definition push_response :: "control_response \<Rightarrow> conn_state \<Rightarrow> conn_state" where
  "push_response response s = s\<lparr>cs_queue := limit_queue (cs_queue s @ [response])\<rparr>"

definition to_duration :: "int option \<Rightarrow> int" where
  "to_duration rate = (case rate of None \<Rightarrow> POST_RATE_GENERIC | Some r \<Rightarrow> from_secs r)"

definition set_capabilities :: "der_capability \<Rightarrow> conn_state \<Rightarrow> conn_state" where
  "set_capabilities capabilities s =
    (if Some capabilities \<noteq> cs_capabilities s
     then s\<lparr>cs_capabilities := Some capabilities, cs_last_sent_capabilities := None\<rparr>
     else s)"

definition reset_connection :: "conn_state \<Rightarrow> conn_state" where
  "reset_connection s =
    s\<lparr>cs_dcap := None, cs_server_device := None, cs_registration := None, cs_der := None,
      cs_mup := None, cs_mrid_cache := [], cs_last_sent_settings := None, cs_last_sent_status := None,
      cs_last_sent_capabilities := None, cs_last_sent_readings := None\<rparr>"

fun receive_conn_command :: "conn_args \<Rightarrow> server \<Rightarrow> conn_command \<Rightarrow> stage" where
  "receive_conn_command a sv (SubscribeToResource href kind poll_rate) w =
     (Continue, subscribe a sv href kind poll_rate w)"
| "receive_conn_command a sv (UnsubscribeFromResource href) w = (Continue, unsubscribe href w)"
| "receive_conn_command a sv (SendDeviceSettings settings) (s, tr) =
     (Proceed, s\<lparr>cs_latest_settings := Some settings\<rparr>, tr)"
| "receive_conn_command a sv (SendDeviceCapability capabilities) (s, tr) =
     (Proceed, set_capabilities capabilities s, tr)"
| "receive_conn_command a sv (SendDeviceStatus status) (s, tr) =
     (Proceed, s\<lparr>cs_latest_status := Some status\<rparr>, tr)"
| "receive_conn_command a sv (SendMeterReadings readings) (s, tr) =
     (Proceed, s\<lparr>cs_latest_readings := Some readings\<rparr>, tr)"
| "receive_conn_command a sv (SendControlResponse response) (s, tr) =
     (Proceed, push_response response s, tr)"
| "receive_conn_command a sv (UpdatePostRates rates) (s, tr) =
     (Proceed, s\<lparr>cs_post_rate_der := to_duration (pr_der rates),
        cs_post_rate_mup := to_duration (pr_mirror_usage_point rates)\<rparr>, tr)"
| "receive_conn_command a sv ResetConnection (s, tr) = (Proceed, reset_connection s, tr)"
| "receive_conn_command a sv Wake (s, tr) = (Proceed, s, tr)"

fun is_wake_command :: "conn_command \<Rightarrow> bool" where
  "is_wake_command Wake = True"
| "is_wake_command ResetConnection = True"
| "is_wake_command _ = False"

definition retry_gate :: "conn_command \<Rightarrow> stage" where
  "retry_gate command = (\<lambda>(s, tr).
    if cs_retry_handle s \<and> \<not> is_wake_command command then (Continue, s, tr)
    else (Proceed, s\<lparr>cs_retry_requested := True\<rparr>, tr))"

section \<open>Delivery of the responses\<close>

text \<open>The request that carries a response.\<close>

definition response_post :: "lfdi \<Rightarrow> control_response \<Rightarrow> conn_action" where
  "response_post lfdi r = Post (cr_reply_to r) (PostResponse (response_payload lfdi r))"

text \<open>Response \<open>r\<close>, posted after the trace \<open>tr\<close>, was delivered or refused for good.\<close>

definition settled :: "server \<Rightarrow> lfdi \<Rightarrow> conn_action list \<Rightarrow> control_response \<Rightarrow> bool" where
  "settled sv lfdi tr r \<longleftrightarrow>
    \<not> retryable_error sv (cr_reply_to r) (PostResponse (response_payload lfdi r)) tr"

text \<open>
  C12: sending the queued responses ends after at most one POST per response. They are posted once
  each, oldest first; those before the first failure that may pass (a time-out, a refused connection,
  a 429) leave the queue, that one and all younger ones stay in it in their order, and a retry is
  asked for exactly when something stays.
\<close>

theorem responses_posted_in_order:
  assumes "send_control_responses sv lfdi queue tr = ((retry, queue'), tr')"
  shows "\<exists>k \<le> length queue.
      queue' = drop k queue \<and> (retry \<longleftrightarrow> queue' \<noteq> []) \<and>
      tr' = tr @ map (response_post lfdi) (take (if retry then Suc k else k) queue) \<and>
      (\<forall>i < k. settled sv lfdi (tr @ map (response_post lfdi) (take i queue)) (queue ! i)) \<and>
      (retry \<longrightarrow> \<not> settled sv lfdi (tr @ map (response_post lfdi) (take k queue)) (queue ! k))"
  using assms
proof (induction queue arbitrary: tr)
  case Nil
  then show ?case by simp
next
  case (Cons r queue)
  let ?tr = "tr @ [response_post lfdi r]"
  show ?case
  proof (cases "settled sv lfdi tr r")
    case False
    then show ?thesis
      using Cons.prems by (intro exI [of _ 0]) (auto simp: Let_def settled_def response_post_def)
  next
    case True
    then have "send_control_responses sv lfdi queue ?tr = ((retry, queue'), tr')"
      using Cons.prems by (simp add: Let_def settled_def response_post_def)
    from Cons.IH [OF this] obtain k where k: "k \<le> length queue" "queue' = drop k queue"
      "retry \<longleftrightarrow> queue' \<noteq> []"
      "tr' = ?tr @ map (response_post lfdi) (take (if retry then Suc k else k) queue)"
      "\<forall>i < k. settled sv lfdi (?tr @ map (response_post lfdi) (take i queue)) (queue ! i)"
      "retry \<longrightarrow> \<not> settled sv lfdi (?tr @ map (response_post lfdi) (take k queue)) (queue ! k)"
      by blast
    show ?thesis
      using k True
      by (intro exI [of _ "Suc k"]) (auto simp: less_Suc_eq_0_disj)
  qed
qed

section \<open>Registration\<close>

text \<open>
  The trace shows how the server came to name the device: as the only one of its list, under the
  LFDI of this device, or as what it made of this device when it was posted to an empty list.
\<close>

definition recognised :: "se_device \<Rightarrow> server \<Rightarrow> conn_action list \<Rightarrow> end_device \<Rightarrow> bool" where
  "recognised dev sv tr d \<longleftrightarrow>
    (\<exists>before uri after edl.
       tr = before @ Get uri # after \<and> sv_end_device_list sv before uri = Inr edl \<and>
       edl_all edl = 1 \<and> (\<exists>ds. edl_end_device edl = d # ds) \<and> ed_lfdi d = Some (sd_lfdi dev)) \<or>
    (\<exists>before uri loc after.
       tr = before @ Post uri (PostEndDevice (sd_edev dev)) # Get loc # after \<and>
       sv_post sv before uri (PostEndDevice (sd_edev dev)) = Inr (Created (Some loc)) \<and>
       sv_end_device sv (before @ [Post uri (PostEndDevice (sd_edev dev))]) loc = Inr d)"

text \<open>The list that makes the task give up: several devices, another device, or no item.\<close>

definition unacceptable :: "se_device \<Rightarrow> end_device_list \<Rightarrow> bool" where
  "unacceptable dev edl \<longleftrightarrow>
    edl_all edl \<notin> {0, 1} \<or>
    edl_all edl = 1 \<and> (edl_end_device edl = [] \<or> ed_lfdi (hd (edl_end_device edl)) \<noteq> Some (sd_lfdi dev))"

lemma recognised_append: "recognised dev sv tr d \<Longrightarrow> recognised dev sv (tr @ acts) d"
  unfolding recognised_def by (metis append_Cons append_assoc)

lemma recognised_listed:
  "sv_end_device_list sv tr uri = Inr edl \<Longrightarrow> edl_all edl = 1 \<Longrightarrow> edl_end_device edl = d # ds \<Longrightarrow>
     ed_lfdi d = Some (sd_lfdi dev) \<Longrightarrow> recognised dev sv (tr @ [Get uri]) d"
  unfolding recognised_def by blast

lemma recognised_posted:
  "sv_post sv tr uri (PostEndDevice (sd_edev dev)) = Inr (Created (Some loc)) \<Longrightarrow>
     sv_end_device sv (tr @ [Post uri (PostEndDevice (sd_edev dev))]) loc = Inr d \<Longrightarrow>
     recognised dev sv (tr @ [Post uri (PostEndDevice (sd_edev dev)), Get loc]) d"
  unfolding recognised_def by blast

lemma registered_device:
  assumes "ensure_device_registered sv uri dev n tr = (Inr (Some d), tr')"
  shows "recognised dev sv tr' d"
proof -
  let ?uri = "paginated_uri uri n"
  obtain edl where edl: "sv_end_device_list sv tr ?uri = Inr edl"
    using assms by (cases "sv_end_device_list sv tr ?uri") (simp_all add: ensure_device_registered_def get_def)
  show ?thesis
  proof (cases "edl_all edl = 0")
    case True
    with assms edl have "register_new_device sv uri dev (tr @ [Get ?uri]) = (Inr d, tr')"
      by (auto simp: ensure_device_registered_def get_def split: prod.splits sum.splits)
    then show ?thesis
      by (auto simp: register_new_device_def web_defs
          intro: recognised_posted [where tr = "tr @ [Get ?uri]", simplified]
          split: prod.splits sum.splits sep_response.splits option.splits)
  next
    case False
    with assms edl show ?thesis
      by (auto simp: ensure_device_registered_def get_def intro: recognised_listed [OF edl]
          split: if_splits list.splits)
  qed
qed

lemma registration_stops:
  assumes "ensure_device_registered sv uri dev n tr = (Inl e, tr')"
  shows "\<exists>edl. sv_end_device_list sv tr (paginated_uri uri n) = Inr edl \<and> unacceptable dev edl \<and>
    tr' = tr @ [Get (paginated_uri uri n)]"
  using assms
  by (auto simp: ensure_device_registered_def get_def unacceptable_def
      split: sum.splits if_splits list.splits prod.splits)

lemma registration_trace:
  "ensure_device_registered sv uri dev n tr = (found, tr') \<Longrightarrow>
     \<exists>acts. tr' = tr @ acts \<and> (\<forall>x \<in> set acts. \<exists>href. x = Get href \<or> x = Post href (PostEndDevice (sd_edev dev)))"
  by (auto simp: ensure_device_registered_def register_new_device_def web_defs
      split: sum.splits sep_response.splits option.splits if_splits list.splits prod.splits)

section \<open>The mRIDs of the readings\<close>

lemma mrid_entry_lookup:
  "mrid_entry a sv cache key tr = ((mrid, cache'), tr') \<Longrightarrow>
     map_of cache' key = Some mrid \<and> map_of cache \<subseteq>\<^sub>m map_of cache'"
  by (auto simp: mrid_entry_def Let_def map_le_def split: option.splits prod.splits)

text \<open>The readings a request carries.\<close>

fun payload_readings :: "post_payload \<Rightarrow> mirror_meter_reading list" where
  "payload_readings (PostReading r) = [r]"
| "payload_readings (PostMup m) = mup_readings m"
| "payload_readings _ = []"

fun readings_of :: "conn_action \<Rightarrow> mirror_meter_reading list" where
  "readings_of (Post _ payload) = payload_readings payload"
| "readings_of _ = []"

fun is_put :: "conn_action \<Rightarrow> bool" where
  "is_put (Put _ _) = True"
| "is_put _ = False"

text \<open>A reading goes out under the mRID the cache has for its key; sending readings puts nothing.\<close>

definition keyed_by :: "mrid_cache \<Rightarrow> mirror_meter_reading \<Rightarrow> bool" where
  "keyed_by cache r \<longleftrightarrow> (\<exists>key. reading_key r = Some key \<and> map_of cache key = Some (mmr_mrid r))"

definition reading_traffic :: "mrid_cache \<Rightarrow> conn_action list \<Rightarrow> bool" where
  "reading_traffic cache acts \<longleftrightarrow>
    (\<forall>x \<in> set acts. \<not> is_put x \<and> (\<forall>r \<in> set (readings_of x). keyed_by cache r))"

lemma reading_traffic_append [simp]: "reading_traffic cache (xs @ ys) \<longleftrightarrow> reading_traffic cache xs \<and> reading_traffic cache ys"
  by (auto simp: reading_traffic_def)

lemma keyed_by_mono: "keyed_by cache r \<Longrightarrow> map_of cache \<subseteq>\<^sub>m map_of cache' \<Longrightarrow> keyed_by cache' r"
  unfolding keyed_by_def map_le_def by (metis domI)

lemma reading_traffic_mono: "reading_traffic cache acts \<Longrightarrow> map_of cache \<subseteq>\<^sub>m map_of cache' \<Longrightarrow> reading_traffic cache' acts"
  unfolding reading_traffic_def using keyed_by_mono by blast

lemma reading_key_mrid [simp]: "reading_key (r\<lparr>mmr_mrid := i\<rparr>) = reading_key r"
  by (simp add: reading_key_def)

text \<open>What looking the usage point up, making an mRID or posting one reading adds to the trace.\<close>

lemma lookup_mup_trace:
  "lookup_mup sv mupl lfdi n tr = (found, tr') \<Longrightarrow> tr' = tr @ [Get (paginated_uri mupl n)]"
  by (auto simp: lookup_mup_def web_defs split: sum.splits)

lemma mrid_entry_trace:
  "mrid_entry a sv cache key tr = (found, tr') \<Longrightarrow> \<exists>acts. tr' = tr @ acts \<and> reading_traffic c acts"
  by (auto simp: mrid_entry_def Let_def web_defs reading_traffic_def split: option.splits)

lemma ensure_mup_trace:
  assumes "ensure_mup a sv mupl r tr = (found, tr')"
    and "reading_key r = Some key" "map_of cache key = Some (mmr_mrid r)"
  shows "\<exists>acts. tr' = tr @ acts \<and> reading_traffic cache acts"
  using assms
  by (auto simp: ensure_mup_def Let_def web_defs reading_traffic_def keyed_by_def
      split: option.splits sum.splits sep_response.splits prod.splits dest!: lookup_mup_trace)

lemma initialise_cache_trace:
  "initialise_reading_mrid_cache sv dcap lfdi n tr = (cache, tr') \<Longrightarrow>
     \<exists>acts. tr' = tr @ acts \<and> reading_traffic c acts"
  by (auto simp: initialise_reading_mrid_cache_def reading_traffic_def
      split: option.splits prod.splits dest!: lookup_mup_trace)

lemma send_reading_keyed:
  assumes "send_readings a sv dcap (r # readings) mup cache tr = (res, tr')" "reading_key r = Some key"
    and entry: "mrid_entry a sv cache key tr = ((mrid, cache1), tr1)" and key: "map_of cache1 key = Some mrid"
  shows "\<exists>more. reading_traffic cache1 more \<and>
    (tr' = tr1 @ more \<and> snd (snd res) = cache1 \<or>
     (\<exists>mup1. send_readings a sv dcap readings mup1 cache1 (tr1 @ more) = (res, tr')))"
proof (cases mup)
  case (Some href)
  have "reading_traffic cache1 [Post href (PostReading (r\<lparr>mmr_mrid := mrid\<rparr>))]"
    using assms(2) key by (simp add: reading_traffic_def keyed_by_def)
  with assms(1,2) entry Some show ?thesis
    by (intro exI [of _ "[Post href (PostReading (r\<lparr>mmr_mrid := mrid\<rparr>))]"])
      (auto simp: Let_def web_defs split: sum.splits)
next
  case None
  show ?thesis
  proof (cases "dcap_mup_list_link dcap")
    case None
    with assms(1,2) \<open>mup = None\<close> entry show ?thesis
      by (intro exI [of _ "[]"]) (auto simp: Let_def reading_traffic_def)
  next
    case (Some mupl)
    obtain found tr2 where mup: "ensure_mup a sv mupl (r\<lparr>mmr_mrid := mrid\<rparr>) tr1 = (found, tr2)"
      by (metis prod.exhaust)
    obtain acts2 where "tr2 = tr1 @ acts2" "reading_traffic cache1 acts2"
      using ensure_mup_trace [OF mup, of key cache1] assms(2) key by auto
    then show ?thesis
      using assms(1,2) \<open>mup = None\<close> entry Some mup
      by (intro exI [of _ acts2]) (auto simp: Let_def split: option.splits)
  qed
qed

lemma send_readings_keyed:
  assumes "send_readings a sv dcap readings mup cache tr = ((retry, mup', cache'), tr')"
  shows "map_of cache \<subseteq>\<^sub>m map_of cache' \<and> (\<exists>acts. tr' = tr @ acts \<and> reading_traffic cache' acts)"
  using assms
proof (induction readings arbitrary: mup cache tr)
  case Nil
  then show ?case by (simp add: reading_traffic_def)
next
  case (Cons r readings)
  show ?case
  proof (cases "reading_key r")
    case None
    then show ?thesis using Cons by simp
  next
    case (Some key)
    obtain mrid cache1 tr1 where entry: "mrid_entry a sv cache key tr = ((mrid, cache1), tr1)"
      by (metis prod.exhaust)
    from mrid_entry_lookup [OF entry]
    have le: "map_of cache \<subseteq>\<^sub>m map_of cache1" and key: "map_of cache1 key = Some mrid" by auto
    obtain acts1 where tr1: "tr1 = tr @ acts1" "reading_traffic cache' acts1"
      using mrid_entry_trace [OF entry] by blast
    have later: ?thesis
      if "send_readings a sv dcap readings mup1 cache1 (tr1 @ more) = ((retry, mup', cache'), tr')"
        and "reading_traffic cache1 more" for mup1 more
      using Cons.IH [OF that(1)] le that(2) tr1
      by (auto intro: map_le_trans reading_traffic_mono)
    have stop: ?thesis if "tr' = tr1 @ more" "cache' = cache1" "reading_traffic cache1 more" for more
      using that le tr1 by auto
    from send_reading_keyed [OF Cons.prems Some entry key] show ?thesis
      using stop later by fastforce
  qed
qed

lemma send_meter_readings_keyed:
  assumes "send_meter_readings a sv dcap readings mup cache tr = ((retry, mup', cache'), tr')"
  shows "map_of cache \<subseteq>\<^sub>m map_of cache' \<and> (\<exists>acts. tr' = tr @ acts \<and> reading_traffic cache' acts)"
proof -
  obtain cache1 tr1 where start: "send_readings a sv dcap readings mup cache1 tr1 = ((retry, mup', cache'), tr')"
    and le: "map_of cache \<subseteq>\<^sub>m map_of cache1" and tr1: "\<exists>acts. tr1 = tr @ acts \<and> reading_traffic cache' acts"
    using assms initialise_cache_trace
    by (auto simp: send_meter_readings_def reading_traffic_def split: if_splits prod.splits)
  from send_readings_keyed [OF start] le tr1 show ?thesis
    by (auto intro: map_le_trans)
qed

end
