(* ===== verification/Sep2_Task.thy ===== *)
theory Sep2_Task
  imports Sep2_Connection
begin

text \<open>
  \<^verbatim>\<open>src/sep2_connection.rs\<close>, function \<^verbatim>\<open>task\<close>: what an iteration does once the command is
  taken in, in the order of the code, and the two tasks it starts, the poll of the entry point and
  the retry task. A run is a sequence of rounds, each with its own environment.
\<close>

section \<open>The stages\<close>

definition get_dcap :: "server \<Rightarrow> string \<Rightarrow> device_capability option web" where
  "get_dcap sv dcap_uri tr =
    (case get (sv_dcap sv) dcap_uri tr of
       (Inr response, tr') \<Rightarrow> (Some response, tr')
     | (Inl err, tr') \<Rightarrow> (None, tr'))"

definition ensure_dcap :: "conn_args \<Rightarrow> server \<Rightarrow> stage" where
  "ensure_dcap a sv = (\<lambda>(s, tr).
    case cs_dcap s of
      Some _ \<Rightarrow> (Proceed, s, tr)
    | None \<Rightarrow>
        (let tr0 = (if cs_dcap_poll s then tr @ [AbortDcapPoll] else tr);
             s0 = s\<lparr>cs_dcap_poll := False\<rparr>
         in case get_dcap sv (ca_dcap_uri a) tr0 of
              (Some dcap, tr1) \<Rightarrow>
                if \<not> sv_listening sv then (Fail ChannelClosed, s0, tr1)
                else (Proceed, s0\<lparr>cs_dcap := Some dcap, cs_dcap_poll := True\<rparr>,
                      tr1 @ [Broadcast (EvDeviceCapability dcap), SpawnDcapPoll dcap])
            | (None, tr1) \<Rightarrow>
                (Continue, s0, if ca_metrics a then tr1 @ [CountDcapFailure] else tr1)))"

definition ensure_registered :: "conn_args \<Rightarrow> server \<Rightarrow> stage" where
  "ensure_registered a sv = (\<lambda>(s, tr).
    case cs_dcap s of
      None \<Rightarrow> (Continue, s, tr)
    | Some dcap \<Rightarrow>
        (case dcap_end_device_list_link dcap of
           None \<Rightarrow> (Continue, s\<lparr>cs_dcap := None\<rparr>, tr)
         | Some edev_link \<Rightarrow>
             (case cs_server_device s of
                Some _ \<Rightarrow> (Proceed, s, tr)
              | None \<Rightarrow>
                  (case ensure_device_registered sv edev_link (ca_device_to_register a)
                          (ca_max_list_size a) tr of
                     (Inl e, tr') \<Rightarrow> (Fail e, s, tr')
                   | (Inr None, tr') \<Rightarrow> (Continue, s, tr')
                   | (Inr (Some device), tr') \<Rightarrow>
                       (Proceed, s\<lparr>cs_server_device := Some device\<rparr>, tr')))))"

definition check_pin :: "conn_args \<Rightarrow> server \<Rightarrow> stage" where
  "check_pin a sv = (\<lambda>(s, tr).
    case cs_server_device s of
      None \<Rightarrow> (Continue, s, tr)
    | Some server_device \<Rightarrow>
        (case (cs_registration s, ed_registration_link server_device, ca_expected_pin a) of
           (None, Some reg_link, Some expected_pin) \<Rightarrow>
             (case get (sv_registration sv) reg_link tr of
                (Inl err, tr') \<Rightarrow> (Continue, s, tr')
              | (Inr reg, tr') \<Rightarrow>
                  (if expected_pin \<noteq> rg_pin reg then Continue else Proceed,
                   s\<lparr>cs_registration := Some reg\<rparr>, tr'))
         | _ \<Rightarrow> (Proceed, s, tr)))"

definition post_responses :: "conn_args \<Rightarrow> server \<Rightarrow> stage" where
  "post_responses a sv = (\<lambda>(s, tr).
    case send_control_responses sv (sd_lfdi (ca_device_to_register a)) (cs_queue s) tr of
      ((retry, queue), tr') \<Rightarrow> (if retry then Continue else Proceed, s\<lparr>cs_queue := queue\<rparr>, tr'))"

definition find_der :: "conn_args \<Rightarrow> server \<Rightarrow> stage" where
  "find_der a sv = (\<lambda>(s, tr).
    case (cs_der s, cs_server_device s) of
      (Some _, _) \<Rightarrow> (Proceed, s, tr)
    | (None, None) \<Rightarrow> (Continue, s, tr)
    | (None, Some server_device) \<Rightarrow>
        (case ensure_der sv server_device (ca_max_list_size a) tr of
           (None, tr') \<Rightarrow> (Continue, s, tr')
         | (Some der, tr') \<Rightarrow> (Proceed, s\<lparr>cs_der := Some der\<rparr>, tr')))"

definition put_settings :: "server \<Rightarrow> stage" where
  "put_settings sv = (\<lambda>(s, tr).
    case cs_der s of
      None \<Rightarrow> (Continue, s, tr)
    | Some der \<Rightarrow>
        if post_due (sv_clock sv tr) (cs_last_sent_settings s) (cs_post_rate_der s) then
          (case (cs_latest_settings s, der_settings_link der) of
             (Some settings, Some link) \<Rightarrow>
               (case put sv link (PutSettings settings) tr of
                  (Inr _, tr') \<Rightarrow>
                    (Proceed, s\<lparr>cs_latest_settings := None,
                       cs_last_sent_settings := Some (sv_clock sv tr')\<rparr>, tr')
                | (Inl err, tr') \<Rightarrow> (Continue, s, tr'))
           | _ \<Rightarrow> (Proceed, s, tr))
        else (Proceed, s, tr))"

definition put_status :: "server \<Rightarrow> stage" where
  "put_status sv = (\<lambda>(s, tr).
    case cs_der s of
      None \<Rightarrow> (Continue, s, tr)
    | Some der \<Rightarrow>
        if post_due (sv_clock sv tr) (cs_last_sent_status s) (cs_post_rate_der s) then
          (case (cs_latest_status s, der_status_link der) of
             (Some status, Some link) \<Rightarrow>
               (case put sv link (PutStatus status) tr of
                  (Inr _, tr') \<Rightarrow>
                    (Proceed, s\<lparr>cs_latest_status := None,
                       cs_last_sent_status := Some (sv_clock sv tr')\<rparr>, tr')
                | (Inl err, tr') \<Rightarrow> (Continue, s, tr'))
           | _ \<Rightarrow> (Proceed, s, tr))
        else (Proceed, s, tr))"

definition put_capabilities :: "server \<Rightarrow> stage" where
  "put_capabilities sv = (\<lambda>(s, tr).
    case cs_der s of
      None \<Rightarrow> (Continue, s, tr)
    | Some der \<Rightarrow>
        if post_due (sv_clock sv tr) (cs_last_sent_capabilities s) POST_RATE_CAPABILITIES then
          (case (cs_capabilities s, der_capability_link der) of
             (Some capabilities, Some link) \<Rightarrow>
               (case put sv link (PutCapability capabilities) tr of
                  (Inr _, tr') \<Rightarrow>
                    (Proceed, s\<lparr>cs_last_sent_capabilities := Some (sv_clock sv tr')\<rparr>, tr')
                | (Inl err, tr') \<Rightarrow> (Continue, s, tr'))
           | _ \<Rightarrow> (Proceed, s, tr))
        else (Proceed, s, tr))"

definition post_readings :: "conn_args \<Rightarrow> server \<Rightarrow> stage" where
  "post_readings a sv = (\<lambda>(s, tr).
    case (cs_latest_readings s, cs_dcap s) of
      (Some readings, Some dcap) \<Rightarrow>
        if post_due (sv_clock sv tr) (cs_last_sent_readings s) (cs_post_rate_mup s) then
          (case send_meter_readings a sv dcap readings (cs_mup s) (cs_mrid_cache s) tr of
             ((True, mup, cache), tr') \<Rightarrow>
               (Continue, s\<lparr>cs_mup := mup, cs_mrid_cache := cache\<rparr>, tr')
           | ((False, mup, cache), tr') \<Rightarrow>
               (Proceed, s\<lparr>cs_mup := mup, cs_mrid_cache := cache,
                  cs_last_sent_readings := Some (sv_clock sv tr'), cs_latest_readings := None\<rparr>, tr'))
        else (Proceed, s, tr)
    | _ \<Rightarrow> (Proceed, s, tr))"

definition nothing_to_retry :: stage where
  "nothing_to_retry = (\<lambda>(s, tr). (Proceed, s\<lparr>cs_retry_requested := False\<rparr>, tr))"

definition send_pending :: "conn_args \<Rightarrow> server \<Rightarrow> stage" where
  "send_pending a sv =
    stages [ensure_dcap a sv, ensure_registered a sv, check_pin a sv, post_responses a sv,
      find_der a sv, put_settings sv, put_status sv, put_capabilities sv, post_readings a sv,
      nothing_to_retry]"

section \<open>One iteration, and a run\<close>

datatype conn_result = ConnRunning conn_state | ConnInputClosed | ConnFailed sep2_error

definition cleanup :: "world \<Rightarrow> conn_action list" where
  "cleanup = (\<lambda>(s, tr).
    tr @ (if cs_dcap_poll s then [AbortDcapPoll] else []) @ (if cs_retry_handle s then [AbortRetry] else []))"

definition handle_conn_command :: "conn_args \<Rightarrow> server \<Rightarrow> conn_command \<Rightarrow> stage" where
  "handle_conn_command a sv command =
    stages [receive_conn_command a sv command, retry_gate command, send_pending a sv]"

definition conn_round ::
  "conn_args \<Rightarrow> server \<Rightarrow> conn_command option \<Rightarrow> conn_state \<Rightarrow> conn_result \<times> conn_action list" where
  "conn_round a sv received s =
    (let w = manage_retry (s, [])
     in case received of
          None \<Rightarrow> (ConnInputClosed, cleanup w)
        | Some command \<Rightarrow>
            (case handle_conn_command a sv command w of
               (Fail e, s', tr) \<Rightarrow> (ConnFailed e, tr)
             | (_, s', tr) \<Rightarrow> (ConnRunning s', tr)))"

text \<open>A run: the rounds it went through, each as its environment and its trace, and how it stands.\<close>

fun conn_run ::
  "conn_args \<Rightarrow> (server \<times> conn_command option) list \<Rightarrow> conn_state \<Rightarrow>
     conn_result \<times> (server \<times> conn_action list) list" where
  "conn_run a [] s = (ConnRunning s, [])"
| "conn_run a ((sv, received) # inputs) s =
    (case conn_round a sv received s of
       (ConnRunning s', tr) \<Rightarrow> (let (r, rounds) = conn_run a inputs s' in (r, (sv, tr) # rounds))
     | (r, tr) \<Rightarrow> (r, [(sv, tr)]))"

section \<open>The tasks it starts\<close>

text \<open>
  The poll of the entry point: \<open>None\<close> is a request that timed out. It ends only by being aborted, so a
  finite prefix of its answers gives a prefix of what it does.
\<close>

datatype poll_output = PolledDcap device_capability | SentReset | HeartbeatFailed

fun dcap_polling :: "device_capability \<Rightarrow> (string + device_capability) option list \<Rightarrow> poll_output list" where
  "dcap_polling known_dcap [] = []"
| "dcap_polling known_dcap (Some (Inr dcap) # answers) =
     PolledDcap dcap # (if known_dcap \<noteq> dcap then [SentReset] else []) @ dcap_polling known_dcap answers"
| "dcap_polling known_dcap (_ # answers) = HeartbeatFailed # dcap_polling known_dcap answers"

text \<open>
  The retry task: the waits are those of the back-off, an iterator of another package, and
  \<open>open\<close> tells at each wait whether the channel still takes the \<open>Wake\<close>.
\<close>

fun retry_task :: "(int option \<times> bool) list \<Rightarrow> (int \<times> conn_command) list" where
  "retry_task [] = []"
| "retry_task ((None, channel) # waits) = []"
| "retry_task ((Some wait_time, channel) # waits) =
     (if channel then (wait_time, Wake) # retry_task waits else [])"

section \<open>Relations over a stage and over a round\<close>

text \<open>
  A relation between the state before, the trace so far, the actions added and the state after holds
  of a round when it holds of its stages, if it is reflexive and composes along the trace.
\<close>

definition holds_of :: "(conn_state \<Rightarrow> conn_action list \<Rightarrow> conn_action list \<Rightarrow> conn_state \<Rightarrow> bool) \<Rightarrow> stage \<Rightarrow> bool" where
  "holds_of R m \<longleftrightarrow>
    (\<forall>s tr fl s' tr'. m (s, tr) = (fl, s', tr') \<longrightarrow> (\<exists>acts. tr' = tr @ acts \<and> R s tr acts s'))"

lemma holds_ofI:
  "(\<And>s tr fl s' tr'. m (s, tr) = (fl, s', tr') \<Longrightarrow> \<exists>acts. tr' = tr @ acts \<and> R s tr acts s') \<Longrightarrow> holds_of R m"
  unfolding holds_of_def by blast

lemma holds_ofE:
  assumes "holds_of R m" "m (s, tr) = (fl, s', tr')"
  obtains acts where "tr' = tr @ acts" "R s tr acts s'"
  using assms unfolding holds_of_def by blast

lemma holds_of_weaken: "holds_of R m \<Longrightarrow> (\<And>s tr acts s'. R s tr acts s' \<Longrightarrow> Q s tr acts s') \<Longrightarrow> holds_of Q m"
  unfolding holds_of_def by blast

lemma holds_of_conj: "holds_of R m \<Longrightarrow> holds_of Q m \<Longrightarrow> holds_of (\<lambda>s tr acts s'. R s tr acts s' \<and> Q s tr acts s') m"
  unfolding holds_of_def by (metis same_append_eq)

locale round_relation =
  fixes R :: "conn_state \<Rightarrow> conn_action list \<Rightarrow> conn_action list \<Rightarrow> conn_state \<Rightarrow> bool"
  assumes idle: "R s tr [] s"
    and compose: "R s tr acts1 s1 \<Longrightarrow> R s1 (tr @ acts1) acts2 s2 \<Longrightarrow> R s tr (acts1 @ acts2) s2"
begin

lemma andthen_holds:
  assumes "holds_of R m" "holds_of R k"
  shows "holds_of R (andthen m k)"
proof (rule holds_ofI)
  fix s tr fl s' tr'
  assume run: "andthen m k (s, tr) = (fl, s', tr')"
  obtain fl1 s1 tr1 where m: "m (s, tr) = (fl1, s1, tr1)" by (metis prod.exhaust)
  obtain acts1 where acts1: "tr1 = tr @ acts1" "R s tr acts1 s1" using assms(1) m by (rule holds_ofE)
  show "\<exists>acts. tr' = tr @ acts \<and> R s tr acts s'"
  proof (cases "fl1 = Proceed")
    case True
    with run m have "k (s1, tr1) = (fl, s', tr')" by (simp add: andthen_def)
    with assms(2) obtain acts2 where "tr' = tr1 @ acts2" "R s1 tr1 acts2 s'" by (rule holds_ofE)
    with acts1 compose show ?thesis by auto
  next
    case False
    with run m have "s' = s1" "tr' = tr1" by (auto simp: andthen_def split: flow.splits)
    with acts1 show ?thesis by auto
  qed
qed

lemma stages_hold: "\<forall>m \<in> set ms. holds_of R m \<Longrightarrow> holds_of R (stages ms)"
proof (induction ms)
  case Nil
  show ?case by (rule holds_ofI) (simp add: idle)
next
  case (Cons m ms)
  then have "holds_of R (andthen m (stages ms))" by (intro andthen_holds) auto
  then show ?case by (simp add: holds_of_def)
qed

lemma command_holds:
  assumes "holds_of R (receive_conn_command a sv command)"
    and "holds_of R (retry_gate command)"
    and "\<forall>m \<in> {ensure_dcap a sv, ensure_registered a sv, check_pin a sv, post_responses a sv,
      find_der a sv, put_settings sv, put_status sv, put_capabilities sv, post_readings a sv,
      nothing_to_retry}. holds_of R m"
  shows "holds_of R (handle_conn_command a sv command)"
  unfolding handle_conn_command_def send_pending_def
  using assms by (intro stages_hold) (simp add: stages_hold)

end

text \<open>The stages that leave alone what is to be sent and what was sent, and upload none of it.\<close>

definition same_outbox :: "conn_state \<Rightarrow> conn_state \<Rightarrow> bool" where
  "same_outbox s s' \<longleftrightarrow>
    cs_latest_settings s' = cs_latest_settings s \<and> cs_last_sent_settings s' = cs_last_sent_settings s \<and>
    cs_latest_status s' = cs_latest_status s \<and> cs_last_sent_status s' = cs_last_sent_status s \<and>
    cs_capabilities s' = cs_capabilities s \<and> cs_last_sent_capabilities s' = cs_last_sent_capabilities s \<and>
    cs_latest_readings s' = cs_latest_readings s \<and> cs_last_sent_readings s' = cs_last_sent_readings s \<and>
    cs_post_rate_der s' = cs_post_rate_der s \<and> cs_post_rate_mup s' = cs_post_rate_mup s \<and>
    cs_mup s' = cs_mup s \<and> cs_mrid_cache s' = cs_mrid_cache s \<and> cs_polls s' = cs_polls s"

definition quiet :: "conn_state \<Rightarrow> conn_action list \<Rightarrow> conn_action list \<Rightarrow> conn_state \<Rightarrow> bool" where
  "quiet s tr acts s' \<longleftrightarrow> same_outbox s s' \<and> (\<forall>x \<in> set acts. \<not> is_put x \<and> readings_of x = [])"

lemma registration_quiet:
  "ensure_device_registered sv uri dev n tr = (found, tr') \<Longrightarrow>
     \<exists>acts. tr' = tr @ acts \<and> (\<forall>x \<in> set acts. \<not> is_put x \<and> readings_of x = [])"
  using registration_trace by fastforce

lemma responses_trace:
  "send_control_responses sv lfdi queue tr = ((retry, queue'), tr') \<Longrightarrow>
     \<exists>acts. tr' = tr @ acts \<and> (\<forall>x \<in> set acts. \<exists>r. x = response_post lfdi r)"
  by (induction queue arbitrary: tr) (fastforce simp: Let_def response_post_def split: if_splits)+

lemma quiet_stages:
  "holds_of quiet (ensure_dcap a sv)" "holds_of quiet (ensure_registered a sv)"
  "holds_of quiet (check_pin a sv)" "holds_of quiet (post_responses a sv)"
  "holds_of quiet (find_der a sv)" "holds_of quiet nothing_to_retry"
  "holds_of quiet (retry_gate command)"
proof -
  show "holds_of quiet (ensure_dcap a sv)"
    by (rule holds_ofI)
      (auto simp: ensure_dcap_def get_dcap_def Let_def get_def quiet_def same_outbox_def
        split: option.splits sum.splits if_splits)
  show "holds_of quiet (ensure_registered a sv)"
    by (rule holds_ofI)
      (auto simp: ensure_registered_def quiet_def same_outbox_def dest!: registration_quiet
        split: option.splits sum.splits prod.splits)
  show "holds_of quiet (check_pin a sv)"
    by (rule holds_ofI)
      (auto simp: check_pin_def get_def quiet_def same_outbox_def split: option.splits sum.splits if_splits)
  show "holds_of quiet (post_responses a sv)"
    by (rule holds_ofI)
      (fastforce simp: post_responses_def quiet_def same_outbox_def response_post_def
        dest!: responses_trace split: prod.splits)
  show "holds_of quiet (find_der a sv)"
    by (rule holds_ofI)
      (auto simp: find_der_def ensure_der_def get_def quiet_def same_outbox_def
        split: option.splits sum.splits prod.splits if_splits)
  show "holds_of quiet nothing_to_retry" "holds_of quiet (retry_gate command)"
    by (rule holds_ofI; auto simp: nothing_to_retry_def retry_gate_def quiet_def same_outbox_def split: if_splits)+
qed

lemma manage_retry_eq:
  "manage_retry (s, tr) =
     (s\<lparr>cs_retry_handle := cs_retry_requested s\<rparr>,
      tr @ (if cs_retry_requested s = cs_retry_handle s then []
            else if cs_retry_requested s then [SpawnRetry] else [AbortRetry]))"
  by (simp add: manage_retry_def)

text \<open>What a round does, seen through a relation that holds of its command.\<close>

lemma round_holds:
  assumes "conn_round a sv (Some command) s = (ConnRunning s', tr)"
    and "holds_of R (handle_conn_command a sv command)"
  shows "\<exists>start acts. tr = start @ acts \<and> start \<in> {[], [SpawnRetry], [AbortRetry]} \<and>
    R (s\<lparr>cs_retry_handle := cs_retry_requested s\<rparr>) start acts s'"
proof -
  let ?start = "if cs_retry_requested s = cs_retry_handle s then []
      else if cs_retry_requested s then [SpawnRetry] else [AbortRetry]"
  obtain fl s1 tr1 where run: "handle_conn_command a sv command
      (s\<lparr>cs_retry_handle := cs_retry_requested s\<rparr>, ?start) = (fl, s1, tr1)"
    by (metis prod.exhaust)
  moreover from this assms(1) have "s1 = s'" "tr1 = tr"
    by (auto simp: conn_round_def manage_retry_eq split: flow.splits)
  ultimately obtain acts where "tr = ?start @ acts"
    "R (s\<lparr>cs_retry_handle := cs_retry_requested s\<rparr>) ?start acts s'"
    using assms(2) by (auto elim: holds_ofE)
  then show ?thesis by (intro exI [of _ ?start] exI [of _ acts]) auto
qed

lemma running_round:
  assumes "conn_run a ((sv, received) # inputs) s = (ConnRunning s', rounds)"
  obtains command s1 tr rounds' where "received = Some command"
    "conn_round a sv (Some command) s = (ConnRunning s1, tr)"
    "conn_run a inputs s1 = (ConnRunning s', rounds')" "rounds = (sv, tr) # rounds'"
  using assms
  by (cases received) (auto simp: conn_round_def split: conn_result.splits prod.splits)

lemma running_induct [consumes 1, case_names Nil Round]:
  assumes "conn_run a inputs s = (ConnRunning s', rounds)"
    and "P [] s' []"
    and "\<And>sv command inputs s s1 tr rounds.
      conn_round a sv (Some command) s = (ConnRunning s1, tr) \<Longrightarrow>
      conn_run a inputs s1 = (ConnRunning s', rounds) \<Longrightarrow> P inputs s1 rounds \<Longrightarrow>
      P ((sv, Some command) # inputs) s ((sv, tr) # rounds)"
  shows "P inputs s rounds"
  using assms(1)
proof (induction inputs arbitrary: s rounds)
  case Nil
  then show ?case using assms(2) by simp
next
  case (Cons input inputs)
  obtain sv received where input: "input = (sv, received)" by (cases input)
  from Cons.prems [unfolded input] show ?case
    by (rule running_round) (use input Cons.IH assms(3) in auto)
qed

section \<open>The mRIDs of the readings\<close>

definition keeps_mrids :: "conn_state \<Rightarrow> conn_action list \<Rightarrow> conn_action list \<Rightarrow> conn_state \<Rightarrow> bool" where
  "keeps_mrids s tr acts s' \<longleftrightarrow>
    map_of (cs_mrid_cache s) \<subseteq>\<^sub>m map_of (cs_mrid_cache s') \<and>
    (\<forall>x \<in> set acts. \<forall>r \<in> set (readings_of x). keyed_by (cs_mrid_cache s') r)"

interpretation mrids: round_relation keeps_mrids
  by unfold_locales (auto simp: keeps_mrids_def intro: map_le_trans keyed_by_mono)

lemma quiet_keeps_mrids: "quiet s tr acts s' \<Longrightarrow> keeps_mrids s tr acts s'"
  by (simp add: quiet_def same_outbox_def keeps_mrids_def)

lemma put_stages_keep_mrids:
  "holds_of keeps_mrids (put_settings sv)" "holds_of keeps_mrids (put_status sv)"
  "holds_of keeps_mrids (put_capabilities sv)"
  by (rule holds_ofI; auto simp: put_settings_def put_status_def put_capabilities_def put_def keeps_mrids_def
      split: option.splits sum.splits if_splits)+

lemma post_readings_keeps_mrids: "holds_of keeps_mrids (post_readings a sv)"
proof (rule holds_ofI)
  fix s tr fl s' tr'
  assume run: "post_readings a sv (s, tr) = (fl, s', tr')"
  show "\<exists>acts. tr' = tr @ acts \<and> keeps_mrids s tr acts s'"
    using run
    by (auto simp: post_readings_def keeps_mrids_def reading_traffic_def dest!: send_meter_readings_keyed
        split: option.splits prod.splits if_splits bool.splits)
qed

lemma start_kind_trace:
  "start_kind sv kind = Some start \<Longrightarrow>
     \<exists>acts. start uri rate tr = tr @ acts \<and> (\<forall>x \<in> set acts. \<not> is_put x \<and> readings_of x = [])"
  by (cases kind) (auto simp: get_then_poll_def get_def split: sum.splits)

lemma receive_keeps_mrids:
  "command \<noteq> ResetConnection \<Longrightarrow> holds_of keeps_mrids (receive_conn_command a sv command)"
  by (rule holds_ofI; cases command)
    (auto simp: keeps_mrids_def subscribe_def unsubscribe_def start_poll_for_def Let_def push_response_def
      set_capabilities_def dest!: start_kind_trace split: option.splits if_splits)

lemma command_keeps_mrids:
  "command \<noteq> ResetConnection \<Longrightarrow> holds_of keeps_mrids (handle_conn_command a sv command)"
  by (intro mrids.command_holds receive_keeps_mrids)
    (auto intro: holds_of_weaken [OF _ quiet_keeps_mrids] quiet_stages put_stages_keep_mrids
      post_readings_keeps_mrids)

text \<open>
  C35: until the connection is reset, every meter reading of a kind (unit, phase, power of ten) is sent
  under one and the same mRID, through all retries: it is the one in the cache at the end.
\<close>

theorem readings_keep_their_mrid:
  assumes "conn_run a inputs s = (ConnRunning s', rounds)"
    and "\<forall>(sv, received) \<in> set inputs. received \<noteq> Some ResetConnection"
    and "(sv, tr) \<in> set rounds" "x \<in> set tr" "r \<in> set (readings_of x)"
  shows "\<exists>key. reading_key r = Some key \<and> map_of (cs_mrid_cache s') key = Some (mmr_mrid r)"
proof -
  have "map_of (cs_mrid_cache s) \<subseteq>\<^sub>m map_of (cs_mrid_cache s') \<and>
      (\<forall>(sv, tr) \<in> set rounds. \<forall>x \<in> set tr. \<forall>r \<in> set (readings_of x). keyed_by (cs_mrid_cache s') r)"
    using assms(1,2)
  proof (induction rule: running_induct)
    case Nil
    show ?case by simp
  next
    case (Round sv command inputs s s1 tr rounds)
    then have "command \<noteq> ResetConnection" by simp
    from round_holds [OF Round(1) command_keeps_mrids [OF this]]
    have "map_of (cs_mrid_cache s) \<subseteq>\<^sub>m map_of (cs_mrid_cache s1)"
      "\<forall>x \<in> set tr. \<forall>r \<in> set (readings_of x). keyed_by (cs_mrid_cache s1) r"
      by (auto simp: keeps_mrids_def)
    with Round show ?case by (auto intro: map_le_trans keyed_by_mono)
  qed
  with assms(3-5) show ?thesis by (auto simp: keyed_by_def)
qed

section \<open>The rate of the uploads\<close>

text \<open>The instants at which a PUT of the selected kind was accepted, after the trace \<open>tr\<close>.\<close>

fun put_times :: "server \<Rightarrow> (put_payload \<Rightarrow> bool) \<Rightarrow> conn_action list \<Rightarrow> conn_action list \<Rightarrow> int list" where
  "put_times sv sel tr [] = []"
| "put_times sv sel tr (x # xs) =
     (case x of
        Put uri payload \<Rightarrow>
          if sel payload \<and> sv_put sv tr uri payload = Inr () then [sv_clock sv (tr @ [x])] else []
      | _ \<Rightarrow> []) @ put_times sv sel (tr @ [x]) xs"

text \<open>Each instant comes more than \<open>rate\<close> after the one before it, the first one after \<open>sent\<close>.\<close>

fun spaced :: "int \<Rightarrow> int option \<Rightarrow> int list \<Rightarrow> bool" where
  "spaced rate sent [] \<longleftrightarrow> True"
| "spaced rate sent (t # ts) \<longleftrightarrow>
    (case sent of None \<Rightarrow> True | Some earlier \<Rightarrow> rate < t - earlier) \<and> spaced rate (Some t) ts"

fun latest :: "int option \<Rightarrow> int list \<Rightarrow> int option" where
  "latest sent [] = sent"
| "latest sent (t # ts) = latest (Some t) ts"

lemma put_times_append [simp]:
  "put_times sv sel tr (xs @ ys) = put_times sv sel tr xs @ put_times sv sel (tr @ xs) ys"
  by (induction xs arbitrary: tr) simp_all

lemma latest_append [simp]: "latest sent (xs @ ys) = latest (latest sent xs) ys"
  by (induction xs arbitrary: sent) simp_all

lemma spaced_append [simp]:
  "spaced rate sent (xs @ ys) \<longleftrightarrow> spaced rate sent xs \<and> spaced rate (latest sent xs) ys"
  by (induction xs arbitrary: sent) simp_all

lemma put_times_none: "\<forall>x \<in> set acts. \<not> is_put x \<Longrightarrow> put_times sv sel tr acts = []"
  by (induction acts arbitrary: tr) (auto split: conn_action.splits)

text \<open>Time does not go back within a round.\<close>

definition clock_ok :: "server \<Rightarrow> bool" where
  "clock_ok sv \<longleftrightarrow> (\<forall>tr x. sv_clock sv tr \<le> sv_clock sv (tr @ [x]))"

definition spaced_puts ::
  "server \<Rightarrow> (put_payload \<Rightarrow> bool) \<Rightarrow> (conn_state \<Rightarrow> int option) \<Rightarrow>
     conn_state \<Rightarrow> conn_action list \<Rightarrow> conn_action list \<Rightarrow> conn_state \<Rightarrow> bool" where
  "spaced_puts sv sel sent s tr acts s' \<longleftrightarrow>
    cs_post_rate_der s' = cs_post_rate_der s \<and>
    (0 \<le> cs_post_rate_der s \<longrightarrow>
       spaced (cs_post_rate_der s) (sent s) (put_times sv sel tr acts) \<and>
       sent s' = latest (sent s) (put_times sv sel tr acts))"

interpretation spacing: round_relation "spaced_puts sv sel sent" for sv sel sent
  by unfold_locales (auto simp: spaced_puts_def)

fun is_settings :: "put_payload \<Rightarrow> bool" where
  "is_settings (PutSettings _) = True"
| "is_settings _ = False"

fun is_status :: "put_payload \<Rightarrow> bool" where
  "is_status (PutStatus _) = True"
| "is_status _ = False"

lemma due_spaced:
  "rate < duration_since (sv_clock sv tr) earlier \<Longrightarrow> clock_ok sv \<Longrightarrow> 0 \<le> rate \<Longrightarrow>
     rate < sv_clock sv (tr @ [x]) - earlier"
  unfolding duration_since_def clock_ok_def by (smt (verit))

definition sends_neither :: "conn_state \<Rightarrow> conn_action list \<Rightarrow> conn_action list \<Rightarrow> conn_state \<Rightarrow> bool" where
  "sends_neither s tr acts s' \<longleftrightarrow>
    (\<forall>x \<in> set acts. \<not> is_put x) \<and> cs_post_rate_der s' = cs_post_rate_der s \<and>
    cs_last_sent_settings s' = cs_last_sent_settings s \<and> cs_last_sent_status s' = cs_last_sent_status s"

lemma neither_spaced:
  assumes "sends_neither s tr acts s'"
  shows "spaced_puts sv is_settings cs_last_sent_settings s tr acts s'"
    and "spaced_puts sv is_status cs_last_sent_status s tr acts s'"
  using assms put_times_none by (auto simp: spaced_puts_def sends_neither_def)

lemma neither_holds_spaced:
  assumes "holds_of sends_neither m"
  shows "holds_of (spaced_puts sv is_settings cs_last_sent_settings) m"
    and "holds_of (spaced_puts sv is_status cs_last_sent_status) m"
  using assms neither_spaced by (auto elim!: holds_of_weaken)

lemma quiet_neither: "quiet s tr acts s' \<Longrightarrow> sends_neither s tr acts s'"
  by (auto simp: quiet_def same_outbox_def sends_neither_def)

lemma put_settings_spaced:
  assumes "clock_ok sv"
  shows "holds_of (spaced_puts sv is_settings cs_last_sent_settings) (put_settings sv)"
    and "holds_of (spaced_puts sv is_status cs_last_sent_status) (put_settings sv)"
  using assms
  by (rule_tac [!] holds_ofI)
    (auto simp: put_settings_def put_def spaced_puts_def intro: due_spaced
      split: option.splits sum.splits if_splits)

lemma put_status_spaced:
  assumes "clock_ok sv"
  shows "holds_of (spaced_puts sv is_settings cs_last_sent_settings) (put_status sv)"
    and "holds_of (spaced_puts sv is_status cs_last_sent_status) (put_status sv)"
  using assms
  by (rule_tac [!] holds_ofI)
    (auto simp: put_status_def put_def spaced_puts_def intro: due_spaced
      split: option.splits sum.splits if_splits)

lemma put_capabilities_spaced:
  "holds_of (spaced_puts sv is_settings cs_last_sent_settings) (put_capabilities sv)"
  "holds_of (spaced_puts sv is_status cs_last_sent_status) (put_capabilities sv)"
  by (rule_tac [!] holds_ofI)
    (auto simp: put_capabilities_def put_def spaced_puts_def split: option.splits sum.splits if_splits)

lemma post_readings_neither: "holds_of sends_neither (post_readings a sv)"
proof (rule holds_ofI)
  fix s tr fl s' tr'
  assume run: "post_readings a sv (s, tr) = (fl, s', tr')"
  show "\<exists>acts. tr' = tr @ acts \<and> sends_neither s tr acts s'"
    using run
    by (auto simp: post_readings_def sends_neither_def reading_traffic_def dest!: send_meter_readings_keyed
        split: option.splits prod.splits if_splits bool.splits)
qed

fun keeps_rates :: "conn_command \<Rightarrow> bool" where
  "keeps_rates ResetConnection = False"
| "keeps_rates (UpdatePostRates _) = False"
| "keeps_rates _ = True"

lemma receive_neither:
  "keeps_rates command \<Longrightarrow> holds_of sends_neither (receive_conn_command a sv command)"
  by (rule holds_ofI; cases command)
    (auto simp: sends_neither_def subscribe_def unsubscribe_def start_poll_for_def Let_def push_response_def
      set_capabilities_def dest!: start_kind_trace split: option.splits if_splits)

lemmas neither_stages = post_readings_neither receive_neither quiet_stages [THEN holds_of_weaken, OF quiet_neither]

lemma command_spaced:
  assumes "keeps_rates command" "clock_ok sv"
  shows "holds_of (spaced_puts sv is_settings cs_last_sent_settings) (handle_conn_command a sv command)"
    and "holds_of (spaced_puts sv is_status cs_last_sent_status) (handle_conn_command a sv command)"
  using assms
  by (auto intro!: spacing.command_holds put_settings_spaced put_status_spaced put_capabilities_spaced
      intro: neither_holds_spaced neither_stages)

text \<open>The instants, over the rounds of a run, at which the server accepted a PUT of a kind.\<close>

definition accepted_times :: "(put_payload \<Rightarrow> bool) \<Rightarrow> (server \<times> conn_action list) list \<Rightarrow> int list" where
  "accepted_times sel rounds = concat (map (\<lambda>(sv, tr). put_times sv sel [] tr) rounds)"

text \<open>
  C14: as long as the post rates stay and the connection is not reset, the server gets the settings at
  most once per post rate, and the status too: each accepted PUT comes later than the one before it by
  more than the rate, however often the device is polled and whatever has to be retried.
\<close>

theorem post_rate_respected:
  assumes "conn_run a inputs s = (ConnRunning s', rounds)"
    and "\<forall>(sv, received) \<in> set inputs. clock_ok sv \<and> (\<forall>c. received = Some c \<longrightarrow> keeps_rates c)"
    and "0 \<le> cs_post_rate_der s"
  shows "spaced (cs_post_rate_der s) (cs_last_sent_settings s) (accepted_times is_settings rounds) \<and>
    spaced (cs_post_rate_der s) (cs_last_sent_status s) (accepted_times is_status rounds)"
  using assms
proof (induction rule: running_induct)
  case Nil
  show ?case by (simp add: accepted_times_def)
next
  case (Round sv command inputs s s1 tr rounds)
  then have ok: "keeps_rates command" "clock_ok sv" by auto
  from round_holds [OF Round(1) command_spaced(1) [OF ok]] round_holds [OF Round(1) command_spaced(2) [OF ok]]
  have "cs_post_rate_der s1 = cs_post_rate_der s"
    "spaced (cs_post_rate_der s) (cs_last_sent_settings s) (put_times sv is_settings [] tr)"
    "spaced (cs_post_rate_der s) (cs_last_sent_status s) (put_times sv is_status [] tr)"
    "cs_last_sent_settings s1 = latest (cs_last_sent_settings s) (put_times sv is_settings [] tr)"
    "cs_last_sent_status s1 = latest (cs_last_sent_status s) (put_times sv is_status [] tr)"
    using Round.prems(2) by (auto simp: spaced_puts_def)
  with Round show ?case by (auto simp: accepted_times_def)
qed

end
