(* ===== verification/Sep2_Rounds.thy ===== *)
theory Sep2_Rounds
  imports Sep2_Task
begin

text \<open>
  What holds over the rounds of the SEP2 task: the invariant of its state, which device it works for
  and when it stops, what a failed exchange holds back and what a successful one leaves undone, and
  the check of the PIN.
\<close>

section \<open>The invariant of the state\<close>

lemma limit_queue_eq: "limit_queue q = drop (length q - 29) q"
proof (induction q rule: limit_queue.induct)
  case (1 q)
  show ?case
  proof (cases "MAX_RESPONSE_QUEUE_SIZE \<le> length q")
    case True
    then have "limit_queue q = limit_queue (tl q)" by (simp add: limit_queue.simps [of q])
    moreover have "drop (length (tl q) - 29) (tl q) = drop (length q - 29) q"
    proof -
      have "length q - 29 = Suc (length (tl q) - 29)" using True by (simp add: MAX_RESPONSE_QUEUE_SIZE_def)
      then show ?thesis by (simp add: drop_Suc)
    qed
    ultimately show ?thesis using 1 True by simp
  next
    case False
    then show ?thesis by (simp add: limit_queue.simps [of q] MAX_RESPONSE_QUEUE_SIZE_def)
  qed
qed

text \<open>
  What is known depends on what it was derived from, at most 29 responses wait, and each poll is one
  that \<^verbatim>\<open>start_poll_for\<close> sets up for its href.
\<close>

definition polls_ok :: "conn_args \<Rightarrow> (href \<times> established_poll) list \<Rightarrow> bool" where
  "polls_ok a polls \<longleftrightarrow> hm_ok polls \<and>
    (\<forall>href poll. map_of polls href = Some poll \<longrightarrow>
       ep_handle poll \<in> {href, paginated_uri href (ca_max_list_size a)})"

definition conn_ok :: "conn_args \<Rightarrow> conn_state \<Rightarrow> bool" where
  "conn_ok a s \<longleftrightarrow>
    length (cs_queue s) \<le> 29 \<and> polls_ok a (cs_polls s) \<and>
    (cs_dcap s \<noteq> None \<longrightarrow> cs_dcap_poll s) \<and>
    (cs_server_device s \<noteq> None \<longrightarrow>
       (\<exists>dcap. cs_dcap s = Some dcap \<and> dcap_end_device_list_link dcap \<noteq> None)) \<and>
    (cs_registration s \<noteq> None \<longrightarrow> cs_server_device s \<noteq> None) \<and>
    (cs_der s \<noteq> None \<longrightarrow> cs_server_device s \<noteq> None)"

definition stays_ok :: "conn_args \<Rightarrow> conn_state \<Rightarrow> conn_action list \<Rightarrow> conn_action list \<Rightarrow> conn_state \<Rightarrow> bool" where
  "stays_ok a s tr acts s' \<longleftrightarrow> (conn_ok a s \<longrightarrow> conn_ok a s')"

interpretation ok: round_relation "stays_ok a" for a
  by unfold_locales (auto simp: stays_ok_def)

lemma conn_ok_initial: "conn_ok a initial_conn"
  by (simp add: conn_ok_def polls_ok_def initial_conn_def)

lemma start_poll_handle:
  "start_poll_for sv kind href rate n tr = (Some poll, tr') \<Longrightarrow>
     ep_handle poll \<in> {href, paginated_uri href n} \<and> ep_poll_rate poll = rate"
  by (cases kind) (auto simp: start_poll_for_def Let_def)

lemma start_poll_trace:
  "start_poll_for sv kind href rate n tr = (p, tr') \<Longrightarrow>
     \<exists>acts. tr' = tr @ acts \<and> (\<forall>x \<in> set acts. \<not> is_put x \<and> readings_of x = [])"
  by (auto simp: start_poll_for_def Let_def dest: start_kind_trace split: option.splits)

lemma responses_shrink:
  "send_control_responses sv lfdi queue tr = ((retry, queue'), tr') \<Longrightarrow>
     length queue' \<le> length queue \<and> (retry \<longleftrightarrow> queue' \<noteq> [])"
  by (induction queue arbitrary: tr) (fastforce simp: Let_def split: if_splits)+

lemma polls_ok_insert:
  "polls_ok a polls \<Longrightarrow> ep_handle poll \<in> {href, paginated_uri href (ca_max_list_size a)} \<Longrightarrow>
     polls_ok a (hm_insert href poll polls)"
  unfolding polls_ok_def by simp

lemma polls_ok_update:
  assumes "polls_ok a polls" "map_of polls href = Some poll"
  shows "polls_ok a (hm_insert href (poll\<lparr>ep_poll_rate := rate\<rparr>) polls)"
  using assms by (intro polls_ok_insert) (simp_all add: polls_ok_def)

lemma polls_ok_retain: "polls_ok a polls \<Longrightarrow> polls_ok a (hm_retain p polls)"
  unfolding polls_ok_def by (auto simp: map_of_hm_retain split: option.splits if_splits)

lemma conn_ok_outbox [simp]:
  "conn_ok a (s\<lparr>cs_latest_settings := x1\<rparr>) = conn_ok a s"
  "conn_ok a (s\<lparr>cs_latest_status := x2\<rparr>) = conn_ok a s"
  "conn_ok a (s\<lparr>cs_latest_readings := x3\<rparr>) = conn_ok a s"
  "conn_ok a (s\<lparr>cs_post_rate_der := x4, cs_post_rate_mup := x5\<rparr>) = conn_ok a s"
  "conn_ok a (set_capabilities c s) = conn_ok a s"
  by (simp_all add: conn_ok_def set_capabilities_def)

lemma conn_ok_reset: "conn_ok a s \<Longrightarrow> conn_ok a (reset_connection s)"
  by (simp add: conn_ok_def reset_connection_def)

lemma conn_ok_push: "conn_ok a s \<Longrightarrow> conn_ok a (push_response r s)"
  by (simp add: conn_ok_def push_response_def limit_queue_eq)

lemma receive_ok: "holds_of (stays_ok a) (receive_conn_command a sv command)"
proof (rule holds_ofI)
  fix s tr fl s' tr'
  assume run: "receive_conn_command a sv command (s, tr) = (fl, s', tr')"
  show "\<exists>acts. tr' = tr @ acts \<and> stays_ok a s tr acts s'"
  proof (cases command)
    case (SubscribeToResource href kind rate)
    show ?thesis
    proof (cases "map_of (cs_polls s) href")
      case None
      obtain p tr1 where start: "start_poll_for sv kind href
          (case rate of None \<Rightarrow> ca_default_poll_rate a | Some r \<Rightarrow> r) (ca_max_list_size a) tr = (p, tr1)"
        by (metis prod.exhaust)
      obtain acts where "tr1 = tr @ acts" using start_poll_trace [OF start] by blast
      with run SubscribeToResource None start show ?thesis
        by (cases p) (auto simp: subscribe_def Let_def stays_ok_def
            conn_ok_def
            intro!: polls_ok_insert [OF _ start_poll_handle [THEN conjunct1]])
    next
      case (Some poll)
      with run SubscribeToResource show ?thesis
        by (auto simp: subscribe_def Let_def stays_ok_def conn_ok_def polls_ok_update split: if_splits)
    qed
  next
    case (UnsubscribeFromResource href)
    with run show ?thesis
      by (auto simp: unsubscribe_def stays_ok_def conn_ok_def polls_ok_retain split: option.splits if_splits)
  qed (use run in \<open>auto simp: stays_ok_def conn_ok_push conn_ok_reset\<close>)
qed

lemma stages_ok:
  "holds_of (stays_ok a) (ensure_dcap a sv)" "holds_of (stays_ok a) (ensure_registered a sv)"
  "holds_of (stays_ok a) (check_pin a sv)" "holds_of (stays_ok a) (post_responses a sv)"
  "holds_of (stays_ok a) (find_der a sv)" "holds_of (stays_ok a) (put_settings sv)"
  "holds_of (stays_ok a) (put_status sv)" "holds_of (stays_ok a) (put_capabilities sv)"
  "holds_of (stays_ok a) nothing_to_retry" "holds_of (stays_ok a) (retry_gate command)"
proof -
  show "holds_of (stays_ok a) (ensure_dcap a sv)"
    by (rule holds_ofI)
      (auto simp: ensure_dcap_def get_dcap_def Let_def get_def stays_ok_def conn_ok_def
        split: option.splits sum.splits if_splits)
  show "holds_of (stays_ok a) (ensure_registered a sv)"
    by (rule holds_ofI)
      (auto simp: ensure_registered_def stays_ok_def conn_ok_def dest!: registration_quiet
        split: option.splits sum.splits prod.splits)
  show "holds_of (stays_ok a) (check_pin a sv)"
    by (rule holds_ofI)
      (auto simp: check_pin_def get_def stays_ok_def conn_ok_def split: option.splits sum.splits if_splits)
  show "holds_of (stays_ok a) (post_responses a sv)"
    by (rule holds_ofI)
      (fastforce simp: post_responses_def stays_ok_def conn_ok_def
        dest: responses_trace responses_shrink split: prod.splits)
  show "holds_of (stays_ok a) (find_der a sv)"
    by (rule holds_ofI)
      (auto simp: find_der_def ensure_der_def get_def stays_ok_def conn_ok_def
        split: option.splits sum.splits prod.splits if_splits)
  show "holds_of (stays_ok a) (put_settings sv)" "holds_of (stays_ok a) (put_status sv)"
    "holds_of (stays_ok a) (put_capabilities sv)"
    by (rule holds_ofI; auto simp: put_settings_def put_status_def put_capabilities_def put_def stays_ok_def
        conn_ok_def split: option.splits sum.splits if_splits)+
  show "holds_of (stays_ok a) nothing_to_retry" "holds_of (stays_ok a) (retry_gate command)"
    by (rule holds_ofI; auto simp: nothing_to_retry_def retry_gate_def stays_ok_def conn_ok_def split: if_splits)+
qed

lemma post_readings_ok: "holds_of (stays_ok a) (post_readings a sv)"
proof (rule holds_ofI)
  fix s tr fl s' tr'
  assume run: "post_readings a sv (s, tr) = (fl, s', tr')"
  show "\<exists>acts. tr' = tr @ acts \<and> stays_ok a s tr acts s'"
    using run
    by (auto simp: post_readings_def stays_ok_def conn_ok_def dest!: send_meter_readings_keyed
        split: option.splits prod.splits if_splits bool.splits)
qed

lemma command_ok: "holds_of (stays_ok a) (handle_conn_command a sv command)"
  by (intro ok.command_holds receive_ok stages_ok) (auto intro: stages_ok post_readings_ok)

lemma conn_ok_manage [simp]: "conn_ok a (s\<lparr>cs_retry_handle := h\<rparr>) = conn_ok a s"
  by (simp add: conn_ok_def)

lemma conn_ok_run:
  assumes "conn_run a inputs s = (ConnRunning s', rounds)" "conn_ok a s"
  shows "conn_ok a s'"
  using assms
proof (induction rule: running_induct)
  case Nil
  then show ?case .
next
  case (Round sv command inputs s s1 tr rounds)
  from round_holds [OF Round(1) command_ok] Round show ?case by (auto simp: stays_ok_def)
qed

text \<open>
  C36: however the server behaves, at most 29 control responses ever wait to be sent; a new one joins at
  the end, and only when 29 are already waiting is the oldest of them given up for it.
\<close>

theorem response_queue_bounded:
  assumes "conn_run a inputs initial_conn = (ConnRunning s, rounds)"
  shows "length (cs_queue s) \<le> 29 \<and>
    cs_queue (push_response r s) = (if length (cs_queue s) = 29 then tl (cs_queue s) else cs_queue s) @ [r]"
proof -
  have "length (cs_queue s) \<le> 29"
    using conn_ok_run [OF assms conn_ok_initial] by (simp add: conn_ok_def)
  moreover from this have "cs_queue (push_response r s) =
      (if length (cs_queue s) = 29 then tl (cs_queue s) else cs_queue s) @ [r]"
    by (cases "cs_queue s") (auto simp: push_response_def limit_queue_eq)
  ultimately show ?thesis by simp
qed

section \<open>The device the task works for\<close>

definition device_known ::
  "conn_args \<Rightarrow> server \<Rightarrow> conn_state \<Rightarrow> conn_action list \<Rightarrow> conn_action list \<Rightarrow> conn_state \<Rightarrow> bool" where
  "device_known a sv s tr acts s' \<longleftrightarrow>
    (\<forall>d. cs_server_device s' = Some d \<longrightarrow>
       cs_server_device s = Some d \<or> recognised (ca_device_to_register a) sv (tr @ acts) d)"

interpretation known: round_relation "device_known a sv" for a sv
  by unfold_locales (auto simp: device_known_def simp flip: append_assoc intro: recognised_append)

definition same_device :: "conn_state \<Rightarrow> conn_action list \<Rightarrow> conn_action list \<Rightarrow> conn_state \<Rightarrow> bool" where
  "same_device s tr acts s' \<longleftrightarrow> cs_server_device s' = cs_server_device s \<or> cs_server_device s' = None"

lemma same_device_known: "holds_of same_device m \<Longrightarrow> holds_of (device_known a sv) m"
  by (erule holds_of_weaken) (auto simp: same_device_def device_known_def)

lemma same_device_stages:
  "holds_of same_device (ensure_dcap a sv)" "holds_of same_device (check_pin a sv)"
  "holds_of same_device (post_responses a sv)" "holds_of same_device (find_der a sv)"
  "holds_of same_device (put_settings sv)" "holds_of same_device (put_status sv)"
  "holds_of same_device (put_capabilities sv)" "holds_of same_device (post_readings a sv)"
  "holds_of same_device nothing_to_retry" "holds_of same_device (retry_gate command)"
proof -
  show "holds_of same_device (ensure_dcap a sv)" "holds_of same_device (check_pin a sv)"
    "holds_of same_device (find_der a sv)"
    by (rule holds_ofI; auto simp: ensure_dcap_def get_dcap_def check_pin_def find_der_def ensure_der_def Let_def get_def
        same_device_def split: option.splits sum.splits prod.splits if_splits)+
  show "holds_of same_device (post_responses a sv)"
    by (rule holds_ofI) (auto simp: post_responses_def same_device_def dest!: responses_trace split: prod.splits)
  show "holds_of same_device (put_settings sv)" "holds_of same_device (put_status sv)"
    "holds_of same_device (put_capabilities sv)"
    by (rule holds_ofI; auto simp: put_settings_def put_status_def put_capabilities_def put_def same_device_def
        split: option.splits sum.splits if_splits)+
  show "holds_of same_device (post_readings a sv)"
    by (rule holds_ofI)
      (auto simp: post_readings_def same_device_def dest!: send_meter_readings_keyed
        split: option.splits prod.splits if_splits bool.splits)
  show "holds_of same_device nothing_to_retry" "holds_of same_device (retry_gate command)"
    by (rule holds_ofI; auto simp: nothing_to_retry_def retry_gate_def same_device_def split: if_splits)+
qed

lemma receive_same_device: "holds_of same_device (receive_conn_command a sv command)"
  by (rule holds_ofI; cases command)
    (auto simp: same_device_def subscribe_def unsubscribe_def Let_def push_response_def reset_connection_def
      set_capabilities_def dest!: start_poll_trace split: option.splits prod.splits if_splits)

lemma registration_effect:
  "ensure_device_registered sv uri dev n tr = (found, tr') \<Longrightarrow>
     (\<exists>acts. tr' = tr @ acts) \<and> (\<forall>d. found = Inr (Some d) \<longrightarrow> recognised dev sv tr' d)"
  using registration_trace registered_device by blast

lemma ensure_registered_known: "holds_of (device_known a sv) (ensure_registered a sv)"
proof (rule holds_ofI)
  fix s tr fl s' tr'
  assume run: "ensure_registered a sv (s, tr) = (fl, s', tr')"
  show "\<exists>acts. tr' = tr @ acts \<and> device_known a sv s tr acts s'"
    using run
    by (auto simp: ensure_registered_def device_known_def dest!: registration_effect
        split: option.splits sum.splits prod.splits)
qed

lemma command_known: "holds_of (device_known a sv) (handle_conn_command a sv command)"
  by (intro known.command_holds)
    (auto intro: same_device_known same_device_stages receive_same_device ensure_registered_known)

text \<open>
  C13: the device record the task works with is one the server gave it in this run for its own LFDI: the
  only entry of the end device list, carrying that LFDI, or the record made when this device was
  posted to an empty list.
\<close>

theorem device_is_our_own:
  assumes "conn_run a inputs initial_conn = (ConnRunning s, rounds)"
    and "cs_server_device s = Some d"
  shows "\<exists>(sv, tr) \<in> set rounds. recognised (ca_device_to_register a) sv tr d"
proof -
  have "cs_server_device s0 = Some d \<or> (\<exists>(sv, tr) \<in> set rounds. recognised (ca_device_to_register a) sv tr d)"
    if "conn_run a inputs s0 = (ConnRunning s, rounds)" for s0
    using that
  proof (induction rule: running_induct)
    case Nil
    show ?case using assms(2) by simp
  next
    case (Round sv command inputs s0 s1 tr rounds)
    from round_holds [OF Round(1) command_known] Round(3) show ?case
      by (auto simp: device_known_def)
  qed
  from this [OF assms(1)] show ?thesis by (simp add: initial_conn_def)
qed

section \<open>When the task stops\<close>

definition stops_only :: "(sep2_error \<Rightarrow> conn_action list \<Rightarrow> bool) \<Rightarrow> stage \<Rightarrow> bool" where
  "stops_only P m \<longleftrightarrow> (\<forall>s tr e s' tr'. m (s, tr) = (Fail e, s', tr') \<longrightarrow> P e tr')"

lemma stops_only_andthen: "stops_only P m \<Longrightarrow> stops_only P k \<Longrightarrow> stops_only P (andthen m k)"
  unfolding stops_only_def andthen_def by (auto split: prod.splits flow.splits)

lemma stops_only_stages: "\<forall>m \<in> set ms. stops_only P m \<Longrightarrow> stops_only P (stages ms)"
proof (induction ms)
  case Nil
  show ?case by (simp add: stops_only_def)
next
  case (Cons m ms)
  then have "stops_only P (andthen m (stages ms))" by (intro stops_only_andthen) auto
  then show ?case by (simp add: stops_only_def)
qed

lemma never_stops:
  "stops_only P (check_pin a sv)" "stops_only P (post_responses a sv)" "stops_only P (find_der a sv)"
  "stops_only P (put_settings sv)" "stops_only P (put_status sv)" "stops_only P (put_capabilities sv)"
  "stops_only P (post_readings a sv)" "stops_only P nothing_to_retry" "stops_only P (retry_gate command)"
  "stops_only P (receive_conn_command a sv command)"
proof -
  show "stops_only P (check_pin a sv)" "stops_only P (find_der a sv)" "stops_only P (post_responses a sv)"
    by (auto simp: stops_only_def check_pin_def find_der_def post_responses_def
        split: option.splits sum.splits prod.splits if_splits)
  show "stops_only P (put_settings sv)" "stops_only P (put_status sv)" "stops_only P (put_capabilities sv)"
    by (auto simp: stops_only_def put_settings_def put_status_def put_capabilities_def
        split: option.splits sum.splits prod.splits if_splits)
  show "stops_only P (post_readings a sv)"
    by (auto simp: stops_only_def post_readings_def split: option.splits prod.splits if_splits bool.splits)
  show "stops_only P nothing_to_retry" "stops_only P (retry_gate command)"
    by (auto simp: stops_only_def nothing_to_retry_def retry_gate_def split: if_splits)
  show "stops_only P (receive_conn_command a sv command)"
    by (cases command) (auto simp: stops_only_def)
qed

text \<open>
  C37: the task stops of its own accord for two reasons only: nobody takes its events any more, or the
  server's end device list, fetched in that very round, is not the list of this device (several
  devices, or one under another LFDI, or an entry that is missing). Every other failure of the server
  is tried again.
\<close>

theorem stops_only_for_foreign_device:
  assumes "conn_round a sv received s = (ConnFailed e, tr)"
  shows "e = ChannelClosed \<and> \<not> sv_listening sv \<or>
    (\<exists>before uri edl. tr = before @ [Get uri] \<and> sv_end_device_list sv before uri = Inr edl \<and>
       unacceptable (ca_device_to_register a) edl)"
proof -
  let ?P = "\<lambda>e tr. e = ChannelClosed \<and> \<not> sv_listening sv \<or>
    (\<exists>before uri edl. tr = before @ [Get uri] \<and> sv_end_device_list sv before uri = Inr edl \<and>
       unacceptable (ca_device_to_register a) edl)"
  obtain command where command: "received = Some command"
    using assms by (cases received) (auto simp: conn_round_def)
  have "stops_only ?P (ensure_dcap a sv)"
    by (auto simp: stops_only_def ensure_dcap_def get_dcap_def Let_def split: option.splits sum.splits prod.splits if_splits)
  moreover have "stops_only ?P (ensure_registered a sv)"
    by (auto simp: stops_only_def ensure_registered_def dest!: registration_stops
        split: option.splits sum.splits prod.splits)
  ultimately have "stops_only ?P (handle_conn_command a sv command)"
    unfolding handle_conn_command_def send_pending_def
    by (intro stops_only_stages) (simp add: stops_only_stages never_stops)
  with assms command show ?thesis
    by (auto simp: conn_round_def stops_only_def manage_retry_eq split: prod.splits flow.splits)
qed

section \<open>While a retry is pending\<close>

fun is_upload :: "conn_action \<Rightarrow> bool" where
  "is_upload (Put _ _) = True"
| "is_upload (Post _ _) = True"
| "is_upload _ = False"

lemma start_poll_no_upload:
  "start_poll_for sv kind href rate n tr = (p, tr') \<Longrightarrow>
     \<exists>acts. tr' = tr @ acts \<and> (\<forall>x \<in> set acts. \<not> is_upload x)"
  by (cases kind) (auto simp: start_poll_for_def Let_def get_then_poll_def get_def split: sum.splits)

lemma subscribe_no_upload:
  "subscribe a sv href kind rate (s, tr) = (s', tr') \<Longrightarrow>
     cs_retry_requested s' = cs_retry_requested s \<and>
     (\<exists>acts. tr' = tr @ acts \<and> (\<forall>x \<in> set acts. \<not> is_upload x))"
  by (auto simp: subscribe_def Let_def dest!: start_poll_no_upload split: option.splits prod.splits if_splits)

lemma unsubscribe_no_upload:
  "unsubscribe href (s, tr) = (s', tr') \<Longrightarrow>
     cs_retry_requested s' = cs_retry_requested s \<and>
     (\<exists>acts. tr' = tr @ acts \<and> (\<forall>x \<in> set acts. \<not> is_upload x))"
  by (auto simp: unsubscribe_def split: option.splits)

lemma held_back:
  assumes "cs_retry_requested s" "\<not> is_wake_command command"
  shows "\<exists>s' tr. conn_round a sv (Some command) s = (ConnRunning s', tr) \<and> cs_retry_requested s' \<and>
    (\<forall>x \<in> set tr. \<not> is_upload x)"
proof -
  let ?s = "s\<lparr>cs_retry_handle := True\<rparr>"
  let ?start = "if cs_retry_handle s then [] else [SpawnRetry]"
  have start: "manage_retry (s, []) = (?s, ?start)" using assms(1) by (simp add: manage_retry_eq)
  have "\<exists>s' acts. handle_conn_command a sv command (?s, ?start) = (Continue, s', ?start @ acts) \<and>
      cs_retry_requested s' \<and> (\<forall>x \<in> set acts. \<not> is_upload x)"
  proof (cases command)
    case (SubscribeToResource href kind rate)
    obtain s' tr where "subscribe a sv href kind rate (?s, ?start) = (s', tr)" by (metis prod.exhaust)
    with subscribe_no_upload [OF this] assms(1) SubscribeToResource show ?thesis
      by (auto simp: handle_conn_command_def andthen_def)
  next
    case (UnsubscribeFromResource href)
    obtain s' tr where "unsubscribe href (?s, ?start) = (s', tr)" by (metis prod.exhaust)
    with unsubscribe_no_upload [OF this] assms(1) UnsubscribeFromResource show ?thesis
      by (auto simp: handle_conn_command_def andthen_def)
  qed (use assms in \<open>auto simp: handle_conn_command_def andthen_def retry_gate_def push_response_def
      set_capabilities_def\<close>)
  then show ?thesis by (auto simp: conn_round_def start split: if_splits)
qed

text \<open>
  C11: once an exchange has failed, nothing is put or posted until the retry task (or a reset of the
  connection) wakes the task, whatever commands come in meanwhile; only polls are started, changed or
  cancelled.
\<close>

theorem quiet_until_woken:
  assumes "cs_retry_requested s"
    and "\<forall>(sv, received) \<in> set inputs. \<forall>c. received = Some c \<longrightarrow> \<not> is_wake_command c"
    and "conn_run a inputs s = (r, rounds)" "(sv, tr) \<in> set rounds" "x \<in> set tr"
  shows "\<not> is_upload x"
proof -
  have "\<forall>(sv, tr) \<in> set rounds. \<forall>x \<in> set tr. \<not> is_upload x"
    using assms(1-3)
  proof (induction inputs arbitrary: s rounds)
    case Nil
    then show ?case by simp
  next
    case (Cons input inputs)
    obtain sv received where input: "input = (sv, received)" by (cases input)
    show ?case
    proof (cases received)
      case None
      with Cons.prems input show ?thesis
        by (auto simp: conn_round_def cleanup_def manage_retry_eq split: if_splits)
    next
      case (Some command)
      with Cons.prems input held_back [of s command a sv] obtain s1 tr where
        step: "conn_round a sv received s = (ConnRunning s1, tr)" "cs_retry_requested s1"
        "\<forall>x \<in> set tr. \<not> is_upload x"
        by auto
      from Cons.prems(3) input step(1) obtain rounds1 where
        rest: "conn_run a inputs s1 = (r, rounds1)" "rounds = (sv, tr) # rounds1"
        by (auto simp: Let_def split: prod.splits)
      from Cons.IH [OF step(2) _ rest(1)] Cons.prems(2) rest(2) step(3) show ?thesis by auto
    qed
  qed
  with assms(4,5) show ?thesis by blast
qed

section \<open>The PIN\<close>

text \<open>
  C38: the PIN is checked once only. A server whose PIN is not the expected one makes the round start
  over, as it should; but what the server said is kept, and from the next attempt on the check passes,
  whatever the PIN is. The device then goes on as if the PIN had matched.
\<close>

theorem pin_mismatch_bypassed:
  assumes "cs_server_device s = Some d" "cs_registration s = None"
    and "ed_registration_link d = Some link" "ca_expected_pin a = Some pin"
    and "sv_registration sv tr link = Inr reg" "rg_pin reg \<noteq> pin"
  shows "\<exists>s' tr'. check_pin a sv (s, tr) = (Continue, s', tr') \<and>
    (\<forall>sv' tr''. check_pin a sv' (s', tr'') = (Proceed, s', tr''))"
  using assms by (auto simp: check_pin_def get_def)

section \<open>What a successful round leaves undone\<close>

definition not_due :: "server \<Rightarrow> conn_action list \<Rightarrow> int option \<Rightarrow> int \<Rightarrow> bool" where
  "not_due sv tr sent rate \<longleftrightarrow>
    (\<exists>earlier. prefix earlier tr \<and> \<not> post_due (sv_clock sv earlier) sent rate)"

lemma not_due_here: "\<not> post_due (sv_clock sv tr) sent rate \<Longrightarrow> not_due sv tr sent rate"
  unfolding not_due_def by blast

lemma not_due_append: "not_due sv tr sent rate \<Longrightarrow> not_due sv (tr @ acts) sent rate"
  unfolding not_due_def using prefix_order.trans prefixI by blast

text \<open>Requests the server accepted in the course of a trace.\<close>

definition accepted_put :: "server \<Rightarrow> conn_action list \<Rightarrow> href \<Rightarrow> put_payload \<Rightarrow> bool" where
  "accepted_put sv tr uri payload \<longleftrightarrow>
    (\<exists>earlier later. tr = earlier @ Put uri payload # later \<and> sv_put sv earlier uri payload = Inr ())"

definition accepted_reading :: "server \<Rightarrow> conn_action list \<Rightarrow> mirror_meter_reading \<Rightarrow> bool" where
  "accepted_reading sv tr r \<longleftrightarrow>
    (\<exists>earlier later uri payload answer mrid. tr = earlier @ Post uri payload # later \<and>
       sv_post sv earlier uri payload = Inr answer \<and> r\<lparr>mmr_mrid := mrid\<rparr> \<in> set (payload_readings payload))"

lemma accepted_put_here: "sv_put sv tr uri payload = Inr () \<Longrightarrow> accepted_put sv (tr @ [Put uri payload]) uri payload"
  unfolding accepted_put_def by blast

lemma accepted_put_append: "accepted_put sv tr uri payload \<Longrightarrow> accepted_put sv (tr @ acts) uri payload"
  unfolding accepted_put_def by (metis append.assoc append_Cons)

lemma accepted_reading_here:
  "sv_post sv tr uri payload = Inr answer \<Longrightarrow> r\<lparr>mmr_mrid := mrid\<rparr> \<in> set (payload_readings payload) \<Longrightarrow>
     accepted_reading sv (tr @ [Post uri payload]) r"
  unfolding accepted_reading_def by blast

lemma accepted_reading_append: "accepted_reading sv tr r \<Longrightarrow> accepted_reading sv (tr @ acts) r"
  unfolding accepted_reading_def by (metis append.assoc append_Cons)

text \<open>
  What has become of an upload \<open>x\<close> that was held: without a link it is still held; with one it was put
  there, accepted and given up, or it is still held and its rate has not passed.
\<close>

definition upload_done ::
  "server \<Rightarrow> conn_action list \<Rightarrow> href option \<Rightarrow> put_payload \<Rightarrow> int option \<Rightarrow> int \<Rightarrow> 'a option \<Rightarrow> 'a \<Rightarrow> bool" where
  "upload_done sv tr link payload sent rate rest x \<longleftrightarrow>
    (case link of
       None \<Rightarrow> rest = Some x
     | Some uri \<Rightarrow> rest = None \<and> accepted_put sv tr uri payload \<or> rest = Some x \<and> not_due sv tr sent rate)"

lemma upload_done_append:
  "upload_done sv tr link payload sent rate rest x \<Longrightarrow>
     upload_done sv (tr @ acts) link payload sent rate rest x"
  by (auto simp: upload_done_def intro: accepted_put_append not_due_append split: option.splits)

text \<open>
  The state \<open>held\<close> is that of the task before it sends anything; what follows says what a world has
  done about it.
\<close>

definition responses_done :: "server \<Rightarrow> lfdi \<Rightarrow> conn_state \<Rightarrow> world \<Rightarrow> bool" where
  "responses_done sv lfdi held = (\<lambda>(s, tr). cs_queue s = [] \<and>
    (\<exists>before after. tr = before @ map (response_post lfdi) (cs_queue held) @ after \<and>
       (\<forall>i < length (cs_queue held). settled sv lfdi
          (before @ map (response_post lfdi) (take i (cs_queue held))) (cs_queue held ! i))))"

definition settings_done :: "server \<Rightarrow> conn_state \<Rightarrow> world \<Rightarrow> bool" where
  "settings_done sv held = (\<lambda>(s, tr). \<forall>settings. cs_latest_settings held = Some settings \<longrightarrow>
    upload_done sv tr (Option.bind (cs_der s) der_settings_link) (PutSettings settings)
      (cs_last_sent_settings held) (cs_post_rate_der held) (cs_latest_settings s) settings)"

definition status_done :: "server \<Rightarrow> conn_state \<Rightarrow> world \<Rightarrow> bool" where
  "status_done sv held = (\<lambda>(s, tr). \<forall>status. cs_latest_status held = Some status \<longrightarrow>
    upload_done sv tr (Option.bind (cs_der s) der_status_link) (PutStatus status)
      (cs_last_sent_status held) (cs_post_rate_der held) (cs_latest_status s) status)"

text \<open>The capabilities are never given up; they are put again once a day.\<close>

definition capabilities_done :: "server \<Rightarrow> conn_state \<Rightarrow> world \<Rightarrow> bool" where
  "capabilities_done sv held = (\<lambda>(s, tr). \<forall>capabilities. cs_capabilities held = Some capabilities \<longrightarrow>
    cs_capabilities s = Some capabilities \<and>
    (case Option.bind (cs_der s) der_capability_link of
       None \<Rightarrow> True
     | Some uri \<Rightarrow> accepted_put sv tr uri (PutCapability capabilities) \<or>
         not_due sv tr (cs_last_sent_capabilities held) POST_RATE_CAPABILITIES))"

definition readings_done :: "server \<Rightarrow> conn_state \<Rightarrow> world \<Rightarrow> bool" where
  "readings_done sv held = (\<lambda>(s, tr). \<forall>readings. cs_latest_readings held = Some readings \<longrightarrow>
    cs_latest_readings s = None \<and> (\<forall>r \<in> set readings. reading_key r \<noteq> None \<longrightarrow> accepted_reading sv tr r) \<or>
    cs_latest_readings s = Some readings \<and> not_due sv tr (cs_last_sent_readings held) (cs_post_rate_mup held))"

text \<open>What is still as it was in the state \<open>held\<close>.\<close>

definition rates_held :: "conn_state \<Rightarrow> conn_state \<Rightarrow> bool" where
  "rates_held h s \<longleftrightarrow> cs_post_rate_der s = cs_post_rate_der h \<and> cs_post_rate_mup s = cs_post_rate_mup h"

definition settings_held :: "conn_state \<Rightarrow> conn_state \<Rightarrow> bool" where
  "settings_held h s \<longleftrightarrow> cs_latest_settings s = cs_latest_settings h \<and>
    cs_last_sent_settings s = cs_last_sent_settings h"

definition status_held :: "conn_state \<Rightarrow> conn_state \<Rightarrow> bool" where
  "status_held h s \<longleftrightarrow> cs_latest_status s = cs_latest_status h \<and> cs_last_sent_status s = cs_last_sent_status h"

definition capabilities_held :: "conn_state \<Rightarrow> conn_state \<Rightarrow> bool" where
  "capabilities_held h s \<longleftrightarrow> cs_capabilities s = cs_capabilities h \<and>
    cs_last_sent_capabilities s = cs_last_sent_capabilities h"

definition readings_held :: "conn_state \<Rightarrow> conn_state \<Rightarrow> bool" where
  "readings_held h s \<longleftrightarrow> cs_latest_readings s = cs_latest_readings h \<and>
    cs_last_sent_readings s = cs_last_sent_readings h"

definition all_held :: "conn_state \<Rightarrow> conn_state \<Rightarrow> bool" where
  "all_held h s \<longleftrightarrow> rates_held h s \<and> settings_held h s \<and> status_held h s \<and> capabilities_held h s \<and> readings_held h s"

lemmas held_defs = rates_held_def settings_held_def status_held_def capabilities_held_def readings_held_def

lemmas done_defs = settings_done_def status_done_def capabilities_done_def readings_done_def responses_done_def

lemma all_held_outbox: "same_outbox s s' \<Longrightarrow> all_held h s \<Longrightarrow> all_held h s'"
  by (simp add: same_outbox_def all_held_def held_defs)

text \<open>A trace that goes on, with the same DER and what is held unchanged, keeps what is done.\<close>

lemma done_append:
  "responses_done sv lfdi h (s, tr) \<Longrightarrow> cs_queue s' = cs_queue s \<Longrightarrow> responses_done sv lfdi h (s', tr @ acts)"
  "settings_done sv h (s, tr) \<Longrightarrow> cs_der s' = cs_der s \<Longrightarrow> cs_latest_settings s' = cs_latest_settings s \<Longrightarrow>
     settings_done sv h (s', tr @ acts)"
  "status_done sv h (s, tr) \<Longrightarrow> cs_der s' = cs_der s \<Longrightarrow> cs_latest_status s' = cs_latest_status s \<Longrightarrow>
     status_done sv h (s', tr @ acts)"
  "capabilities_done sv h (s, tr) \<Longrightarrow> cs_der s' = cs_der s \<Longrightarrow> cs_capabilities s' = cs_capabilities s \<Longrightarrow>
     capabilities_done sv h (s', tr @ acts)"
proof -
  show "responses_done sv lfdi h (s', tr @ acts)" if "responses_done sv lfdi h (s, tr)" "cs_queue s' = cs_queue s"
    using that unfolding responses_done_def by (simp del: map_append) (metis append.assoc)
qed (auto simp: settings_done_def status_done_def capabilities_done_def
    intro: upload_done_append accepted_put_append not_due_append split: option.splits)

text \<open>All responses are settled when no retry is asked for, and all readings accepted.\<close>

lemma responses_all_sent:
  assumes "send_control_responses sv lfdi queue tr = ((False, queue'), tr')"
  shows "queue' = [] \<and> tr' = tr @ map (response_post lfdi) queue \<and>
    (\<forall>i < length queue. settled sv lfdi (tr @ map (response_post lfdi) (take i queue)) (queue ! i))"
  using assms
proof (induction queue arbitrary: tr)
  case (Cons r queue)
  have r: "settled sv lfdi tr r"
    and rest: "send_control_responses sv lfdi queue (tr @ [response_post lfdi r]) = ((False, queue'), tr')"
    using Cons.prems by (auto simp: Let_def settled_def response_post_def split: if_splits)
  from Cons.IH [OF rest] r show ?case by (auto simp: nth_Cons split: nat.splits)
qed simp

lemma ensure_mup_posted:
  "ensure_mup a sv mupl (r\<lparr>mmr_mrid := mrid\<rparr>) tr = (Some href, tr') \<Longrightarrow> accepted_reading sv tr' r"
  by (auto simp: ensure_mup_def Let_def web_defs
      intro: accepted_reading_here accepted_reading_here [where tr = "t @ [x]" for t x, simplified]
      split: option.splits sum.splits sep_response.splits prod.splits)

lemma send_readings_posted:
  assumes "send_readings a sv dcap readings mup cache tr = ((False, mup', cache'), tr')"
  shows "\<forall>r \<in> set readings. reading_key r \<noteq> None \<longrightarrow> accepted_reading sv tr' r"
  using assms
proof (induction readings arbitrary: mup cache tr)
  case (Cons r readings)
  show ?case
  proof (cases "reading_key r")
    case None
    then show ?thesis using Cons by simp
  next
    case (Some key)
    obtain mrid cache1 tr1 where entry: "mrid_entry a sv cache key tr = ((mrid, cache1), tr1)"
      by (metis prod.exhaust)
    obtain mup1 tr2 where sent: "accepted_reading sv tr2 r"
      and rest: "send_readings a sv dcap readings mup1 cache1 tr2 = ((False, mup', cache'), tr')"
    proof (cases mup)
      case None
      then obtain mupl href tr2 where "ensure_mup a sv mupl (r\<lparr>mmr_mrid := mrid\<rparr>) tr1 = (Some href, tr2)"
        "send_readings a sv dcap readings (Some href) cache1 tr2 = ((False, mup', cache'), tr')"
        using Cons.prems Some entry by (auto simp: Let_def split: option.splits prod.splits)
      then show thesis using that ensure_mup_posted by blast
    next
      case (Some href)
      let ?payload = "PostReading (r\<lparr>mmr_mrid := mrid\<rparr>)"
      obtain answer where "sv_post sv tr1 href ?payload = Inr answer"
        "send_readings a sv dcap readings mup cache1 (tr1 @ [Post href ?payload]) = ((False, mup', cache'), tr')"
        using Cons.prems \<open>reading_key r = Some key\<close> entry Some
        by (auto simp: Let_def web_defs split: sum.splits)
      then show thesis using that accepted_reading_here [of sv tr1 href ?payload answer mrid r] by simp
    qed
    obtain acts where "tr' = tr2 @ acts" using send_readings_keyed [OF rest] by blast
    then show ?thesis using Cons.IH [OF rest] sent by (simp add: accepted_reading_append)
  qed
qed simp

lemma readings_all_sent:
  "send_meter_readings a sv dcap readings mup cache tr = ((False, mup', cache'), tr') \<Longrightarrow>
     \<forall>r \<in> set readings. reading_key r \<noteq> None \<longrightarrow> accepted_reading sv tr' r"
  by (auto simp: send_meter_readings_def dest!: send_readings_posted split: prod.splits)

text \<open>What a stage establishes when it goes on.\<close>

definition leads_to :: "(world \<Rightarrow> bool) \<Rightarrow> stage \<Rightarrow> (world \<Rightarrow> bool) \<Rightarrow> bool" where
  "leads_to P m Q \<longleftrightarrow> (\<forall>s tr s' tr'. P (s, tr) \<longrightarrow> m (s, tr) = (Proceed, s', tr') \<longrightarrow> Q (s', tr'))"

lemma leads_to_stages:
  "leads_to P m Q \<Longrightarrow> leads_to Q (stages ms) T \<Longrightarrow> leads_to P (stages (m # ms)) T"
  unfolding leads_to_def andthen_def by (fastforce simp: andthen_def split: prod.splits flow.splits)

lemma leads_to_Nil: "leads_to P (stages []) P"
  by (simp add: leads_to_def)

text \<open>Before the responses, after them, and when the DER is known.\<close>

definition waiting :: "conn_state \<Rightarrow> world \<Rightarrow> bool" where
  "waiting h = (\<lambda>(s, tr). all_held h s \<and> cs_queue s = cs_queue h)"

definition ready :: "server \<Rightarrow> lfdi \<Rightarrow> conn_state \<Rightarrow> world \<Rightarrow> bool" where
  "ready sv lfdi h = (\<lambda>(s, tr). cs_dcap s \<noteq> None \<and> cs_der s \<noteq> None \<and> rates_held h s \<and> responses_done sv lfdi h (s, tr))"

lemma quiet_waiting:
  assumes "holds_of quiet m" "\<And>s tr fl s' tr'. m (s, tr) = (fl, s', tr') \<Longrightarrow> cs_queue s' = cs_queue s"
  shows "leads_to (waiting h) m (waiting h)"
  unfolding leads_to_def
proof (intro allI impI)
  fix s tr s' tr'
  assume "waiting h (s, tr)" and run: "m (s, tr) = (Proceed, s', tr')"
  then show "waiting h (s', tr')"
    using assms(2) [OF run] holds_ofE [OF assms(1) run]
    by (auto simp: waiting_def quiet_def dest: all_held_outbox)
qed

lemma leads_dcap: "leads_to (waiting h) (ensure_dcap a sv) (waiting h)"
  by (rule quiet_waiting [OF quiet_stages(1)])
    (auto simp: ensure_dcap_def get_dcap_def Let_def split: option.splits prod.splits if_splits)

lemma leads_to_conj:
  "leads_to P m Q \<Longrightarrow> leads_to P' m Q' \<Longrightarrow> leads_to (\<lambda>w. P w \<and> P' w) m (\<lambda>w. Q w \<and> Q' w)"
  unfolding leads_to_def by blast

definition entered :: "world \<Rightarrow> bool" where
  "entered w \<longleftrightarrow> cs_dcap (fst w) \<noteq> None"

lemma leads_entered:
  "leads_to (\<lambda>_. True) (ensure_registered a sv) entered" "leads_to entered (check_pin a sv) entered"
  by (auto simp: leads_to_def entered_def ensure_registered_def check_pin_def
      split: option.splits sum.splits prod.splits if_splits)

lemma leads_registered:
  "leads_to (waiting h) (ensure_registered a sv) (\<lambda>w. waiting h w \<and> entered w)"
proof -
  have "leads_to (waiting h) (ensure_registered a sv) (waiting h)"
    by (rule quiet_waiting [OF quiet_stages(2)])
      (auto simp: ensure_registered_def split: option.splits sum.splits prod.splits)
  from leads_to_conj [OF this leads_entered(1)] show ?thesis by simp
qed

lemma leads_pin:
  "leads_to (\<lambda>w. waiting h w \<and> entered w) (check_pin a sv) (\<lambda>w. waiting h w \<and> entered w)"
  by (intro leads_to_conj leads_entered quiet_waiting [OF quiet_stages(3)])
    (auto simp: check_pin_def split: option.splits sum.splits prod.splits if_splits)

lemma leads_responses:
  "leads_to (\<lambda>w. waiting h w \<and> entered w) (post_responses a sv)
     (\<lambda>(s, tr). all_held h s \<and> cs_dcap s \<noteq> None \<and> responses_done sv (sd_lfdi (ca_device_to_register a)) h (s, tr))"
  unfolding leads_to_def
proof (intro allI impI)
  fix s tr s' tr'
  let ?lfdi = "sd_lfdi (ca_device_to_register a)"
  assume before: "waiting h (s, tr) \<and> entered (s, tr)"
    and run: "post_responses a sv (s, tr) = (Proceed, s', tr')"
  then obtain queue' where sent: "send_control_responses sv ?lfdi (cs_queue s) tr = ((False, queue'), tr')"
    and s': "s' = s\<lparr>cs_queue := queue'\<rparr>"
    by (auto simp: post_responses_def split: prod.splits if_splits)
  from responses_all_sent [OF sent] before
  have "responses_done sv ?lfdi h (s', tr')"
    unfolding responses_done_def
    by (simp add: s' waiting_def) (intro exI [of _ tr] exI [of _ "[]"], simp)
  then show "case (s', tr') of (s, tr) \<Rightarrow> all_held h s \<and> cs_dcap s \<noteq> None \<and> responses_done sv ?lfdi h (s, tr)"
    using before by (simp add: s' waiting_def entered_def all_held_def held_defs)
qed

lemma leads_der:
  "leads_to (\<lambda>(s, tr). all_held h s \<and> cs_dcap s \<noteq> None \<and> responses_done sv lfdi h (s, tr)) (find_der a sv)
     (\<lambda>(s, tr). ready sv lfdi h (s, tr) \<and> all_held h s)"
  unfolding leads_to_def
proof (intro allI impI)
  fix s tr s' tr'
  assume before: "case (s, tr) of (s, tr) \<Rightarrow> all_held h s \<and> cs_dcap s \<noteq> None \<and> responses_done sv lfdi h (s, tr)"
    and run: "find_der a sv (s, tr) = (Proceed, s', tr')"
  obtain acts where acts: "tr' = tr @ acts" "quiet s tr acts s'" using holds_ofE [OF quiet_stages(5) run] .
  have frame: "cs_dcap s' = cs_dcap s" "cs_queue s' = cs_queue s" "cs_der s' \<noteq> None"
    using run by (auto simp: find_der_def split: option.splits prod.splits)
  from acts have "all_held h s'" using before by (auto simp: quiet_def dest: all_held_outbox)
  then show "case (s', tr') of (s, tr) \<Rightarrow> ready sv lfdi h (s, tr) \<and> all_held h s"
    using before frame done_append(1) [of sv lfdi h s tr s' acts]
    by (auto simp: ready_def acts(1) all_held_def)
qed

lemma leads_settings:
  "leads_to (\<lambda>(s, tr). ready sv lfdi h (s, tr) \<and> all_held h s) (put_settings sv)
     (\<lambda>(s, tr). ready sv lfdi h (s, tr) \<and> settings_done sv h (s, tr) \<and> status_held h s \<and> capabilities_held h s \<and>
        readings_held h s)"
  unfolding leads_to_def
proof (intro allI impI)
  fix s tr s' tr'
  assume before: "case (s, tr) of (s, tr) \<Rightarrow> ready sv lfdi h (s, tr) \<and> all_held h s"
    and run: "put_settings sv (s, tr) = (Proceed, s', tr')"
  obtain acts where tr': "tr' = tr @ acts" using holds_ofE [OF stages_ok(6) run] .
  have frame: "cs_dcap s' = cs_dcap s" "cs_der s' = cs_der s" "cs_queue s' = cs_queue s"
    "rates_held h s'" "status_held h s'" "capabilities_held h s'" "readings_held h s'"
    using run before by (auto simp: put_settings_def put_def all_held_def held_defs
        split: option.splits sum.splits if_splits)
  have "settings_done sv h (s', tr')"
    using run before
    by (auto simp: put_settings_def put_def ready_def all_held_def held_defs settings_done_def upload_done_def
        intro: not_due_here accepted_put_here split: option.splits sum.splits if_splits)
  then show "case (s', tr') of (s, tr) \<Rightarrow> ready sv lfdi h (s, tr) \<and> settings_done sv h (s, tr) \<and> status_held h s \<and>
      capabilities_held h s \<and> readings_held h s"
    using before frame done_append(1) [of sv lfdi h s tr s' acts] by (simp add: ready_def tr')
qed

lemma leads_status:
  "leads_to (\<lambda>(s, tr). ready sv lfdi h (s, tr) \<and> settings_done sv h (s, tr) \<and> status_held h s \<and>
        capabilities_held h s \<and> readings_held h s) (put_status sv)
     (\<lambda>(s, tr). ready sv lfdi h (s, tr) \<and> settings_done sv h (s, tr) \<and> status_done sv h (s, tr) \<and>
        capabilities_held h s \<and> readings_held h s)"
  unfolding leads_to_def
proof (intro allI impI)
  fix s tr s' tr'
  assume before: "case (s, tr) of (s, tr) \<Rightarrow> ready sv lfdi h (s, tr) \<and> settings_done sv h (s, tr) \<and>
      status_held h s \<and> capabilities_held h s \<and> readings_held h s"
    and run: "put_status sv (s, tr) = (Proceed, s', tr')"
  obtain acts where tr': "tr' = tr @ acts" using holds_ofE [OF stages_ok(7) run] .
  have frame: "cs_dcap s' = cs_dcap s" "cs_der s' = cs_der s" "cs_queue s' = cs_queue s"
    "cs_latest_settings s' = cs_latest_settings s" "rates_held h s'" "capabilities_held h s'" "readings_held h s'"
    using run before by (auto simp: put_status_def put_def ready_def held_defs
        split: option.splits sum.splits if_splits)
  have "status_done sv h (s', tr')"
    using run before
    by (auto simp: put_status_def put_def ready_def held_defs status_done_def upload_done_def
        intro: not_due_here accepted_put_here split: option.splits sum.splits if_splits)
  then show "case (s', tr') of (s, tr) \<Rightarrow> ready sv lfdi h (s, tr) \<and> settings_done sv h (s, tr) \<and>
      status_done sv h (s, tr) \<and> capabilities_held h s \<and> readings_held h s"
    using before frame done_append(1) [of sv lfdi h s tr s' acts] done_append(2) [of sv h s tr s' acts] by (simp add: ready_def tr')
qed

lemma leads_capabilities:
  "leads_to (\<lambda>(s, tr). ready sv lfdi h (s, tr) \<and> settings_done sv h (s, tr) \<and> status_done sv h (s, tr) \<and>
        capabilities_held h s \<and> readings_held h s) (put_capabilities sv)
     (\<lambda>(s, tr). ready sv lfdi h (s, tr) \<and> settings_done sv h (s, tr) \<and> status_done sv h (s, tr) \<and>
        capabilities_done sv h (s, tr) \<and> readings_held h s)"
  unfolding leads_to_def
proof (intro allI impI)
  fix s tr s' tr'
  assume before: "case (s, tr) of (s, tr) \<Rightarrow> ready sv lfdi h (s, tr) \<and> settings_done sv h (s, tr) \<and>
      status_done sv h (s, tr) \<and> capabilities_held h s \<and> readings_held h s"
    and run: "put_capabilities sv (s, tr) = (Proceed, s', tr')"
  obtain acts where tr': "tr' = tr @ acts" using holds_ofE [OF stages_ok(8) run] .
  have frame: "cs_dcap s' = cs_dcap s" "cs_der s' = cs_der s" "cs_queue s' = cs_queue s"
    "cs_latest_settings s' = cs_latest_settings s" "cs_latest_status s' = cs_latest_status s"
    "rates_held h s'" "readings_held h s'"
    using run before by (auto simp: put_capabilities_def put_def ready_def held_defs
        split: option.splits sum.splits if_splits)
  have "capabilities_done sv h (s', tr')"
    using run before
    by (auto simp: put_capabilities_def put_def ready_def held_defs capabilities_done_def
        intro: not_due_here accepted_put_here split: option.splits sum.splits if_splits)
  then show "case (s', tr') of (s, tr) \<Rightarrow> ready sv lfdi h (s, tr) \<and> settings_done sv h (s, tr) \<and>
      status_done sv h (s, tr) \<and> capabilities_done sv h (s, tr) \<and> readings_held h s"
    using before frame done_append(1) [of sv lfdi h s tr s' acts] done_append(2,3) [of sv h s tr s' acts] by (simp add: ready_def tr')
qed

definition all_done :: "server \<Rightarrow> lfdi \<Rightarrow> conn_state \<Rightarrow> world \<Rightarrow> bool" where
  "all_done sv lfdi h w \<longleftrightarrow> responses_done sv lfdi h w \<and> settings_done sv h w \<and> status_done sv h w \<and>
    capabilities_done sv h w \<and> readings_done sv h w"

lemma leads_readings:
  "leads_to (\<lambda>(s, tr). ready sv lfdi h (s, tr) \<and> settings_done sv h (s, tr) \<and> status_done sv h (s, tr) \<and>
        capabilities_done sv h (s, tr) \<and> readings_held h s) (post_readings a sv) (all_done sv lfdi h)"
  unfolding leads_to_def
proof (intro allI impI)
  fix s tr s' tr'
  assume before: "case (s, tr) of (s, tr) \<Rightarrow> ready sv lfdi h (s, tr) \<and> settings_done sv h (s, tr) \<and>
      status_done sv h (s, tr) \<and> capabilities_done sv h (s, tr) \<and> readings_held h s"
    and run: "post_readings a sv (s, tr) = (Proceed, s', tr')"
  obtain acts where tr': "tr' = tr @ acts" using holds_ofE [OF post_readings_ok run] .
  have frame: "cs_der s' = cs_der s" "cs_queue s' = cs_queue s" "cs_latest_settings s' = cs_latest_settings s"
    "cs_latest_status s' = cs_latest_status s" "cs_capabilities s' = cs_capabilities s"
    using run by (auto simp: post_readings_def split: option.splits prod.splits if_splits bool.splits)
  from run before have "readings_done sv h (s', tr')"
    by (auto simp: post_readings_def ready_def held_defs readings_done_def intro: not_due_here
        dest: readings_all_sent split: option.splits prod.splits if_splits bool.splits)
  then show "all_done sv lfdi h (s', tr')"
    using before frame done_append(1) [of sv lfdi h s tr s' acts] done_append(2-4) [of sv h s tr s' acts] by (simp add: all_done_def ready_def tr')
qed

lemma leads_nothing: "leads_to (all_done sv lfdi h) nothing_to_retry (all_done sv lfdi h)"
  by (auto simp: leads_to_def nothing_to_retry_def all_done_def done_defs)

lemma sending_done:
  "leads_to (waiting h) (send_pending a sv) (all_done sv (sd_lfdi (ca_device_to_register a)) h)"
  unfolding send_pending_def
  by (rule leads_to_stages [OF leads_dcap] leads_to_stages [OF leads_registered] leads_to_stages [OF leads_pin]
      leads_to_stages [OF leads_responses] leads_to_stages [OF leads_der] leads_to_stages [OF leads_settings]
      leads_to_stages [OF leads_status] leads_to_stages [OF leads_capabilities] leads_to_stages [OF leads_readings]
      leads_to_stages [OF leads_nothing] leads_to_Nil)+

text \<open>A round that does not go all the way still asks for a retry.\<close>

definition keeps_request :: "stage \<Rightarrow> bool" where
  "keeps_request m \<longleftrightarrow>
    (\<forall>s tr fl s' tr'. m (s, tr) = (fl, s', tr') \<longrightarrow> fl \<noteq> Proceed \<longrightarrow> cs_retry_requested s \<longrightarrow> cs_retry_requested s')"

definition passes_request :: "stage \<Rightarrow> bool" where
  "passes_request m \<longleftrightarrow>
    (\<forall>s tr fl s' tr'. m (s, tr) = (fl, s', tr') \<longrightarrow> cs_retry_requested s' = cs_retry_requested s)"

lemma passes_then_keeps: "passes_request m \<Longrightarrow> keeps_request (stages ms) \<Longrightarrow> keeps_request (stages (m # ms))"
  unfolding passes_request_def keeps_request_def andthen_def
  by (fastforce simp: andthen_def split: prod.splits flow.splits)

lemma passing_stages:
  "passes_request (ensure_dcap a sv)" "passes_request (ensure_registered a sv)"
  "passes_request (check_pin a sv)" "passes_request (post_responses a sv)" "passes_request (find_der a sv)"
  "passes_request (put_settings sv)" "passes_request (put_status sv)" "passes_request (put_capabilities sv)"
  "passes_request (post_readings a sv)"
proof -
  show "passes_request (ensure_dcap a sv)" "passes_request (ensure_registered a sv)"
    "passes_request (check_pin a sv)" "passes_request (post_responses a sv)" "passes_request (find_der a sv)"
    by (auto simp: passes_request_def ensure_dcap_def get_dcap_def ensure_registered_def check_pin_def post_responses_def
        find_der_def Let_def split: option.splits sum.splits prod.splits if_splits)
  show "passes_request (put_settings sv)" "passes_request (put_status sv)" "passes_request (put_capabilities sv)"
    by (auto simp: passes_request_def put_settings_def put_status_def put_capabilities_def
        split: option.splits sum.splits prod.splits if_splits)
  show "passes_request (post_readings a sv)"
    by (auto simp: passes_request_def post_readings_def split: option.splits prod.splits if_splits bool.splits)
qed

lemma sending_keeps_request: "keeps_request (send_pending a sv)"
  unfolding send_pending_def
  by ((rule passes_then_keeps, rule passing_stages)+)
    (simp add: keeps_request_def nothing_to_retry_def andthen_def)

fun is_poll_command :: "conn_command \<Rightarrow> bool" where
  "is_poll_command (SubscribeToResource _ _ _) = True"
| "is_poll_command (UnsubscribeFromResource _) = True"
| "is_poll_command _ = False"

lemma receive_proceeds:
  "\<not> is_poll_command command \<Longrightarrow>
     \<exists>s'. receive_conn_command a sv command (s, tr) = (Proceed, s', tr) \<and>
       cs_retry_requested s' = cs_retry_requested s \<and> cs_retry_handle s' = cs_retry_handle s"
  by (cases command) (auto simp: push_response_def set_capabilities_def reset_connection_def)


end
