(* ===== verification/Percent.thy ===== *)
theory Percent
  imports Modbus_Types
begin

text \<open>
  The arithmetic of \<^verbatim>\<open>src/modbus_connection.rs\<close> that turns a limit in watts into a percentage
  of the device's rating: \<^verbatim>\<open>to_w_set_pct_from_w_set\<close> and
  \<^verbatim>\<open>to_w_max_lim_pct_from_w_max_lim\<close> over \<^verbatim>\<open>scaled_percent_raw\<close>, in saturating
  \<^verbatim>\<open>i128\<close>. The lemmas show that saturation never shows in the result: what the register is
  given is the mathematical percentage, rounded as asked and bounded, for all scale factors.
\<close>

section \<open>Definitions\<close>

definition div_round_half_away_from_zero :: "int \<Rightarrow> int \<Rightarrow> int" where
  "div_round_half_away_from_zero numerator denominator =
    (let sign = (if numerator < 0 then - 1 else 1 :: int);
         abs_numerator = min i128_max \<bar>numerator\<bar>;
         quotient = abs_numerator sdiv denominator;
         remainder = abs_numerator smod denominator;
         threshold = denominator sdiv 2 + denominator smod 2;
         rounded = (if remainder \<ge> threshold then min i128_max (quotient + 1) else quotient)
     in if sign < 0 then - rounded else rounded)"

definition div_round_toward_zero :: "int \<Rightarrow> int \<Rightarrow> int" where
  "div_round_toward_zero numerator denominator = numerator sdiv denominator"

definition scaled_percent_raw :: "int \<Rightarrow> int \<Rightarrow> int \<Rightarrow> int \<Rightarrow> int \<Rightarrow> bool \<Rightarrow> int option" where
  "scaled_percent_raw value value_sf rating rating_sf pct_sf round_toward_zero =
    (if rating \<le> 0 then None
     else
       (let exponent = value_sf - rating_sf - pct_sf;
            base_numerator = sat_mul_i128 value 100;
            base_denominator = rating;
            factor = sat_pow10_i128 (nat \<bar>exponent\<bar>)
        in if exponent \<ge> 0 then
             (let scaled_numerator = sat_mul_i128 base_numerator factor
              in if round_toward_zero then Some (div_round_toward_zero scaled_numerator base_denominator)
                 else Some (div_round_half_away_from_zero scaled_numerator base_denominator))
           else
             (let scaled_denominator = sat_mul_i128 base_denominator factor
              in if round_toward_zero then Some (div_round_toward_zero base_numerator scaled_denominator)
                 else Some (div_round_half_away_from_zero base_numerator scaled_denominator))))"

definition to_w_set_pct_from_w_set ::
  "scaled_value \<Rightarrow> scaled_value \<Rightarrow> int \<Rightarrow> bool \<Rightarrow> scaled_value option" where
  "to_w_set_pct_from_w_set w_set w_max_rtg pct_sf round_toward_zero =
    (if sv_value w_max_rtg = 0 then None
     else map_option (\<lambda>w_set_pct. new_sv (clamp (i16_min + 1) i16_max w_set_pct) pct_sf)
       (scaled_percent_raw (sv_value w_set) (sv_sf w_set) (sv_value w_max_rtg) (sv_sf w_max_rtg)
         pct_sf round_toward_zero))"

definition to_w_max_lim_pct_from_w_max_lim ::
  "scaled_value \<Rightarrow> scaled_value \<Rightarrow> int \<Rightarrow> scaled_value option" where
  "to_w_max_lim_pct_from_w_max_lim w_max_lim w_max_rtg pct_sf =
    (if sv_value w_max_rtg = 0 then None
     else map_option (\<lambda>w_max_lim_pct. new_sv (clamp 0 (u16_max - 1) w_max_lim_pct) pct_sf)
       (scaled_percent_raw (sv_value w_max_lim) (sv_sf w_max_lim) (sv_value w_max_rtg) (sv_sf w_max_rtg)
         pct_sf True))"

section \<open>The reference: rounding a fraction with no width in sight\<close>

definition pct_round :: "bool \<Rightarrow> int \<Rightarrow> int \<Rightarrow> int" where
  "pct_round round_toward_zero n d =
    (if round_toward_zero then sgn n * (\<bar>n\<bar> div d) else round_half_away n d)"

text \<open>The exact percentage \<^verbatim>\<open>100 * value / rating\<close> at the scale of the register, as a fraction.\<close>

definition pct_numerator :: "scaled_value \<Rightarrow> scaled_value \<Rightarrow> int \<Rightarrow> int" where
  "pct_numerator v rating pct_sf =
    sv_value v * 100 * 10 ^ nat (sv_sf v - sv_sf rating - pct_sf)"

definition pct_denominator :: "scaled_value \<Rightarrow> scaled_value \<Rightarrow> int \<Rightarrow> int" where
  "pct_denominator v rating pct_sf =
    sv_value rating * 10 ^ nat (- (sv_sf v - sv_sf rating - pct_sf))"

definition percent_div :: "bool \<Rightarrow> int \<Rightarrow> int \<Rightarrow> int" where
  "percent_div rtz n d =
    (if rtz then div_round_toward_zero n d else div_round_half_away_from_zero n d)"

lemma smod_nonneg: "0 \<le> a \<Longrightarrow> 0 < b \<Longrightarrow> (a::int) smod b = a mod b"
  by (cases "a = 0")
    (simp_all add: signed_modulo_int_def sdiv_nonneg minus_div_mult_eq_mod [symmetric] mult.commute)

lemma ceil_half: "0 < d \<Longrightarrow> r \<ge> d div 2 + d mod 2 \<longleftrightarrow> 2 * r \<ge> (d::int)"
  by presburger

lemma round_half_up_cases:
  assumes "0 < (d::int)" "0 \<le> n"
  shows "(2 * n + d) div (2 * d) = (if 2 * (n mod d) \<ge> d then n div d + 1 else n div d)"
proof -
  define q r where "q = n div d" and "r = n mod d"
  then have n: "n = q * d + r" and r: "0 \<le> r" "r < d" using assms by simp_all
  have "2 * n + d = q * (2 * d) + (2 * r + d)"
    by (simp add: n algebra_simps)
  moreover have "(q * (2 * d) + (2 * r + d)) div (2 * d) = q + (2 * r + d) div (2 * d)"
    using assms(1) by (intro div_mult_self3) simp
  moreover have "(2 * r + d) div (2 * d) = (if 2 * r \<ge> d then 1 else 0)"
  proof (cases "2 * r \<ge> d")
    case True
    then have "(2 * r + d) div (2 * d) = 1"
      using r by (intro int_div_pos_eq [where r = "2 * r - d"]) simp_all
    then show ?thesis using True by simp
  next
    case False
    then have "(2 * r + d) div (2 * d) = 0"
      using r by (intro div_pos_pos_trivial) simp_all
    then show ?thesis using False by simp
  qed
  ultimately have "(2 * n + d) div (2 * d) = q + (if 2 * r \<ge> d then 1 else 0)" by (simp only:)
  then show ?thesis by (simp add: q_def r_def)
qed

lemma half_away_uminus:
  "div_round_half_away_from_zero (- n) d = - div_round_half_away_from_zero n d" if "n > 0"
  using that by (simp add: div_round_half_away_from_zero_def Let_def)

lemma half_away_nonneg:
  assumes "0 < d" "0 \<le> n" "n \<le> i128_max"
  shows "div_round_half_away_from_zero n d = (2 * n + d) div (2 * d)"
proof -
  have q: "n div d + 1 \<le> i128_max" if "2 * (n mod d) \<ge> d"
  proof -
    have "d \<noteq> 1" using that by auto
    then have "n div d \<le> n div 2"
      using assms by (intro zdiv_mono2) simp_all
    then show ?thesis using assms(3) by (simp add: i128_max_def)
  qed
  then show ?thesis
    using assms
    by (simp add: div_round_half_away_from_zero_def Let_def sdiv_nonneg smod_nonneg ceil_half
        round_half_up_cases)
qed

lemma percent_div_exact:
  assumes "0 < d" "\<bar>n\<bar> \<le> i128_max"
  shows "percent_div rtz n d = pct_round rtz n d"
proof (cases rtz)
  case True
  then show ?thesis
    using assms by (auto simp: percent_div_def pct_round_def div_round_toward_zero_def sgn_if
        sdiv_nonneg sdiv_neg)
next
  case False
  show ?thesis
  proof (cases "0 \<le> n")
    case True
    then show ?thesis
      using False assms by (simp add: percent_div_def pct_round_def half_away_nonneg round_half_away_nonneg)
  next
    case neg: False
    then show ?thesis
      using False assms half_away_uminus [of "- n" d]
      by (simp add: percent_div_def pct_round_def half_away_nonneg round_half_away_def)
  qed
qed

text \<open>A numerator that saturates is so large that the bound of the register is reached anyway.\<close>

lemma pct_round_odd: "pct_round rtz (- n) d = - pct_round rtz n d"
  by (simp add: pct_round_def round_half_away_uminus)

lemma pct_round_ge: "0 < d \<Longrightarrow> 0 \<le> n \<Longrightarrow> n div d \<le> pct_round rtz n d"
  by (auto simp: pct_round_def round_half_away_nonneg round_half_up_cases sgn_if)

lemma pct_round_large:
  assumes "0 < d" "d \<le> u16_max" "2 ^ 100 \<le> n"
  shows "2 ^ 80 \<le> pct_round rtz n d"
proof -
  have "2 ^ 80 * d \<le> 2 ^ 80 * u16_max" using assms(2) by simp
  also have "\<dots> \<le> n" using assms(3) by (simp add: u16_max_def)
  finally have "2 ^ 80 * d div d \<le> n div d" using assms(1) by (rule zdiv_mono1)
  then have "2 ^ 80 \<le> n div d" using assms(1) by simp
  moreover have "0 \<le> n" by (rule order_trans [OF _ assms(3)]) simp
  ultimately show ?thesis using pct_round_ge [of d n rtz] assms(1) by linarith
qed

lemma percent_div_saturated:
  assumes "0 < d" "d \<le> u16_max" "lo \<le> 0" "0 \<le> hi" "- (2 ^ 80) \<le> lo" "hi \<le> 2 ^ 80"
  shows "clamp lo hi (percent_div rtz (clamp i128_min i128_max n) d) = clamp lo hi (pct_round rtz n d)"
proof -
  have top: "clamp lo hi x = hi" if "2 ^ 80 \<le> x" for x
    using that assms(4,6) assms(3) by (auto simp: clamp_def)
  have bottom: "clamp lo hi x = lo" if "x \<le> - (2 ^ 80)" for x
    using that assms(3-6) by (auto simp: clamp_def)
  consider "\<bar>n\<bar> \<le> i128_max" | "i128_max < n" | "n < - i128_max" by linarith
  then show ?thesis
  proof cases
    case 1
    then have "clamp i128_min i128_max n = n" by (intro clamp_id) (auto simp: arith_defs)
    then show ?thesis using 1 assms(1) by (simp add: percent_div_exact)
  next
    case 2
    then have "clamp i128_min i128_max n = i128_max" by (simp add: clamp_def arith_defs)
    moreover have "percent_div rtz i128_max d = pct_round rtz i128_max d"
      using assms(1) by (intro percent_div_exact) (simp_all add: i128_max_def)
    ultimately show ?thesis
      using 2 pct_round_large [OF assms(1,2), of i128_max rtz] pct_round_large [OF assms(1,2), of n rtz]
      by (simp add: top i128_max_def)
  next
    case 3
    then have "clamp i128_min i128_max n = i128_min" by (simp add: clamp_def arith_defs)
    moreover have "percent_div rtz i128_min d \<le> - (2 ^ 80)"
    proof (cases rtz)
      case True
      then show ?thesis
        using pct_round_large [OF assms(1,2), of "2 ^ 127" True] assms(1)
        by (simp add: percent_div_def div_round_toward_zero_def i128_min_def sdiv_neg
            sdiv_nonneg pct_round_def)
    next
      case False
      have "div_round_half_away_from_zero i128_min d = - div_round_half_away_from_zero i128_max d"
        by (simp add: div_round_half_away_from_zero_def Let_def i128_min_def i128_max_def)
      moreover have "2 ^ 80 \<le> div_round_half_away_from_zero i128_max d"
        using pct_round_large [OF assms(1,2), of i128_max False] percent_div_exact [of d i128_max False]
          assms(1) by (simp add: percent_div_def i128_max_def)
      ultimately show ?thesis using False by (simp add: percent_div_def)
    qed
    moreover have "pct_round rtz n d \<le> - (2 ^ 80)"
      using 3 pct_round_large [OF assms(1,2), of "- n" rtz] pct_round_odd [of rtz "- n" d]
      by (simp add: i128_max_def)
    ultimately show ?thesis by (simp add: bottom)
  qed
qed

lemma sat_pow10_i128_small: "n \<le> 38 \<Longrightarrow> sat_pow10_i128 n = 10 ^ n"
proof -
  assume "n \<le> 38"
  then have "(10::int) ^ n \<le> 10 ^ 38" by (intro power_increasing) simp_all
  then show ?thesis by (simp add: sat_pow10_i128_def i128_max_def)
qed

lemma sat_pow10_i128_large: "38 < n \<Longrightarrow> sat_pow10_i128 n = i128_max"
proof -
  assume "38 < n"
  then have "(10::int) ^ 39 \<le> 10 ^ n" by (intro power_increasing) simp_all
  then show ?thesis by (simp add: sat_pow10_i128_def i128_max_def)
qed

lemma pct_round_small: "0 < d \<Longrightarrow> 2 * \<bar>n\<bar> < d \<Longrightarrow> pct_round rtz n d = 0"
  by (auto simp: pct_round_def round_half_away_small div_pos_pos_trivial)

lemma clamp_big_product:
  assumes "2 \<le> b" "i128_max \<le> m"
  shows "clamp i128_min i128_max (b * m) = i128_max" "clamp i128_min i128_max (- (b * m)) = i128_min"
proof -
  have "2 * i128_max \<le> b * m"
    using assms by (intro mult_mono) (simp_all add: i128_max_def)
  then show "clamp i128_min i128_max (b * m) = i128_max" "clamp i128_min i128_max (- (b * m)) = i128_min"
    by (simp_all add: clamp_def i128_min_def i128_max_def)
qed

text \<open>Towards a finer register scale: the numerator grows, perhaps past \<^verbatim>\<open>i128\<close>.\<close>

lemma finer_numerator:
  assumes "0 < d" "d \<le> u16_max" "lo \<le> 0" "0 \<le> hi" "- (2 ^ 80) \<le> lo" "hi \<le> 2 ^ 80" "b \<noteq> - 1"
  shows "clamp lo hi (percent_div rtz (sat_mul_i128 b (sat_pow10_i128 n)) d) =
    clamp lo hi (pct_round rtz (b * 10 ^ n) d)"
proof (cases "n \<le> 38")
  case True
  then show ?thesis
    using percent_div_saturated [OF assms(1-6)] by (simp add: sat_mul_i128_def sat_pow10_i128_small)
next
  case False
  show ?thesis
  proof (cases "b = 0")
    case True
    then show ?thesis
      using assms(1) percent_div_exact [of d 0 rtz] by (simp add: sat_mul_i128_def i128_max_def i128_min_def)
  next
    case nz: False
    have pow: "10 ^ 39 \<le> (10::int) ^ n" using False by (intro power_increasing) simp_all
    have sat: "clamp i128_min i128_max (b * i128_max) = clamp i128_min i128_max (b * 10 ^ n)"
    proof (cases "b = 1")
      case True
      then show ?thesis using pow by (simp add: clamp_def arith_defs)
    next
      case False
      then have "2 \<le> b \<or> 2 \<le> - b" using nz assms(7) by linarith
      moreover have "i128_max \<le> 10 ^ n" using pow by (simp add: i128_max_def)
      ultimately show ?thesis
        using clamp_big_product [of b] clamp_big_product [of "- b"] by auto
    qed
    show ?thesis
      using percent_div_saturated [OF assms(1-6), of rtz "b * 10 ^ n"] False sat
      by (simp add: sat_mul_i128_def sat_pow10_i128_large)
  qed
qed

text \<open>Towards a coarser one: the denominator grows, perhaps past \<^verbatim>\<open>i128\<close>.\<close>

lemma coarser_denominator:
  assumes "0 < d" "\<bar>b\<bar> \<le> 2 ^ 40"
  shows "percent_div rtz b (sat_mul_i128 d (sat_pow10_i128 n)) = pct_round rtz b (d * 10 ^ n)"
proof (cases "d * 10 ^ n \<le> i128_max")
  case True
  have "10 ^ n \<le> d * 10 ^ n" using assms(1) by simp
  then have "10 ^ n \<le> i128_max" using True by linarith
  then have "sat_pow10_i128 n = 10 ^ n" by (simp add: sat_pow10_i128_def)
  moreover have "i128_min \<le> d * 10 ^ n"
    by (rule order_trans [of i128_min 0]) (use assms(1) in \<open>simp_all add: i128_min_def\<close>)
  ultimately have "sat_mul_i128 d (sat_pow10_i128 n) = d * 10 ^ n"
    using True by (simp add: sat_mul_i128_def)
  then show ?thesis
    using assms by (simp add: percent_div_exact i128_max_def)
next
  case False
  have "sat_mul_i128 d (sat_pow10_i128 n) = i128_max"
  proof (cases "10 ^ n \<le> i128_max")
    case True
    then show ?thesis using False by (simp add: sat_mul_i128_def sat_pow10_i128_def min_def clamp_def i128_min_def i128_max_def)
  next
    case sat: False
    have "i128_max \<le> d * i128_max" using assms(1) by (simp add: i128_max_def)
    then show ?thesis using sat
      by (simp add: sat_mul_i128_def sat_pow10_i128_def min_def clamp_def i128_min_def i128_max_def)
  qed
  then have "percent_div rtz b (sat_mul_i128 d (sat_pow10_i128 n)) = pct_round rtz b i128_max"
    using assms by (simp add: percent_div_exact i128_max_def)
  also have "\<dots> = 0"
    using assms by (intro pct_round_small) (simp_all add: i128_max_def)
  also have "\<dots> = pct_round rtz b (d * 10 ^ n)"
    using assms False by (intro pct_round_small [symmetric]) (simp_all add: i128_max_def)
  finally show ?thesis .
qed

lemma scaled_percent_clamped:
  assumes "0 < sv_value r" "sv_value r \<le> u16_max" "\<bar>sv_value v\<bar> \<le> u32_max"
    and "lo \<le> 0" "0 \<le> hi" "- (2 ^ 80) \<le> lo" "hi \<le> 2 ^ 80"
  shows "map_option (clamp lo hi)
      (scaled_percent_raw (sv_value v) (sv_sf v) (sv_value r) (sv_sf r) pct_sf rtz) =
    Some (clamp lo hi (pct_round rtz (pct_numerator v r pct_sf) (pct_denominator v r pct_sf)))"
proof -
  have b: "\<bar>sv_value v * 100\<bar> \<le> 2 ^ 40" using assms(3) by (simp add: u32_max_def abs_mult)
  have base: "sat_mul_i128 (sv_value v) 100 = sv_value v * 100"
    unfolding sat_mul_i128_def using b by (intro clamp_id) (simp_all add: arith_defs abs_le_iff)
  have "sv_value v * 100 \<noteq> - 1" by presburger
  note finer = finer_numerator [OF assms(1,2,4-7) this, of rtz, unfolded percent_div_def]
    and coarser = coarser_denominator [OF assms(1) b, of rtz, unfolded percent_div_def]
  show ?thesis
  proof (cases "0 \<le> sv_sf v - sv_sf r - pct_sf")
    case True
    then show ?thesis
      using finer assms(1)
      by (cases rtz) (simp_all add: scaled_percent_raw_def Let_def base pct_numerator_def pct_denominator_def)
  next
    case False
    then show ?thesis
      using coarser assms(1)
      by (cases rtz) (simp_all add: scaled_percent_raw_def Let_def base pct_numerator_def pct_denominator_def)
  qed
qed

lemma clamp_option:
  "map_option (clamp lo hi) r = Some y \<Longrightarrow>
     map_option (\<lambda>x. new_sv (clamp lo hi x) sf) r = Some (new_sv y sf)"
  by auto

lemma to_w_set_pct_value:
  assumes "0 < sv_value r" "sv_value r \<le> u16_max" "i32_min \<le> sv_value w" "sv_value w \<le> i32_max"
  shows "to_w_set_pct_from_w_set w r pct_sf rtz = Some (new_sv (clamp (i16_min + 1) i16_max
    (pct_round rtz (pct_numerator w r pct_sf) (pct_denominator w r pct_sf))) pct_sf)"
proof -
  have "\<bar>sv_value w\<bar> \<le> u32_max" using assms(3,4) by (simp add: int_bounds)
  then show ?thesis
    using clamp_option [OF scaled_percent_clamped [OF assms(1,2), of w "i16_min + 1" i16_max pct_sf rtz],
        of pct_sf] assms(1)
    by (simp add: to_w_set_pct_from_w_set_def int_bounds)
qed

lemma to_w_max_lim_pct_value:
  assumes "0 < sv_value r" "sv_value r \<le> u16_max" "0 \<le> sv_value w" "sv_value w \<le> u32_max"
  shows "to_w_max_lim_pct_from_w_max_lim w r pct_sf = Some (new_sv (clamp 0 (u16_max - 1)
    (pct_round True (pct_numerator w r pct_sf) (pct_denominator w r pct_sf))) pct_sf)"
  using clamp_option [OF scaled_percent_clamped [OF assms(1,2), of w 0 "u16_max - 1" pct_sf True],
      of pct_sf] assms
  by (simp add: to_w_max_lim_pct_from_w_max_lim_def int_bounds)

lemma pct_denominator_pos: "0 < sv_value r \<Longrightarrow> 0 < pct_denominator v r sf"
  by (simp add: pct_denominator_def)

lemma div_bounds:
  assumes "0 < (d::int)" "0 \<le> n"
  shows "n div d * d \<le> n" "n < (n div d + 1) * d"
proof -
  define q r where "q = n div d" and "r = n mod d"
  then have "n = q * d + r" "0 \<le> r" "r < d" using assms by simp_all
  then have "q * d \<le> n" "n < (q + 1) * d" by (simp_all add: algebra_simps)
  then show "n div d * d \<le> n" "n < (n div d + 1) * d" by (simp_all only: q_def)
qed

lemma w_max_lim_pct_largest:
  assumes "0 < sv_value r" "sv_value r \<le> u16_max" "0 \<le> sv_value w" "sv_value w \<le> u32_max"
    and "to_w_max_lim_pct_from_w_max_lim w r pct_sf = Some p"
  shows "sv_value p * pct_denominator w r pct_sf \<le> pct_numerator w r pct_sf \<and>
    (sv_value p = 65534 \<or> pct_numerator w r pct_sf < (sv_value p + 1) * pct_denominator w r pct_sf) \<and>
    0 \<le> sv_value p \<and> sv_value p \<le> 65534 \<and> sv_sf p = pct_sf"
proof -
  let ?n = "pct_numerator w r pct_sf" and ?d = "pct_denominator w r pct_sf"
  have d: "0 < ?d" using assms(1) by (rule pct_denominator_pos)
  have n: "0 \<le> ?n" using assms(3) by (simp add: pct_numerator_def)
  have "pct_round True ?n ?d = ?n div ?d"
    using n by (cases "?n = 0") (simp_all add: pct_round_def sgn_if)
  then have p: "sv_value p = clamp 0 65534 (?n div ?d)" "sv_sf p = pct_sf"
    using to_w_max_lim_pct_value [OF assms(1-4), of pct_sf] assms(5) by (auto simp: u16_max_def)
  have q: "0 \<le> ?n div ?d" using n d by (simp add: pos_imp_zdiv_nonneg_iff)
  show ?thesis
  proof (cases "?n div ?d \<le> 65534")
    case True
    then have "sv_value p = ?n div ?d" using p q by simp
    then show ?thesis using div_bounds [OF d n] True q p by simp
  next
    case False
    then have v: "sv_value p = 65534" using p by (simp add: clamp_def)
    have "65534 * ?d \<le> ?n div ?d * ?d" using False d by (intro mult_right_mono) simp_all
    then show ?thesis using div_bounds [OF d n] v p by simp
  qed
qed

section \<open>Properties\<close>

text \<open>
  C32: a set point in watts becomes the mathematical percentage of the rating at the scale factor
  of the register, rounded to the nearest (a half away from zero) or toward zero as asked, and
  bounded to the register, whatever the scale factors; there is none only for a rating of zero.
  The value SunSpec reserves for "not implemented" is never produced.
\<close>

theorem w_set_pct_exact:
  assumes "0 \<le> sv_value r" "sv_value r \<le> u16_max" "i32_min \<le> sv_value w" "sv_value w \<le> i32_max"
  shows "to_w_set_pct_from_w_set w r pct_sf rtz =
      (if sv_value r = 0 then None
       else Some (new_sv (clamp (- 32767) 32767
         (pct_round rtz (pct_numerator w r pct_sf) (pct_denominator w r pct_sf))) pct_sf)) \<and>
    to_w_set_pct_from_w_set w r pct_sf rtz \<noteq> Some (new_sv (- 32768) pct_sf)"
proof (cases "sv_value r = 0")
  case False
  then have "to_w_set_pct_from_w_set w r pct_sf rtz = Some (new_sv (clamp (- 32767) 32767
      (pct_round rtz (pct_numerator w r pct_sf) (pct_denominator w r pct_sf))) pct_sf)"
    using assms to_w_set_pct_value [of r w pct_sf rtz] by (simp add: int_bounds)
  moreover have "clamp (- 32767) 32767 x \<noteq> - 32768" for x by (simp add: clamp_def)
  ultimately show ?thesis using False by (simp add: new_sv_def)
qed (simp add: to_w_set_pct_from_w_set_def)

theorem w_set_pct_exact_witness:
  "to_w_set_pct_from_w_set (new_sv (- 29) 0) (new_sv 200 0) 0 True = Some (new_sv (- 14) 0) \<and>
   to_w_set_pct_from_w_set (new_sv (- 29) 0) (new_sv 200 0) 0 False = Some (new_sv (- 15) 0)"
  using w_set_pct_exact [of "new_sv 200 0" "new_sv (- 29) 0" 0 True]
    w_set_pct_exact [of "new_sv 200 0" "new_sv (- 29) 0" 0 False]
  by (simp add: int_bounds pct_numerator_def pct_denominator_def pct_round_def round_half_away_def
      clamp_def)

text \<open>
  C21: a site export limit is never exceeded by the percentage derived from it. The power the
  register then allows, that percentage of the rating, is at most the limit; it is the largest
  such percentage the register can hold, and never the reserved value 65535.
\<close>

theorem export_limit_not_exceeded:
  assumes "0 < sv_value r" "sv_value r \<le> u16_max" "0 \<le> sv_value w" "sv_value w \<le> u32_max"
    and "to_w_max_lim_pct_from_w_max_lim w r pct_sf = Some p"
  shows "sv_value p * pct_denominator w r pct_sf \<le> pct_numerator w r pct_sf \<and>
    (sv_value p = 65534 \<or> pct_numerator w r pct_sf < (sv_value p + 1) * pct_denominator w r pct_sf) \<and>
    0 \<le> sv_value p \<and> sv_value p \<le> 65534 \<and> sv_sf p = pct_sf"
  using assms by (rule w_max_lim_pct_largest)

theorem export_limit_not_exceeded_witness:
  "14 * 200 \<le> (29 * 100 :: int) \<and>
   to_w_max_lim_pct_from_w_max_lim (new_sv 29 0) (new_sv 200 0) 0 = Some (new_sv 14 0)"
proof -
  have "to_w_max_lim_pct_from_w_max_lim (new_sv 29 0) (new_sv 200 0) 0 = Some (new_sv 14 0)"
    by (simp add: to_w_max_lim_pct_value int_bounds pct_numerator_def pct_denominator_def pct_round_def
        clamp_def)
  with export_limit_not_exceeded [of "new_sv 200 0" "new_sv 29 0" 0 "new_sv 14 0"]
  show ?thesis by (simp add: int_bounds pct_numerator_def pct_denominator_def)
qed

text \<open>
  A site import limit, written as a negative set point and rounded toward zero, is never
  exceeded either: the derived percentage is not positive, and its magnitude is at most the limit.
\<close>

theorem import_limit_not_exceeded:
  assumes "0 < sv_value r" "sv_value r \<le> u16_max" "i32_min \<le> sv_value w" "sv_value w \<le> 0"
    and "to_w_set_pct_from_w_set w r pct_sf True = Some p"
  shows "sv_value p \<le> 0 \<and>
    pct_numerator w r pct_sf \<le> sv_value p * pct_denominator w r pct_sf \<and>
    (sv_value p = - 32767 \<or> (sv_value p - 1) * pct_denominator w r pct_sf < pct_numerator w r pct_sf)"
proof -
  let ?n = "pct_numerator w r pct_sf" and ?d = "pct_denominator w r pct_sf"
  have d: "0 < ?d" using assms(1) by (rule pct_denominator_pos)
  have n: "0 \<le> - ?n" using assms(4) by (simp add: pct_numerator_def mult_le_0_iff)
  have "pct_round True ?n ?d = - (- ?n div ?d)"
    using n by (cases "?n = 0") (simp_all add: pct_round_def sgn_if)
  moreover have "sv_value w \<le> i32_max" using assms(4) by (simp add: i32_max_def)
  ultimately have p: "sv_value p = clamp (- 32767) 32767 (- (- ?n div ?d))"
    using to_w_set_pct_value [OF assms(1-3), of pct_sf True] assms(5) by (auto simp: int_bounds)
  have q: "0 \<le> - ?n div ?d" using n d by (simp add: pos_imp_zdiv_nonneg_iff)
  show ?thesis
  proof (cases "- ?n div ?d \<le> 32767")
    case True
    then have "sv_value p = - (- ?n div ?d)" using p q by simp
    then show ?thesis using div_bounds [OF d n] q by (simp add: algebra_simps)
  next
    case False
    then have v: "sv_value p = - 32767" using p by (simp add: clamp_def)
    have "32767 * ?d \<le> - ?n div ?d * ?d" using False d by (intro mult_right_mono) simp_all
    then show ?thesis using div_bounds [OF d n] v by simp
  qed
qed

theorem import_limit_not_exceeded_witness:
  "(- 29 * 100 :: int) \<le> - 14 * 200 \<and>
   to_w_set_pct_from_w_set (new_sv (- 29) 0) (new_sv 200 0) 0 True = Some (new_sv (- 14) 0)"
proof -
  have "to_w_set_pct_from_w_set (new_sv (- 29) 0) (new_sv 200 0) 0 True = Some (new_sv (- 14) 0)"
    by (simp add: to_w_set_pct_value int_bounds pct_numerator_def pct_denominator_def pct_round_def
        clamp_def)
  with import_limit_not_exceeded [of "new_sv 200 0" "new_sv (- 29) 0" 0 "new_sv (- 14) 0"]
  show ?thesis by (simp add: int_bounds pct_numerator_def pct_denominator_def)
qed

end
