(* ===== verification/Modbus_IO.thy ===== *)
theory Modbus_IO
  imports Percent
begin

text \<open>
  Communication with the device, for \<^verbatim>\<open>src/modbus_connection.rs\<close>. The packages
  \<^verbatim>\<open>sunspec\<close> and \<^verbatim>\<open>tokio-modbus\<close> are parameters: a \<open>device\<close> says which models it
  supports, where they are and how a value is encoded, what a read returns and whether a write is
  accepted, the last two depending on everything communicated before. A computation takes the
  operations communicated so far and returns an error or a result, with the operations it added;
  it stops at the first error, as the \<^verbatim>\<open>?\<close> of the code does.

  Two kinds of lemmas compose along the computation: \<open>emits P m\<close>, every operation \<open>m\<close>
  adds satisfies \<open>P\<close>, and \<open>phased\<close>, the operations come in the order of their phases.
\<close>

section \<open>Operations\<close>

datatype modbus_error = ConnectionFailed | MissingModel nat | CommunicationTimeout

text \<open>A point is named as in the code: \<^verbatim>\<open>Model704::W_SET_PCT\<close> is \<open>Pt 704 ''W_SET_PCT''\<close>.\<close>

datatype point = Pt nat string

text \<open>What is written to a point, before its encoding.\<close>

datatype wval =
  WInt int
| WEna enable
| WExt excitation
| WVarSetMod var_set_mod
| WWSetMod w_set_mod
| WDept705 dept_ref_705
| WDept706 dept_ref_706

datatype op =
  ReadModel nat
| ReadPoint point
| ReadValue point
| WritePoint point wval
| WriteRegisters "16 word" "16 word list"

record device =
  dv_supported :: "nat \<Rightarrow> bool"
  dv_addr :: "nat \<Rightarrow> 16 word"
  dv_len :: "nat \<Rightarrow> 16 word"
  dv_group_len :: "string \<Rightarrow> 16 word"
  dv_group_offset :: "string \<Rightarrow> string \<Rightarrow> 16 word"
  dv_encode :: "string \<Rightarrow> string \<Rightarrow> wval \<Rightarrow> 16 word list"
  dv_read_opt :: "op list \<Rightarrow> point \<Rightarrow> int option option"
  dv_read :: "op list \<Rightarrow> point \<Rightarrow> int option"
  dv_accepts :: "op list \<Rightarrow> op \<Rightarrow> bool"
  dv_701 :: "op list \<Rightarrow> model_701 option"
  dv_702 :: "op list \<Rightarrow> model_702 option"
  dv_703 :: "op list \<Rightarrow> model_703 option"
  dv_713 :: "op list \<Rightarrow> model_713 option"
  dv_model1 :: "op list \<Rightarrow> bool"

type_synonym 'a io = "op list \<Rightarrow> (modbus_error + 'a) \<times> op list"

definition io_return :: "'a \<Rightarrow> 'a io" where
  "io_return x tr = (Inr x, tr)"

definition io_bind :: "'a io \<Rightarrow> ('a \<Rightarrow> 'b io) \<Rightarrow> 'b io" where
  "io_bind m f tr = (case m tr of (Inl e, tr') \<Rightarrow> (Inl e, tr') | (Inr x, tr') \<Rightarrow> f x tr')"

definition io_then :: "'a io \<Rightarrow> 'b io \<Rightarrow> 'b io" where
  "io_then a b = io_bind a (\<lambda>_. b)"

fun io_seq :: "unit io list \<Rightarrow> unit io" where
  "io_seq [] = io_return ()"
| "io_seq (m # ms) = io_then m (io_seq ms)"

lemma io_then_assoc: "io_then (io_then a b) c = io_then a (io_then b c)"
  by (rule ext) (simp add: io_then_def io_bind_def split: prod.split sum.split)

lemma io_then_return: "io_then (io_return x) b = b"
  by (rule ext) (simp add: io_then_def io_bind_def io_return_def)

text \<open>\<^verbatim>\<open>device.read_point(p)\<close> of an optional point, of a mandatory one, and a write.\<close>

definition read_opt :: "device \<Rightarrow> point \<Rightarrow> int option io" where
  "read_opt d p tr =
    ((case dv_read_opt d tr p of None \<Rightarrow> Inl ConnectionFailed | Some v \<Rightarrow> Inr v), tr @ [ReadPoint p])"

definition read_req :: "device \<Rightarrow> point \<Rightarrow> int io" where
  "read_req d p tr =
    ((case dv_read d tr p of None \<Rightarrow> Inl ConnectionFailed | Some v \<Rightarrow> Inr v), tr @ [ReadValue p])"

definition write_op :: "device \<Rightarrow> op \<Rightarrow> unit io" where
  "write_op d op tr = ((if dv_accepts d tr op then Inr () else Inl ConnectionFailed), tr @ [op])"

definition write_point :: "device \<Rightarrow> point \<Rightarrow> wval \<Rightarrow> unit io" where
  "write_point d p v = write_op d (WritePoint p v)"

definition write_if_some :: "device \<Rightarrow> point \<Rightarrow> wval option \<Rightarrow> unit io" where
  "write_if_some d p value =
    (case value of None \<Rightarrow> io_return () | Some v \<Rightarrow> write_point d p v)"

definition write_rescaled_if_some ::
  "device \<Rightarrow> (scaled_value \<Rightarrow> int \<Rightarrow> scaled_value) \<Rightarrow> point \<Rightarrow> scaled_value option \<Rightarrow> int \<Rightarrow> unit io" where
  "write_rescaled_if_some d rescale_t p value scale_factor =
    write_if_some d p (map_option (\<lambda>inner. WInt (sv_value (rescale_t inner scale_factor))) value)"

text \<open>The address \<^verbatim>\<open>offset + p.offset\<close> wraps as the \<^verbatim>\<open>u16\<close> it is.\<close>

definition write_offset_point :: "device \<Rightarrow> 16 word \<Rightarrow> string \<Rightarrow> string \<Rightarrow> wval \<Rightarrow> unit io" where
  "write_offset_point d offset grp p value =
    write_op d (WriteRegisters (offset + dv_group_offset d grp p) (dv_encode d grp p value))"

definition write_offset_if_some ::
  "device \<Rightarrow> 16 word \<Rightarrow> string \<Rightarrow> string \<Rightarrow> wval option \<Rightarrow> unit io" where
  "write_offset_if_some d offset grp p value =
    (case value of None \<Rightarrow> io_return () | Some v \<Rightarrow> write_offset_point d offset grp p v)"

section \<open>What a computation emits\<close>

named_theorems emits_intro "rules for the operations a computation emits"

definition emits :: "(op \<Rightarrow> bool) \<Rightarrow> 'a io \<Rightarrow> bool" where
  "emits P m \<longleftrightarrow> (\<forall>tr. \<exists>new. snd (m tr) = tr @ new \<and> (\<forall>op \<in> set new. P op))"

text \<open>The operations a run adds to those before it.\<close>

definition communicated :: "'a io \<Rightarrow> op list \<Rightarrow> op list" where
  "communicated m tr = drop (length tr) (snd (m tr))"

lemma emits_communicated: "emits P m \<Longrightarrow> op \<in> set (communicated m tr) \<Longrightarrow> P op"
  unfolding emits_def communicated_def by (metis append_eq_conv_conj)

lemma emits_trace: "emits P m \<Longrightarrow> snd (m tr) = tr @ communicated m tr"
  unfolding emits_def communicated_def by (metis append_eq_conv_conj)

lemma emits_mono: "emits P m \<Longrightarrow> (\<And>op. P op \<Longrightarrow> Q op) \<Longrightarrow> emits Q m"
  unfolding emits_def by blast

lemma emits_return [emits_intro]: "emits P (io_return x)"
  by (simp add: emits_def io_return_def)

lemma emits_bind:
  assumes "emits P m" "\<And>tr x tr'. m tr = (Inr x, tr') \<Longrightarrow> emits P (f x)"
  shows "emits P (io_bind m f)"
  unfolding emits_def
proof
  fix tr
  obtain r tr' where m: "m tr = (r, tr')" by (cases "m tr")
  from assms(1) obtain new where new: "snd (m tr) = tr @ new" "\<forall>op \<in> set new. P op"
    unfolding emits_def by blast
  show "\<exists>new. snd (io_bind m f tr) = tr @ new \<and> (\<forall>op \<in> set new. P op)"
  proof (cases r)
    case (Inl e)
    then show ?thesis using new m by (auto simp: io_bind_def)
  next
    case (Inr x)
    then obtain new' where "snd (f x tr') = tr' @ new'" "\<forall>op \<in> set new'. P op"
      using assms(2) m unfolding emits_def by blast
    then show ?thesis using new m Inr by (intro exI [of _ "new @ new'"]) (auto simp: io_bind_def)
  qed
qed

lemma emits_then [emits_intro]: "emits P a \<Longrightarrow> emits P b \<Longrightarrow> emits P (io_then a b)"
  unfolding io_then_def by (rule emits_bind)

lemma emits_seq [emits_intro]: "(\<And>m. m \<in> set ms \<Longrightarrow> emits P m) \<Longrightarrow> emits P (io_seq ms)"
  by (induction ms) (simp_all add: emits_return emits_then)

lemma emits_read_opt:
  assumes "P (ReadPoint p)" "\<And>tr v. dv_read_opt d tr p = Some v \<Longrightarrow> emits P (f v)"
  shows "emits P (io_bind (read_opt d p) f)"
proof (rule emits_bind)
  show "emits P (read_opt d p)" by (simp add: emits_def read_opt_def assms(1))
  show "emits P (f v)" if "read_opt d p tr = (Inr v, tr')" for tr v tr'
    using that assms(2) by (auto simp: read_opt_def split: option.splits)
qed

lemma emits_read_req:
  assumes "P (ReadValue p)" "\<And>tr v. dv_read d tr p = Some v \<Longrightarrow> emits P (f v)"
  shows "emits P (io_bind (read_req d p) f)"
proof (rule emits_bind)
  show "emits P (read_req d p)" by (simp add: emits_def read_req_def assms(1))
  show "emits P (f v)" if "read_req d p tr = (Inr v, tr')" for tr v tr'
    using that assms(2) by (auto simp: read_req_def split: option.splits)
qed

lemma emits_write_op [emits_intro]: "P op \<Longrightarrow> emits P (write_op d op)"
  by (simp add: emits_def write_op_def)

lemma emits_write_point [emits_intro]: "P (WritePoint p v) \<Longrightarrow> emits P (write_point d p v)"
  unfolding write_point_def by (rule emits_write_op)

lemma emits_write_if_some [emits_intro]:
  "(\<And>v. value = Some v \<Longrightarrow> P (WritePoint p v)) \<Longrightarrow> emits P (write_if_some d p value)"
  by (cases "value") (simp_all add: write_if_some_def emits_return emits_write_point)

lemma emits_write_rescaled [emits_intro]:
  "(\<And>v. value = Some v \<Longrightarrow> P (WritePoint p (WInt (sv_value (resc v sf))))) \<Longrightarrow>
     emits P (write_rescaled_if_some d resc p value sf)"
  unfolding write_rescaled_if_some_def by (rule emits_write_if_some) auto

lemma emits_write_offset [emits_intro]:
  "P (WriteRegisters (off + dv_group_offset d g p) (dv_encode d g p v)) \<Longrightarrow>
     emits P (write_offset_point d off g p v)"
  unfolding write_offset_point_def by (rule emits_write_op)

lemma emits_write_offset_if_some [emits_intro]:
  "(\<And>v. value = Some v \<Longrightarrow> P (WriteRegisters (off + dv_group_offset d g p) (dv_encode d g p v))) \<Longrightarrow>
     emits P (write_offset_if_some d off g p value)"
  by (cases "value") (simp_all add: write_offset_if_some_def emits_return emits_write_offset)

lemma emits_if [emits_intro]:
  "(b \<Longrightarrow> emits P m) \<Longrightarrow> (\<not> b \<Longrightarrow> emits P m') \<Longrightarrow> emits P (if b then m else m')"
  by simp

lemma emits_option [emits_intro]:
  "(x = None \<Longrightarrow> emits P m) \<Longrightarrow> (\<And>y. x = Some y \<Longrightarrow> emits P (f y)) \<Longrightarrow>
     emits P (case x of None \<Rightarrow> m | Some y \<Rightarrow> f y)"
  by (cases x) simp_all

section \<open>What it returns\<close>

text \<open>\<open>returns Q m\<close>: a result of \<open>m\<close> satisfies \<open>Q\<close>, whatever was communicated before.\<close>

named_theorems returns_intro "rules for the results of a computation"

definition returns :: "('a \<Rightarrow> bool) \<Rightarrow> 'a io \<Rightarrow> bool" where
  "returns Q m \<longleftrightarrow> (\<forall>tr x tr'. m tr = (Inr x, tr') \<longrightarrow> Q x)"

lemma returns_return [returns_intro]: "Q x \<Longrightarrow> returns Q (io_return x)"
  by (simp add: returns_def io_return_def)

lemma returns_bind:
  assumes "returns P m" "\<And>x. P x \<Longrightarrow> returns Q (f x)"
  shows "returns Q (io_bind m f)"
  using assms unfolding returns_def io_bind_def by (fastforce split: prod.splits sum.splits)

lemma returns_then [returns_intro]: "returns Q b \<Longrightarrow> returns Q (io_then a b)"
  unfolding io_then_def by (rule returns_bind [where P = "\<lambda>_. True"]) (simp_all add: returns_def)

lemma returns_bind_read_opt:
  "(\<And>tr v. dv_read_opt d tr p = Some v \<Longrightarrow> returns Q (f v)) \<Longrightarrow> returns Q (io_bind (read_opt d p) f)"
  unfolding returns_def io_bind_def read_opt_def by (fastforce split: option.splits)

lemma returns_bind_read_req:
  "(\<And>tr v. dv_read d tr p = Some v \<Longrightarrow> returns Q (f v)) \<Longrightarrow> returns Q (io_bind (read_req d p) f)"
  unfolding returns_def io_bind_def read_req_def by (fastforce split: option.splits)

lemma returns_any [returns_intro]: "returns (\<lambda>_. True) m"
  by (simp add: returns_def)

lemma returns_option [returns_intro]:
  "(x = None \<Longrightarrow> returns Q m) \<Longrightarrow> (\<And>y. x = Some y \<Longrightarrow> returns Q (f y)) \<Longrightarrow>
     returns Q (case x of None \<Rightarrow> m | Some y \<Rightarrow> f y)"
  by (cases x) simp_all

lemma returns_if [returns_intro]:
  "(b \<Longrightarrow> returns Q m) \<Longrightarrow> (\<not> b \<Longrightarrow> returns Q m') \<Longrightarrow> returns Q (if b then m else m')"
  by simp

lemma emits_bind_returns:
  assumes "emits P m" "returns Q m" "\<And>x. Q x \<Longrightarrow> emits P (f x)"
  shows "emits P (io_bind m f)"
  using assms by (intro emits_bind) (auto simp: returns_def)

text \<open>
  \<open>ends R m\<close>: when \<open>m\<close> succeeds, its result and the operations it communicated are
  in the relation \<open>R\<close>.
\<close>

definition ends :: "('a \<Rightarrow> op list \<Rightarrow> bool) \<Rightarrow> 'a io \<Rightarrow> bool" where
  "ends R m \<longleftrightarrow> (\<forall>tr. \<exists>new. snd (m tr) = tr @ new \<and> (\<forall>x. fst (m tr) = Inr x \<longrightarrow> R x new))"

lemma ends_communicated: "ends R m \<Longrightarrow> m tr = (Inr x, tr') \<Longrightarrow> R x (communicated m tr)"
  unfolding ends_def communicated_def by (metis append_eq_conv_conj fst_conv)

lemma ends_weaken: "ends R m \<Longrightarrow> (\<And>x ops. R x ops \<Longrightarrow> S x ops) \<Longrightarrow> ends S m"
  unfolding ends_def by meson

lemma ends_emits: "emits P m \<Longrightarrow> ends (\<lambda>_ ops. \<forall>op \<in> set ops. P op) m"
  unfolding ends_def emits_def by blast

lemma ends_quiet: "emits (\<lambda>op. \<not> F op) m \<Longrightarrow> ends (\<lambda>_ ops. filter F ops = []) m"
  using ends_emits [of "\<lambda>op. \<not> F op" m] by (simp add: filter_empty_conv)

lemma ends_conj_returns: "ends R m \<Longrightarrow> returns Q m \<Longrightarrow> ends (\<lambda>x ops. R x ops \<and> Q x) m"
  unfolding ends_def returns_def by (metis prod.collapse)

lemma ends_return: "R x [] \<Longrightarrow> ends R (io_return x)"
  by (simp add: ends_def io_return_def)

lemma ends_bind:
  assumes "ends S m" "\<And>x ops. S x ops \<Longrightarrow> ends (\<lambda>y ops'. R y (ops @ ops')) (f x)"
  shows "ends R (io_bind m f)"
  unfolding ends_def
proof
  fix tr
  obtain r tr' where m: "m tr = (r, tr')" by (cases "m tr")
  then obtain new where new: "tr' = tr @ new" "\<And>x. r = Inr x \<Longrightarrow> S x new"
    using assms(1) unfolding ends_def by (metis fst_conv snd_conv)
  show "\<exists>new. snd (io_bind m f tr) = tr @ new \<and> (\<forall>y. fst (io_bind m f tr) = Inr y \<longrightarrow> R y new)"
  proof (cases r)
    case (Inl e)
    then show ?thesis using m new by (simp add: io_bind_def)
  next
    case (Inr x)
    from assms(2) [OF new(2) [OF this]]
    obtain new' where "snd (f x tr') = tr' @ new'" "\<forall>y. fst (f x tr') = Inr y \<longrightarrow> R y (new @ new')"
      unfolding ends_def by blast
    then show ?thesis using m new Inr by (simp add: io_bind_def)
  qed
qed

lemma ends_then:
  assumes "ends (\<lambda>_. S) m" "\<And>ops. S ops \<Longrightarrow> ends (\<lambda>y ops'. R y (ops @ ops')) b"
  shows "ends R (io_then m b)"
  unfolding io_then_def using assms by (rule ends_bind)

lemma ends_read_opt:
  "(\<And>tr v. dv_read_opt d tr p = Some v \<Longrightarrow> ends (\<lambda>y ops. R y (ReadPoint p # ops)) (f v)) \<Longrightarrow>
     ends R (io_bind (read_opt d p) f)"
  by (rule ends_bind [where S = "\<lambda>v ops. ops = [ReadPoint p] \<and> (\<exists>tr. dv_read_opt d tr p = Some v)"])
    (auto simp: ends_def read_opt_def split: option.split)

lemma ends_read_req:
  "(\<And>tr v. dv_read d tr p = Some v \<Longrightarrow> ends (\<lambda>y ops. R y (ReadValue p # ops)) (f v)) \<Longrightarrow>
     ends R (io_bind (read_req d p) f)"
  by (rule ends_bind [where S = "\<lambda>v ops. ops = [ReadValue p] \<and> (\<exists>tr. dv_read d tr p = Some v)"])
    (auto simp: ends_def read_req_def split: option.split)

lemma ends_write_op: "R () [op] \<Longrightarrow> ends R (write_op d op)"
  by (simp add: ends_def write_op_def)

lemmas ends_write_point = ends_write_op [where op = "WritePoint p v" for p v, folded write_point_def]

section \<open>The order of what it emits\<close>

text \<open>The operations come in the order of their phases, all between two bounds.\<close>

definition phased :: "(op \<Rightarrow> nat) \<Rightarrow> nat \<Rightarrow> nat \<Rightarrow> 'a io \<Rightarrow> bool" where
  "phased phase lo hi m \<longleftrightarrow> (\<forall>tr. \<exists>new. snd (m tr) = tr @ new \<and>
     sorted (map phase new) \<and> (\<forall>op \<in> set new. lo \<le> phase op \<and> phase op \<le> hi))"

lemma phased_bind:
  assumes "phased phase lo mid m" "\<And>x. phased phase mid hi (f x)" "lo \<le> mid" "mid \<le> hi"
  shows "phased phase lo hi (io_bind m f)"
  unfolding phased_def
proof
  fix tr
  obtain r tr' where m: "m tr = (r, tr')" by (cases "m tr")
  from assms(1) obtain new where new: "snd (m tr) = tr @ new" "sorted (map phase new)"
      "\<forall>op \<in> set new. lo \<le> phase op \<and> phase op \<le> mid"
    unfolding phased_def by blast
  show "\<exists>new. snd (io_bind m f tr) = tr @ new \<and> sorted (map phase new) \<and>
      (\<forall>op \<in> set new. lo \<le> phase op \<and> phase op \<le> hi)"
  proof (cases r)
    case (Inl e)
    then show ?thesis using new m assms(4) by (force simp: io_bind_def)
  next
    case (Inr x)
    obtain new' where new': "snd (f x tr') = tr' @ new'" "sorted (map phase new')"
        "\<forall>op \<in> set new'. mid \<le> phase op \<and> phase op \<le> hi"
      using assms(2) unfolding phased_def by blast
    then have "sorted (map phase (new @ new'))"
      using new by (auto simp: sorted_append intro: order_trans)
    then show ?thesis
      using new new' m Inr assms(3,4) by (intro exI [of _ "new @ new'"]) (force simp: io_bind_def)
  qed
qed

lemma phased_weaken: "phased phase lo hi m \<Longrightarrow> lo' \<le> lo \<Longrightarrow> hi \<le> hi' \<Longrightarrow> phased phase lo' hi' m"
  unfolding phased_def by (meson order_trans)

lemma phased_constant: "emits (\<lambda>op. phase op = n) m \<Longrightarrow> phased phase n n m"
  unfolding phased_def emits_def
proof
  fix tr
  assume "\<forall>tr. \<exists>new. snd (m tr) = tr @ new \<and> (\<forall>op \<in> set new. phase op = n)"
  then obtain new where new: "snd (m tr) = tr @ new" "\<forall>op \<in> set new. phase op = n" by blast
  then have "map phase new = replicate (length new) n"
    by (induction new) (auto simp: map_replicate_const [symmetric])
  then show "\<exists>new. snd (m tr) = tr @ new \<and> sorted (map phase new) \<and>
      (\<forall>op \<in> set new. n \<le> phase op \<and> phase op \<le> n)"
    using new by (intro exI [of _ new]) auto
qed

section \<open>The first error ends it\<close>

fun op_ok :: "device \<Rightarrow> op list \<Rightarrow> op \<Rightarrow> bool" where
  "op_ok d tr (ReadPoint p) \<longleftrightarrow> dv_read_opt d tr p \<noteq> None"
| "op_ok d tr (ReadValue p) \<longleftrightarrow> dv_read d tr p \<noteq> None"
| "op_ok d tr op \<longleftrightarrow> dv_accepts d tr op"

fun all_ok :: "device \<Rightarrow> op list \<Rightarrow> op list \<Rightarrow> bool" where
  "all_ok d tr [] \<longleftrightarrow> True"
| "all_ok d tr (op # ops) \<longleftrightarrow> op_ok d tr op \<and> all_ok d (tr @ [op]) ops"

lemma all_ok_append: "all_ok d tr (xs @ ys) \<longleftrightarrow> all_ok d tr xs \<and> all_ok d (tr @ xs) ys"
  by (induction xs arbitrary: tr) simp_all

named_theorems stops_intro "rules for computations that stop at the first error"

definition outcome_ok :: "device \<Rightarrow> op list \<Rightarrow> (modbus_error + 'a) \<times> op list \<Rightarrow> bool" where
  "outcome_ok d tr r \<longleftrightarrow> (case r of
     (Inr _, tr') \<Rightarrow> \<exists>new. tr' = tr @ new \<and> all_ok d tr new
   | (Inl e, tr') \<Rightarrow> e = ConnectionFailed \<and>
       (\<exists>new op. tr' = tr @ new @ [op] \<and> all_ok d tr new \<and> \<not> op_ok d (tr @ new) op))"

definition stops_at_error :: "device \<Rightarrow> 'a io \<Rightarrow> bool" where
  "stops_at_error d m \<longleftrightarrow> (\<forall>tr. outcome_ok d tr (m tr))"

lemma outcome_ok_simps:
  "outcome_ok d tr (Inr x, tr') \<longleftrightarrow> (\<exists>new. tr' = tr @ new \<and> all_ok d tr new)"
  "outcome_ok d tr (Inl e, tr') \<longleftrightarrow> e = ConnectionFailed \<and>
     (\<exists>new op. tr' = tr @ new @ [op] \<and> all_ok d tr new \<and> \<not> op_ok d (tr @ new) op)"
  by (simp_all add: outcome_ok_def)

lemma outcome_ok_prefix:
  assumes "all_ok d tr new" "outcome_ok d (tr @ new) r"
  shows "outcome_ok d tr r"
proof (cases r)
  case (Pair res tr')
  show ?thesis
  proof (cases res)
    case (Inl e)
    then obtain new2 op where "e = ConnectionFailed" "tr' = (tr @ new) @ new2 @ [op]"
        "all_ok d (tr @ new) new2" "\<not> op_ok d ((tr @ new) @ new2) op"
      using assms(2) Pair by (auto simp: outcome_ok_simps)
    then show ?thesis
      unfolding Pair Inl outcome_ok_simps using assms(1)
      by (intro conjI exI [of _ "new @ new2"] exI [of _ op]) (simp_all add: all_ok_append)
  next
    case (Inr x)
    then obtain new2 where "tr' = (tr @ new) @ new2" "all_ok d (tr @ new) new2"
      using assms(2) Pair by (auto simp: outcome_ok_simps)
    then show ?thesis
      unfolding Pair Inr outcome_ok_simps using assms(1)
      by (intro exI [of _ "new @ new2"]) (simp add: all_ok_append)
  qed
qed

lemma stops_return [stops_intro]: "stops_at_error d (io_return x)"
  by (simp add: stops_at_error_def outcome_ok_def io_return_def)

lemma stops_bind [stops_intro]:
  assumes "stops_at_error d m" "\<And>x. stops_at_error d (f x)"
  shows "stops_at_error d (io_bind m f)"
  unfolding stops_at_error_def
proof
  fix tr
  obtain r tr' where m: "m tr = (r, tr')" by (cases "m tr")
  have m_ok: "outcome_ok d tr (r, tr')" using assms(1) m unfolding stops_at_error_def by metis
  show "outcome_ok d tr (io_bind m f tr)"
  proof (cases r)
    case (Inl e)
    then show ?thesis using m_ok m by (simp add: io_bind_def outcome_ok_simps)
  next
    case (Inr x)
    then obtain new where new: "tr' = tr @ new" "all_ok d tr new"
      using m_ok by (auto simp: outcome_ok_simps)
    have "outcome_ok d tr' (f x tr')" using assms(2) unfolding stops_at_error_def by blast
    then show ?thesis using outcome_ok_prefix new m Inr by (simp add: io_bind_def)
  qed
qed

lemma stops_then [stops_intro]: "stops_at_error d a \<Longrightarrow> stops_at_error d b \<Longrightarrow> stops_at_error d (io_then a b)"
  unfolding io_then_def by (rule stops_bind)

lemma stops_seq [stops_intro]: "(\<And>m. m \<in> set ms \<Longrightarrow> stops_at_error d m) \<Longrightarrow> stops_at_error d (io_seq ms)"
  by (induction ms) (simp_all add: stops_return stops_then)

lemma stops_read [stops_intro]: "stops_at_error d (read_opt d p)" "stops_at_error d (read_req d p)"
  by (auto simp: stops_at_error_def outcome_ok_def read_opt_def read_req_def split: option.split)

lemma stops_write [stops_intro]:
  "stops_at_error d (write_op d (WritePoint p v))" "stops_at_error d (write_op d (WriteRegisters a ws))"
  by (auto simp: stops_at_error_def outcome_ok_def write_op_def)

lemma stops_writes [stops_intro]:
  "stops_at_error d (write_point d p v)"
  "stops_at_error d (write_if_some d p value)"
  "stops_at_error d (write_rescaled_if_some d resc p value' sf)"
  "stops_at_error d (write_offset_point d off g n v)"
  "stops_at_error d (write_offset_if_some d off g n value)"
  by (auto simp: write_point_def write_if_some_def write_rescaled_if_some_def write_offset_point_def
      write_offset_if_some_def stops_write stops_return split: option.split)

lemma stops_if [stops_intro]:
  "(b \<Longrightarrow> stops_at_error d m) \<Longrightarrow> (\<not> b \<Longrightarrow> stops_at_error d m') \<Longrightarrow> stops_at_error d (if b then m else m')"
  by simp

lemma stops_option [stops_intro]:
  "(x = None \<Longrightarrow> stops_at_error d m) \<Longrightarrow> (\<And>y. x = Some y \<Longrightarrow> stops_at_error d (f y)) \<Longrightarrow>
     stops_at_error d (case x of None \<Rightarrow> m | Some y \<Rightarrow> f y)"
  by (cases x) simp_all

text \<open>On a device that answers and accepts everything, a computation that stops only at an error
  succeeds.\<close>

lemma stops_succeeds:
  assumes "stops_at_error d m" "\<And>tr op. op_ok d tr op"
  shows "\<exists>x tr'. m tr = (Inr x, tr')"
proof (cases "m tr")
  case (Pair r tr')
  have "outcome_ok d tr (r, tr')" using assms(1) Pair unfolding stops_at_error_def by metis
  then show ?thesis using assms(2) Pair by (cases r) (auto simp: outcome_ok_simps)
qed

end
