(* ===== verification/Modbus_Writes.thy ===== *)
theory Modbus_Writes
  imports Modbus_IO
begin

text \<open>
  \<^verbatim>\<open>src/modbus_connection.rs\<close>: the writes to the SunSpec models 703 (enter service) and 704
  (power factor, reactive power, limits and set point), with the derivation of percentages from
  limits in watts, which is deferred while the rating of the device is unknown.
\<close>

section \<open>Model 703\<close>

definition send_model703_parameters :: "device \<Rightarrow> parameters \<Rightarrow> unit io" where
  "send_model703_parameters d p =
    (if \<not> dv_supported d 703 then io_return ()
     else io_seq
       [write_if_some d (Pt 703 ''ES'') (map_option WEna (p_es p)),
        (if p_esv_hi p \<noteq> None \<or> p_esv_lo p \<noteq> None then
           io_bind (read_opt d (Pt 703 ''V_SF'')) (\<lambda>sf.
             let v_sf = sf_or_default sf in
             io_then (write_rescaled_if_some d rescale_u16 (Pt 703 ''ESV_HI'') (p_esv_hi p) v_sf)
               (write_rescaled_if_some d rescale_u16 (Pt 703 ''ESV_LO'') (p_esv_lo p) v_sf))
         else io_return ()),
        (if p_es_hz_hi p \<noteq> None \<or> p_es_hz_lo p \<noteq> None then
           io_bind (read_opt d (Pt 703 ''HZ_SF'')) (\<lambda>sf.
             let hz_sf = sf_or_default sf in
             io_then (write_rescaled_if_some d rescale_u32 (Pt 703 ''ES_HZ_HI'') (p_es_hz_hi p) hz_sf)
               (write_rescaled_if_some d rescale_u32 (Pt 703 ''ES_HZ_LO'') (p_es_hz_lo p) hz_sf))
         else io_return ()),
        write_if_some d (Pt 703 ''ES_DLY_TMS'') (map_option WInt (p_es_dly_tms p)),
        write_if_some d (Pt 703 ''ES_RND_TMS'') (map_option WInt (p_es_rnd_tms p)),
        write_if_some d (Pt 703 ''ES_RMP_TMS'') (map_option WInt (p_es_rmp_tms p))])"

section \<open>Model 704: limits and set point\<close>

text \<open>\<^verbatim>\<open>ApplyStatus\<close>: whether a derivation was deferred.\<close>

record apply_status =
  deferred :: bool

definition default_apply_status :: apply_status where
  "default_apply_status = \<lparr>deferred = False\<rparr>"

definition needs_w_max_rtg :: "parameters \<Rightarrow> bool" where
  "needs_w_max_rtg p \<longleftrightarrow> p_w_max_lim p \<noteq> None \<or> p_w_set_pct p = None \<and> p_w_set p \<noteq> None"

definition read_w_max_rtg :: "device \<Rightarrow> parameters \<Rightarrow> scaled_value option io" where
  "read_w_max_rtg d p =
    (if needs_w_max_rtg p \<and> dv_supported d 702 then
       io_bind (read_opt d (Pt 702 ''W_MAX_RTG'')) (\<lambda>w_max_rtg.
         case w_max_rtg of
           None \<Rightarrow> io_return None
         | Some w_max_rtg \<Rightarrow>
             io_bind (read_opt d (Pt 702 ''W_SF'')) (\<lambda>w_sf.
               io_return (Some (new_sv w_max_rtg (sf_or_default w_sf)))))
     else io_return None)"

definition read_sf_if :: "device \<Rightarrow> bool \<Rightarrow> point \<Rightarrow> int option io" where
  "read_sf_if d b p =
    (if b then io_bind (read_opt d p) (\<lambda>sf. io_return (Some (sf_or_default sf)))
     else io_return None)"

fun explicit_pct :: "scaled_value option \<Rightarrow> int option \<Rightarrow> scaled_value option" where
  "explicit_pct (Some w_max_lim_pct) (Some pct_sf) = Some (rescale_u16 w_max_lim_pct pct_sf)"
| "explicit_pct _ _ = None"

fun derived_pct :: "scaled_value option \<Rightarrow> scaled_value option \<Rightarrow> int option \<Rightarrow> scaled_value option" where
  "derived_pct (Some w_max_lim) (Some w_max_rtg) (Some pct_sf) =
     to_w_max_lim_pct_from_w_max_lim w_max_lim w_max_rtg pct_sf"
| "derived_pct _ _ _ = None"

text \<open>The stricter of an explicit and a derived limit.\<close>

fun stricter_pct :: "scaled_value option \<Rightarrow> scaled_value option \<Rightarrow> scaled_value option" where
  "stricter_pct (Some explicit) (Some derived) =
     (if sv_value derived < sv_value explicit then Some derived else Some explicit)"
| "stricter_pct (Some explicit) None = Some explicit"
| "stricter_pct None (Some derived) = Some derived"
| "stricter_pct None None = None"

definition w_max_lim_ena :: "parameters \<Rightarrow> scaled_value option \<Rightarrow> enable option" where
  "w_max_lim_ena p w_max_lim_pct =
    (let derive_from_site_only = p_w_max_lim_pct p = None \<and> p_w_max_lim p \<noteq> None
     in case (p_w_max_lim_pct_ena p, w_max_lim_pct) of
          (Some ena, pct) \<Rightarrow>
            if ena = Disabled \<and> pct \<noteq> None \<and> derive_from_site_only then Some Enabled else Some ena
        | (None, Some _) \<Rightarrow> Some Enabled
        | (None, None) \<Rightarrow> None)"

text \<open>The export limit; the result is whether its derivation is pending.\<close>

definition send_w_max_lim :: "device \<Rightarrow> parameters \<Rightarrow> bool \<Rightarrow> scaled_value option \<Rightarrow> bool io" where
  "send_w_max_lim d p retry_only w_max_rtg =
    (let has_w_max_lim_pct = p_w_max_lim_pct p \<noteq> None;
         derive_w_max_lim_pct = p_w_max_lim p \<noteq> None
     in io_bind (read_sf_if d (has_w_max_lim_pct \<or> derive_w_max_lim_pct \<and> w_max_rtg \<noteq> None)
           (Pt 704 ''W_MAX_LIM_PCT_SF'')) (\<lambda>pct_sf.
        let explicit = explicit_pct (p_w_max_lim_pct p) pct_sf;
            derived = derived_pct (p_w_max_lim p) w_max_rtg pct_sf;
            w_max_lim_pct = stricter_pct explicit derived
        in if \<not> (\<not> retry_only \<or> derive_w_max_lim_pct) then io_return False
           else if derive_w_max_lim_pct \<and> derived = None then io_return True
           else io_then
             (write_if_some d (Pt 704 ''W_MAX_LIM_PCT_ENA'')
               (map_option WEna (w_max_lim_ena p w_max_lim_pct)))
             (io_then
               (case pct_sf of
                  None \<Rightarrow> io_return ()
                | Some sf \<Rightarrow> write_rescaled_if_some d rescale_u16 (Pt 704 ''W_MAX_LIM_PCT'') w_max_lim_pct sf)
               (io_return False))))"

fun w_set_pct_of :: "parameters \<Rightarrow> scaled_value option \<Rightarrow> int option \<Rightarrow> scaled_value option" where
  "w_set_pct_of p w_max_rtg pct_sf =
    (case p_w_set_pct p of
       Some w_set_pct \<Rightarrow> Some w_set_pct
     | None \<Rightarrow>
         (case (p_w_set p, w_max_rtg, pct_sf) of
            (Some w_set, Some rtg, Some sf) \<Rightarrow>
              to_w_set_pct_from_w_set w_set rtg sf (p_w_set_is_import_site_limit p)
          | _ \<Rightarrow> None))"

text \<open>The set point; the result is whether its derivation is pending.\<close>

definition send_w_set :: "device \<Rightarrow> parameters \<Rightarrow> bool \<Rightarrow> scaled_value option \<Rightarrow> bool io" where
  "send_w_set d p retry_only w_max_rtg =
    (let has_w_set_pct = p_w_set_pct p \<noteq> None;
         has_w_set = p_w_set p \<noteq> None;
         derive_w_set_pct = \<not> has_w_set_pct \<and> has_w_set;
         is_import = p_w_set_is_import_site_limit p
     in io_bind (read_sf_if d (has_w_set_pct \<or> derive_w_set_pct \<and> w_max_rtg \<noteq> None)
           (Pt 704 ''W_SET_PCT_SF'')) (\<lambda>pct_sf.
        let w_set_pct = w_set_pct_of p w_max_rtg pct_sf;
            pending = derive_w_set_pct \<and> w_set_pct = None;
            import_pending = is_import \<and> pending;
            should_process = \<not> retry_only \<or> derive_w_set_pct;
            import_uses_pct = is_import \<and> w_set_pct \<noteq> None;
            w_set_mod = (if import_uses_pct then Some WS_WMaxPct else p_w_set_mod p)
        in io_then
          (if should_process \<and> \<not> import_pending then
             io_then
               (if \<not> retry_only \<or> is_import
                then write_if_some d (Pt 704 ''W_SET_ENA'') (map_option WEna (p_w_set_ena p))
                else io_return ())
               (case pct_sf of
                  None \<Rightarrow> io_return ()
                | Some sf \<Rightarrow> write_rescaled_if_some d rescale_i16 (Pt 704 ''W_SET_PCT'') w_set_pct sf)
           else io_return ())
          (io_then
            (if has_w_set \<and> \<not> retry_only \<and> \<not> import_uses_pct \<and> \<not> import_pending then
               io_bind (read_opt d (Pt 704 ''W_SET_SF'')) (\<lambda>sf.
                 write_rescaled_if_some d rescale_i32 (Pt 704 ''W_SET'') (p_w_set p) (sf_or_default sf))
             else io_return ())
            (io_then
              (if should_process \<and> \<not> import_pending \<and> (\<not> retry_only \<or> is_import)
               then write_if_some d (Pt 704 ''W_SET_MOD'') (map_option WWSetMod w_set_mod)
               else io_return ())
              (io_return pending)))))"

definition send_model704_pending_limit_derivations :: "device \<Rightarrow> parameters \<Rightarrow> bool \<Rightarrow> apply_status io" where
  "send_model704_pending_limit_derivations d p retry_only =
    (if \<not> dv_supported d 704 then io_return default_apply_status
     else
       io_bind (read_w_max_rtg d p) (\<lambda>w_max_rtg.
       io_bind (send_w_max_lim d p retry_only w_max_rtg) (\<lambda>lim_pending.
       io_bind (send_w_set d p retry_only w_max_rtg) (\<lambda>set_pending.
       io_return \<lparr>deferred = lim_pending \<or> set_pending\<rparr>))))"

section \<open>Model 704\<close>

definition pfw_inj_offset :: "device \<Rightarrow> 16 word" where
  "pfw_inj_offset d = dv_addr d 704 + dv_len d 704"

definition pfw_abs_offset :: "device \<Rightarrow> 16 word" where
  "pfw_abs_offset d =
    pfw_inj_offset d + dv_group_len d ''model704::PfwInj'' + dv_group_len d ''model704::PfwInjRvrt''"

text \<open>Tables E.3 and E.5: the power factors and the reactive power.\<close>

definition send_model704_power_factors :: "device \<Rightarrow> parameters \<Rightarrow> unit io" where
  "send_model704_power_factors d p = io_seq
    [write_if_some d (Pt 704 ''PFW_INJ_ENA'') (map_option WEna (p_pfw_inj_ena p)),
     write_if_some d (Pt 704 ''PFW_ABS_ENA'') (map_option WEna (p_pfw_abs_ena p)),
     write_offset_if_some d (pfw_inj_offset d) ''model704::PfwInj'' ''EXT''
       (map_option WExt (p_pfw_inj_ext p)),
     write_offset_if_some d (pfw_abs_offset d) ''model704::PfwAbs'' ''EXT''
       (map_option WExt (p_pfw_abs_ext p)),
     (if p_pfw_inj_pf p \<noteq> None \<or> p_pfw_abs_pf p \<noteq> None then
        io_bind (read_opt d (Pt 704 ''PF_SF'')) (\<lambda>sf.
          let pf_sf = sf_or_default sf in
          io_then
            (write_offset_if_some d (pfw_inj_offset d) ''model704::PfwInj'' ''PF''
              (map_option (\<lambda>pf. WInt (sv_value (rescale_u16 pf pf_sf))) (p_pfw_inj_pf p)))
            (write_offset_if_some d (pfw_abs_offset d) ''model704::PfwAbs'' ''PF''
              (map_option (\<lambda>pf. WInt (sv_value (rescale_u16 pf pf_sf))) (p_pfw_abs_pf p))))
      else io_return ())]"

definition send_model704_fixed_var :: "device \<Rightarrow> parameters \<Rightarrow> unit io" where
  "send_model704_fixed_var d p = io_seq
    [write_if_some d (Pt 704 ''VAR_SET_ENA'') (map_option WEna (p_var_set_ena p)),
     (if p_var_set_pct p \<noteq> None then
        io_bind (read_opt d (Pt 704 ''VAR_SET_PCT_SF'')) (\<lambda>sf.
          write_rescaled_if_some d rescale_i16 (Pt 704 ''VAR_SET_PCT'') (p_var_set_pct p)
            (sf_or_default sf))
      else io_return ()),
     write_if_some d (Pt 704 ''VAR_SET_MOD'') (map_option WVarSetMod (p_var_set_mod p))]"

definition send_model704_parameters :: "device \<Rightarrow> parameters \<Rightarrow> apply_status io" where
  "send_model704_parameters d p =
    (if \<not> dv_supported d 704 then io_return default_apply_status
     else
       io_then (io_then (send_model704_power_factors d p) (send_model704_fixed_var d p))
         (send_model704_pending_limit_derivations d p False))"

section \<open>The export limit while the capacity is unknown\<close>

text \<open>The rating is not available: the model is missing, or its point is unset or zero.\<close>

definition capacity_unknown :: "device \<Rightarrow> bool" where
  "capacity_unknown d \<longleftrightarrow> dv_supported d 702 \<longrightarrow>
     (\<forall>tr x. dv_read_opt d tr (Pt 702 ''W_MAX_RTG'') = Some x \<longrightarrow> x = None \<or> x = Some 0)"

lemma read_w_max_rtg_unknown:
  "capacity_unknown d \<Longrightarrow> returns (\<lambda>rtg. \<forall>r. rtg = Some r \<longrightarrow> sv_value r = 0) (read_w_max_rtg d p)"
  unfolding read_w_max_rtg_def capacity_unknown_def
  by (intro returns_if returns_bind_read_opt returns_option returns_return) auto

lemma emits_read_w_max_rtg:
  "(\<And>n. P (ReadPoint (Pt 702 n))) \<Longrightarrow> emits P (read_w_max_rtg d p)"
  unfolding read_w_max_rtg_def
  by (intro emits_if emits_read_opt emits_option emits_return)

lemma emits_read_sf_if: "P (ReadPoint q) \<Longrightarrow> emits P (read_sf_if d b q)"
  unfolding read_sf_if_def by (intro emits_if emits_read_opt emits_return)

lemma derived_pct_unknown:
  "(\<forall>r. rtg = Some r \<longrightarrow> sv_value r = 0) \<Longrightarrow> derived_pct lim rtg sf = None"
  by (cases "(lim, rtg, sf)" rule: derived_pct.cases) (auto simp: to_w_max_lim_pct_from_w_max_lim_def)

lemma w_set_pct_unknown:
  "(\<forall>r. rtg = Some r \<longrightarrow> sv_value r = 0) \<Longrightarrow> w_set_pct_of p rtg sf = p_w_set_pct p"
  by (auto simp: to_w_set_pct_from_w_set_def split: option.split)

declare w_set_pct_of.simps [simp del]

text \<open>The points of the limit and of the set point, and whether an operation writes one of them.\<close>

definition limit_points :: "string list" where
  "limit_points = [''W_MAX_LIM_PCT_ENA'', ''W_MAX_LIM_PCT'']"

definition set_points :: "string list" where
  "set_points = [''W_SET_ENA'', ''W_SET_PCT'', ''W_SET'', ''W_SET_MOD'']"

fun writes_704 :: "string list \<Rightarrow> op \<Rightarrow> bool" where
  "writes_704 names (WritePoint (Pt m n) v) \<longleftrightarrow> m = 704 \<and> n \<in> set names"
| "writes_704 names _ \<longleftrightarrow> False"

lemma emits_send_w_max_lim:
  assumes "\<And>n. P (ReadPoint (Pt 704 n))" "\<And>n v. n \<in> set limit_points \<Longrightarrow> P (WritePoint (Pt 704 n) v)"
  shows "emits P (send_w_max_lim d p retry rtg)"
  unfolding send_w_max_lim_def Let_def
  by (intro emits_bind emits_read_sf_if emits_intro) (simp_all add: assms limit_points_def)

lemma emits_send_w_set:
  assumes "\<And>n. P (ReadPoint (Pt 704 n))" "\<And>n v. n \<in> set set_points \<Longrightarrow> P (WritePoint (Pt 704 n) v)"
  shows "emits P (send_w_set d p retry rtg)"
  unfolding send_w_set_def Let_def
  by (intro emits_bind emits_read_sf_if emits_read_opt emits_intro) (simp_all add: assms set_points_def)

lemma emits_pending:
  assumes "\<And>m n. P (ReadPoint (Pt m n))"
    and "returns Q (read_w_max_rtg d p)"
    and "\<And>rtg. Q rtg \<Longrightarrow> emits P (send_w_max_lim d p retry rtg)"
    and "\<And>rtg. Q rtg \<Longrightarrow> emits P (send_w_set d p retry rtg)"
  shows "emits P (send_model704_pending_limit_derivations d p retry)"
  unfolding send_model704_pending_limit_derivations_def
  by (intro emits_if emits_return emits_bind_returns [where Q = Q] emits_read_w_max_rtg
      emits_bind [of _ "send_w_max_lim d p retry x" for x] emits_bind [of _ "send_w_set d p retry x" for x]
      assms)

lemma emits_704_others:
  assumes "\<And>m n. P (ReadPoint (Pt m n))" "\<And>a ws. P (WriteRegisters a ws)"
    and "\<And>n v. n \<notin> set (limit_points @ set_points) \<Longrightarrow> P (WritePoint (Pt 704 n) v)"
  shows "emits P (io_then (send_model704_power_factors d p) (send_model704_fixed_var d p))"
proof -
  note others = assms(3) [unfolded limit_points_def set_points_def, simplified]
  show ?thesis
    unfolding send_model704_power_factors_def send_model704_fixed_var_def Let_def
    by (rule emits_then; rule emits_seq)
      (auto intro!: emits_write_if_some emits_write_offset_if_some emits_write_rescaled emits_read_opt
        emits_then emits_return assms(1,2) others)
qed

lemma emits_704:
  assumes "\<And>m n. P (ReadPoint (Pt m n))" "\<And>a ws. P (WriteRegisters a ws)"
    and "\<And>n v. n \<notin> set (limit_points @ set_points) \<Longrightarrow> P (WritePoint (Pt 704 n) v)"
    and "emits P (send_model704_pending_limit_derivations d p False)"
  shows "emits P (send_model704_parameters d p)"
  unfolding send_model704_parameters_def
  by (intro emits_if emits_return emits_then [OF _ assms(4)] emits_then [OF emits_704_others] assms)

text \<open>Without a rating the export limit is pending: nothing of it is written.\<close>

lemma send_w_max_lim_unknown:
  assumes "\<forall>r. rtg = Some r \<longrightarrow> sv_value r = 0" "p_w_max_lim p \<noteq> None"
  shows "emits (\<lambda>op. \<exists>q. op = ReadPoint q) (send_w_max_lim d p retry rtg)"
    and "returns (\<lambda>pending. pending) (send_w_max_lim d p retry rtg)"
  unfolding send_w_max_lim_def Let_def
  using derived_pct_unknown [OF assms(1)] assms(2)
  by (auto intro!: emits_bind emits_read_sf_if emits_return returns_bind [OF returns_any] returns_return)

lemma send_w_set_unknown:
  assumes "\<forall>r. rtg = Some r \<longrightarrow> sv_value r = 0" "p_w_set p \<noteq> None" "p_w_set_pct p = None"
  shows "returns (\<lambda>pending. pending) (send_w_set d p retry rtg)"
    and "p_w_set_is_import_site_limit p \<Longrightarrow>
      emits (\<lambda>op. \<exists>q. op = ReadPoint q) (send_w_set d p retry rtg)"
  unfolding send_w_set_def Let_def
  using w_set_pct_unknown [OF assms(1)] assms(2,3)
  by (auto intro!: emits_bind emits_read_sf_if emits_return emits_then emits_if
      returns_bind [OF returns_any] returns_return returns_then)

lemma send_w_set_nothing_pending:
  "returns (\<lambda>pending. p_w_set p = None \<or> p_w_set_pct p \<noteq> None \<longrightarrow> \<not> pending) (send_w_set d p retry rtg)"
  unfolding send_w_set_def Let_def
  by (intro returns_bind [OF returns_any] returns_then returns_return) auto

text \<open>With a rating, what is written of the limit is the stricter of the two percentages.\<close>

lemma rescale_u16_same: "sv_sf x = sf \<Longrightarrow> rescale_u16 x sf = x"
  by (simp add: rescale_u16_def rescale_def)

lemma stricter_pct_cases:
  assumes "stricter_pct explicit derived = Some x" "derived = Some y"
  shows "sv_value x \<le> sv_value y" "x = y \<or> explicit = Some x"
    "\<And>z. explicit = Some z \<Longrightarrow> sv_value x \<le> sv_value z"
  using assms by (cases explicit; auto split: if_splits)+

definition device_rating :: "device \<Rightarrow> int \<Rightarrow> int \<Rightarrow> int \<Rightarrow> bool" where
  "device_rating d rtg w_sf pct_sf \<longleftrightarrow>
     (\<forall>tr x. dv_read_opt d tr (Pt 702 ''W_MAX_RTG'') = Some x \<longrightarrow> x = Some rtg) \<and>
     (\<forall>tr x. dv_read_opt d tr (Pt 702 ''W_SF'') = Some x \<longrightarrow> sf_or_default x = w_sf) \<and>
     (\<forall>tr x. dv_read_opt d tr (Pt 704 ''W_MAX_LIM_PCT_SF'') = Some x \<longrightarrow> sf_or_default x = pct_sf)"

lemma returns_read_w_max_rtg:
  "device_rating d rtg w_sf pct_sf \<Longrightarrow>
     returns (\<lambda>r. \<forall>x. r = Some x \<longrightarrow> x = new_sv rtg w_sf) (read_w_max_rtg d p)"
  unfolding read_w_max_rtg_def device_rating_def
  by (intro returns_if returns_bind_read_opt returns_option returns_return) auto

lemma returns_read_sf:
  "device_rating d rtg w_sf pct_sf \<Longrightarrow>
     returns (\<lambda>r. \<forall>x. r = Some x \<longrightarrow> x = pct_sf) (read_sf_if d b (Pt 704 ''W_MAX_LIM_PCT_SF''))"
  unfolding read_sf_if_def device_rating_def
  by (intro returns_if returns_bind_read_opt returns_return) auto

lemma derived_pct_Some:
  assumes "derived_pct lim rtg sf = Some y"
  obtains l r s where "lim = Some l" "rtg = Some r" "sf = Some s"
    "to_w_max_lim_pct_from_w_max_lim l r s = Some y"
  using assms by (cases "(lim, rtg, sf)" rule: derived_pct.cases) auto

lemma explicit_pct_Some:
  assumes "explicit_pct pct sf = Some z"
  obtains x s where "pct = Some x" "sf = Some s" "z = rescale_u16 x s"
  using assms by (cases "(pct, sf)" rule: explicit_pct.cases) auto

text \<open>A value of the limit register that respects the limit \<open>lim\<close> and the percentage \<open>pct\<close>.\<close>

definition respects_limits :: "scaled_value \<Rightarrow> scaled_value option \<Rightarrow> scaled_value \<Rightarrow> int \<Rightarrow> int \<Rightarrow> bool" where
  "respects_limits lim pct rating pct_sf v \<longleftrightarrow>
     0 \<le> v \<and> v \<le> 65534 \<and> v * pct_denominator lim rating pct_sf \<le> pct_numerator lim rating pct_sf \<and>
     (case pct of None \<Rightarrow> True | Some x \<Rightarrow> v \<le> sv_value (rescale_u16 x pct_sf))"

lemma stricter_respects_limits:
  assumes "0 < rtg" "rtg \<le> u16_max" "0 \<le> sv_value lim" "sv_value lim \<le> u32_max"
    and "\<And>x. pct = Some x \<Longrightarrow> 0 \<le> sv_value x \<and> sv_value x \<le> u16_max"
    and "r = None \<or> r = Some (new_sv rtg w_sf)" "s = None \<or> s = Some pct_sf"
    and "derived_pct (Some lim) r s = Some y"
    and "stricter_pct (explicit_pct pct s) (derived_pct (Some lim) r s) = Some x"
  shows "respects_limits lim pct (new_sv rtg w_sf) pct_sf (sv_value (rescale_u16 x pct_sf))"
proof -
  let ?rating = "new_sv rtg w_sf"
  have y: "to_w_max_lim_pct_from_w_max_lim lim ?rating pct_sf = Some y" and s: "s = Some pct_sf"
    using assms(6-8) by (auto elim!: derived_pct_Some)
  have largest: "sv_value y * pct_denominator lim ?rating pct_sf \<le> pct_numerator lim ?rating pct_sf"
      "0 \<le> sv_value y" "sv_value y \<le> 65534" "sv_sf y = pct_sf"
    using w_max_lim_pct_largest [of ?rating lim pct_sf y] assms(1-4) y by simp_all
  note stricter = stricter_pct_cases [OF assms(9,8)]
  have e: "sv_sf z = pct_sf \<and> 0 \<le> sv_value z" if "explicit_pct pct s = Some z" for z
    using that s assms(5) u16.rescale_in_range by (auto simp: rescale_u16_def elim!: explicit_pct_Some)
  have x: "sv_sf x = pct_sf" "0 \<le> sv_value x" using stricter(2) e largest by auto
  have "sv_value x * pct_denominator lim ?rating pct_sf \<le> sv_value y * pct_denominator lim ?rating pct_sf"
    using stricter(1) pct_denominator_pos [of ?rating lim pct_sf] assms(1) by (intro mult_right_mono) simp_all
  moreover have "case pct of None \<Rightarrow> True | Some w \<Rightarrow> sv_value x \<le> sv_value (rescale_u16 w pct_sf)"
    using stricter(3) s by (auto split: option.split)
  ultimately show ?thesis
    using largest stricter(1) x by (simp add: respects_limits_def rescale_u16_same)
qed

section \<open>Properties\<close>

text \<open>
  C7: a limit in watts waits for the capacity. While the rating of the device is unknown, neither
  applying new parameters nor a retry writes any register of the export limit when one is to be
  derived, nor any register of the set point when it stands for an import limit; what protects the
  grid is left as it is. When the writes succeed the derivation is reported as deferred, so that
  the task tries again.
\<close>

theorem limits_wait_for_capacity:
  assumes "capacity_unknown d"
    and "m = send_model704_parameters d p \<or> m = send_model704_pending_limit_derivations d p True"
    and "export = (p_w_max_lim p \<noteq> None)"
    and "import = (p_w_set_is_import_site_limit p \<and> p_w_set p \<noteq> None \<and> p_w_set_pct p = None)"
  shows "(export \<longrightarrow> filter (writes_704 limit_points) (communicated m tr) = []) \<and>
    (import \<longrightarrow> filter (writes_704 set_points) (communicated m tr) = []) \<and>
    (m tr = (Inr st, tr') \<and> dv_supported d 704 \<and> (export \<or> import) \<longrightarrow> deferred st)"
proof -
  let ?Q = "\<lambda>rtg. \<forall>r. rtg = Some r \<longrightarrow> sv_value r = 0"
  note rtg = read_w_max_rtg_unknown [OF assms(1)]
  have lim: "emits (\<lambda>op. \<not> writes_704 limit_points op) m" if "export"
    using that assms(2,3) send_w_max_lim_unknown(1)
    by (auto intro!: emits_704 emits_pending [OF _ rtg] emits_send_w_set
        emits_mono [OF send_w_max_lim_unknown(1)] simp: limit_points_def set_points_def)
  have set_: "emits (\<lambda>op. \<not> writes_704 set_points op) m" if "import"
    using that assms(2,4)
    by (auto intro!: emits_704 emits_pending [OF _ rtg] emits_send_w_max_lim
        emits_mono [OF send_w_set_unknown(2)] simp: limit_points_def set_points_def)
  have pending: "returns deferred (send_model704_pending_limit_derivations d p retry)"
    if "dv_supported d 704" "export \<or> import" for retry
  proof -
    have 1: "returns (\<lambda>l. export \<longrightarrow> l) (send_w_max_lim d p retry rtg)" if "?Q rtg" for rtg
      using send_w_max_lim_unknown(2) [OF that] assms(3) by (cases export) (simp_all add: returns_any)
    have 2: "returns (\<lambda>l. import \<longrightarrow> l) (send_w_set d p retry rtg)" if "?Q rtg" for rtg
      using send_w_set_unknown(1) [OF that] assms(4) by (cases import) (simp_all add: returns_any)
    show ?thesis
      unfolding send_model704_pending_limit_derivations_def using that
      by (auto intro!: returns_bind [OF rtg] returns_bind [OF 1] returns_bind [OF 2] returns_return)
  qed
  have "returns deferred m" if "dv_supported d 704" "export \<or> import"
    using assms(2) pending [OF that] that(1)
    by (auto simp: send_model704_parameters_def intro: returns_then)
  then have "m tr = (Inr st, tr') \<and> dv_supported d 704 \<and> (export \<or> import) \<longrightarrow> deferred st"
    unfolding returns_def by metis
  then show ?thesis
    using lim set_ by (simp add: filter_empty_conv) (metis emits_communicated)
qed

lemma w_max_lim_ena_derived:
  "p_w_max_lim_pct_ena p = Some (if p_w_max_lim_pct p = None then Disabled else Enabled) \<Longrightarrow>
     p_w_max_lim p \<noteq> None \<Longrightarrow> w_max_lim_ena p (Some x) = Some Enabled"
  by (simp add: w_max_lim_ena_def Let_def)

text \<open>The operations on the limit, once the rating is known.\<close>

definition limit_applied :: "parameters \<Rightarrow> scaled_value \<Rightarrow> int \<Rightarrow> op list \<Rightarrow> bool" where
  "limit_applied p rating pct_sf ops \<longleftrightarrow>
     (\<exists>v. filter (writes_704 limit_points) ops =
        [WritePoint (Pt 704 ''W_MAX_LIM_PCT_ENA'') (WEna Enabled),
         WritePoint (Pt 704 ''W_MAX_LIM_PCT'') (WInt v)] \<and>
      respects_limits (the (p_w_max_lim p)) (p_w_max_lim_pct p) rating pct_sf v)"

lemma send_w_max_lim_applied:
  assumes "device_rating d rtg w_sf pct_sf" "0 < rtg" "rtg \<le> u16_max"
    and "p_w_max_lim p = Some lim" "0 \<le> sv_value lim" "sv_value lim \<le> u32_max"
    and "\<And>x. p_w_max_lim_pct p = Some x \<Longrightarrow> 0 \<le> sv_value x \<and> sv_value x \<le> u16_max"
    and "p_w_max_lim_pct_ena p = Some (if p_w_max_lim_pct p = None then Disabled else Enabled)"
  shows "ends (\<lambda>pending ops. \<not> pending \<and> limit_applied p (new_sv rtg w_sf) pct_sf ops)
    (send_w_max_lim d p retry (Some (new_sv rtg w_sf)))"
proof -
  let ?r = "new_sv rtg w_sf" and ?reads = "\<lambda>ops. filter (writes_704 limit_points) ops = []"
  obtain y where y: "derived_pct (Some lim) (Some ?r) (Some pct_sf) = Some y"
    using to_w_max_lim_pct_value [of ?r lim pct_sf] assms(2,3,5,6) by simp
  let ?pct = "stricter_pct (explicit_pct (p_w_max_lim_pct p) (Some pct_sf)) (Some y)"
  have "?pct \<noteq> None" by (cases "explicit_pct (p_w_max_lim_pct p) (Some pct_sf)") simp_all
  then obtain x where x: "?pct = Some x" by blast
  then have safe: "respects_limits lim (p_w_max_lim_pct p) ?r pct_sf (sv_value (rescale_u16 x pct_sf))"
    using stricter_respects_limits [OF assms(2,3,5,6,7), where r = "Some ?r" and s = "Some pct_sf"] y
    by simp
  have read: "ends (\<lambda>sf ops. ?reads ops \<and> sf = Some pct_sf)
      (read_sf_if d True (Pt 704 ''W_MAX_LIM_PCT_SF''))"
    unfolding read_sf_if_def using assms(1)
    by (auto intro!: ends_read_opt ends_return simp: device_rating_def)
  have ena: "w_max_lim_ena p (Some x) = Some Enabled"
    using assms(4,8) by (intro w_max_lim_ena_derived) simp_all
  have writes: "ends (\<lambda>pending ops'. \<not> pending \<and> limit_applied p ?r pct_sf (ops @ ops'))
      (io_then (write_point d (Pt 704 ''W_MAX_LIM_PCT_ENA'') (WEna Enabled))
        (io_then (write_point d (Pt 704 ''W_MAX_LIM_PCT'') (WInt (sv_value (rescale_u16 x pct_sf))))
          (io_return False)))" if "?reads ops" for ops
    using that safe assms(4)
    by (intro ends_then [OF ends_write_point [where R = "\<lambda>_ ops. ops = [q]" for q], OF refl] ends_return)
      (simp add: limit_applied_def limit_points_def)
  show ?thesis
    unfolding send_w_max_lim_def Let_def
    using assms(4) read
    by (auto intro!: ends_bind [OF read] writes
        simp: y x ena write_if_some_def write_rescaled_if_some_def
        simp del: derived_pct.simps)
qed

lemma read_w_max_rtg_known:
  assumes "device_rating d rtg w_sf pct_sf" "dv_supported d 702" "p_w_max_lim p \<noteq> None"
  shows "returns (\<lambda>r. r = Some (new_sv rtg w_sf)) (read_w_max_rtg d p)"
  unfolding read_w_max_rtg_def using assms
  by (intro returns_if returns_bind_read_opt returns_option returns_return)
    (auto simp: device_rating_def needs_w_max_rtg_def)

lemma export_limit_reaches_device:
  assumes "device_rating d rtg w_sf pct_sf" "0 < rtg" "rtg \<le> u16_max"
    and "dv_supported d 702" "dv_supported d 704"
    and "p_w_max_lim p = Some lim" "0 \<le> sv_value lim" "sv_value lim \<le> u32_max"
    and "\<And>x. p_w_max_lim_pct p = Some x \<Longrightarrow> 0 \<le> sv_value x \<and> sv_value x \<le> u16_max"
    and "p_w_max_lim_pct_ena p = Some (if p_w_max_lim_pct p = None then Disabled else Enabled)"
    and "m = send_model704_parameters d p \<or> m = send_model704_pending_limit_derivations d p True"
    and "m tr = (Inr st, tr')"
  shows "limit_applied p (new_sv rtg w_sf) pct_sf (communicated m tr) \<and>
    (p_w_set p = None \<or> p_w_set_pct p \<noteq> None \<longrightarrow> \<not> deferred st)"
proof -
  let ?applied = "limit_applied p (new_sv rtg w_sf) pct_sf" and ?no_set = "p_w_set p = None \<or> p_w_set_pct p \<noteq> None"
  have rtg: "ends (\<lambda>r ops. filter (writes_704 limit_points) ops = [] \<and> r = Some (new_sv rtg w_sf))
      (read_w_max_rtg d p)"
    using assms(1,4,6)
    by (intro ends_conj_returns ends_quiet emits_read_w_max_rtg read_w_max_rtg_known) simp_all
  have set_: "ends (\<lambda>pending ops. filter (writes_704 limit_points) ops = [] \<and> (?no_set \<longrightarrow> \<not> pending))
      (send_w_set d p retry r)" for retry r
    by (intro ends_conj_returns ends_quiet emits_send_w_set send_w_set_nothing_pending)
      (auto simp: limit_points_def set_points_def)
  have others: "ends (\<lambda>_ ops. filter (writes_704 limit_points) ops = [])
      (io_then (send_model704_power_factors d p) (send_model704_fixed_var d p))"
    by (intro ends_quiet emits_704_others) (auto simp: limit_points_def set_points_def)
  note lim = send_w_max_lim_applied [OF assms(1-3,6-10)]
  have extend: "?applied (ops @ ops' @ ops'')"
    if "?applied ops'" "filter (writes_704 limit_points) ops = []" "filter (writes_704 limit_points) ops'' = []"
    for ops ops' ops'' using that by (simp add: limit_applied_def)
  have pending: "ends (\<lambda>st ops. ?applied ops \<and> (?no_set \<longrightarrow> \<not> deferred st))
      (send_model704_pending_limit_derivations d p retry)" for retry
    unfolding send_model704_pending_limit_derivations_def
    using assms(5) extend
    by (auto intro!: ends_bind [OF rtg] ends_bind [OF lim] ends_bind [OF set_] ends_return)
  have "ends (\<lambda>st ops. ?applied ops \<and> (?no_set \<longrightarrow> \<not> deferred st)) (send_model704_parameters d p)"
    unfolding send_model704_parameters_def
    using assms(5) extend [where ops'' = "[]"]
    by (auto intro!: ends_then [OF others] ends_weaken [OF pending])
  then have "ends (\<lambda>st ops. ?applied ops \<and> (?no_set \<longrightarrow> \<not> deferred st)) m"
    using assms(11) pending by blast
  from ends_communicated [OF this assms(12)] show ?thesis .
qed

text \<open>
  C6: once the rating is known, an export limit reaches the device. Whenever applying new
  parameters, or a retry, succeeds, exactly two writes concern the limit, in this order: the limit
  is enabled and its percentage set, and that percentage neither allows more power than the limit
  in watts nor exceeds an explicit percentage. Nothing is left to be retried, unless a set point in
  watts also has to be derived.
\<close>

theorem export_limit_applied:
  assumes "device_rating d rtg w_sf pct_sf" "0 < rtg" "rtg \<le> u16_max"
    and "dv_supported d 702" "dv_supported d 704"
    and "p_w_max_lim p = Some lim" "0 \<le> sv_value lim" "sv_value lim \<le> u32_max"
    and "\<And>x. p_w_max_lim_pct p = Some x \<Longrightarrow> 0 \<le> sv_value x \<and> sv_value x \<le> u16_max"
    and "p_w_max_lim_pct_ena p = Some (if p_w_max_lim_pct p = None then Disabled else Enabled)"
    and "m = send_model704_parameters d p \<or> m = send_model704_pending_limit_derivations d p True"
    and "m tr = (Inr st, tr')"
  shows "limit_applied p (new_sv rtg w_sf) pct_sf (communicated m tr) \<and>
    (p_w_set p = None \<or> p_w_set_pct p \<noteq> None \<longrightarrow> \<not> deferred st)"
  using assms by (rule export_limit_reaches_device)

section \<open>Errors\<close>

lemma stops_703 [stops_intro]: "stops_at_error d (send_model703_parameters d p)"
  unfolding send_model703_parameters_def Let_def
  by (rule stops_if, rule stops_return, rule stops_seq) (auto intro!: stops_intro)

lemma stops_pending [stops_intro]:
  "stops_at_error d (send_model704_pending_limit_derivations d p retry)"
  unfolding send_model704_pending_limit_derivations_def read_w_max_rtg_def send_w_max_lim_def
    send_w_set_def read_sf_if_def Let_def
  by (intro stops_intro)

lemma stops_704 [stops_intro]: "stops_at_error d (send_model704_parameters d p)"
  unfolding send_model704_parameters_def send_model704_power_factors_def send_model704_fixed_var_def Let_def
  by (auto intro!: stops_if stops_return stops_then stops_seq stops_pending stops_writes stops_bind stops_read)

section \<open>Witnesses\<close>

text \<open>A device that accepts everything: models from 701 to 713 at addresses from 40000, a rating
  of 500 at scale 1 if it is known, percentages in tenths and curves of ten points.\<close>

definition example_device :: "bool \<Rightarrow> device" where
  "example_device rated =
    \<lparr> dv_supported = (\<lambda>n. 701 \<le> n \<and> n \<le> 713),
      dv_addr = (\<lambda>n. 40000 + 300 * of_nat (n - 701)),
      dv_len = (\<lambda>_. 20), dv_group_len = (\<lambda>_. 4), dv_group_offset = (\<lambda>_ n. if n = ''TMS'' then 1 else 0),
      dv_encode = (\<lambda>_ _ v. [case v of WInt x \<Rightarrow> word_of_int x | _ \<Rightarrow> 1]),
      dv_read_opt = (\<lambda>_ p. Some (if p = Pt 702 ''W_MAX_RTG'' then (if rated then Some 500 else None)
        else if p = Pt 702 ''W_SF'' then Some 1 else Some (- 1))),
      dv_read = (\<lambda>_ p. Some (if p \<in> {Pt 707 ''N_PT'', Pt 705 ''N_PT''} then 10 else 2)),
      dv_accepts = (\<lambda>_ _. True),
      dv_701 = (\<lambda>_. None), dv_702 = (\<lambda>_. None), dv_703 = (\<lambda>_. None), dv_713 = (\<lambda>_. None),
      dv_model1 = (\<lambda>_. True) \<rparr>"

lemma example_device_ok: "op_ok (example_device rated) tr op"
  by (cases op) (simp_all add: example_device_def)

definition example_limit :: parameters where
  "example_limit = default_parameters\<lparr>p_w_max_lim_pct_ena := Some Disabled, p_w_max_lim := Some (new_sv 1500 0)\<rparr>"

theorem limits_wait_for_capacity_witness:
  "\<exists>st tr'. send_model704_parameters (example_device False) example_limit [] = (Inr st, tr') \<and> deferred st \<and>
     filter (writes_704 limit_points)
       (communicated (send_model704_parameters (example_device False) example_limit) []) = []"
proof -
  obtain st tr' where "send_model704_parameters (example_device False) example_limit [] = (Inr st, tr')"
    using stops_succeeds [OF stops_704 example_device_ok] by blast
  then show ?thesis
    using limits_wait_for_capacity [of "example_device False" "send_model704_parameters (example_device False) example_limit"
        example_limit True False "[]" st tr']
    by (simp add: capacity_unknown_def example_device_def example_limit_def default_parameters_def)
qed

theorem export_limit_applied_witness:
  "limit_applied example_limit (new_sv 500 1) (- 1)
     (communicated (send_model704_parameters (example_device True) example_limit) [])"
proof -
  obtain st tr' where "send_model704_parameters (example_device True) example_limit [] = (Inr st, tr')"
    using stops_succeeds [OF stops_704 example_device_ok] by blast
  then show ?thesis
    using export_limit_applied [of "example_device True" 500 1 "- 1" example_limit "new_sv 1500 0"
        "send_model704_parameters (example_device True) example_limit" "[]" st tr']
    by (simp add: device_rating_def example_device_def example_limit_def default_parameters_def int_bounds
        sf_or_default_def)
qed

end
