(* ===== verification/Modbus_Curves.thy ===== *)
theory Modbus_Curves
  imports Modbus_Writes
begin

text \<open>
  \<^verbatim>\<open>src/modbus_connection.rs\<close>: the writes to the curve models of SunSpec, 705 and 706
  (volt-var and volt-watt), 707 to 710 (trip curves) and 711 (frequency droop), and the whole
  \<^verbatim>\<open>send_new_parameters\<close>. The traits \<^verbatim>\<open>TripCurveModel\<close> and \<^verbatim>\<open>VoltCurveModel\<close> are records of
  their associated constants, their provided functions definitions over such a record, and their
  implementations values of it. Register addresses are 16 bit words and wrap as in the code; the
  lengths of models and groups belong to the package \<^verbatim>\<open>sunspec\<close>, hence to the device.
\<close>

definition TARGET_CURVE_SET :: int where "TARGET_CURVE_SET = 2"
definition TARGET_CURVE :: int where "TARGET_CURVE = 2"

section \<open>Volt curves\<close>

record volt_curve_model =
  vm_id :: nat
  vm_crv :: string
  vm_pt :: string
  vm_x_sf :: string
  vm_y_sf :: string
  vm_x_pt :: string
  vm_y_pt :: string

definition model705 :: volt_curve_model where
  "model705 = \<lparr>vm_id = 705, vm_crv = ''model705::Crv'', vm_pt = ''model705::Pt'',
     vm_x_sf = ''V_SF'', vm_y_sf = ''DEPT_REF_SF'', vm_x_pt = ''V'', vm_y_pt = ''VAR''\<rparr>"

definition model706 :: volt_curve_model where
  "model706 = \<lparr>vm_id = 706, vm_crv = ''model706::Crv'', vm_pt = ''model706::Pt'',
     vm_x_sf = ''V_SF'', vm_y_sf = ''DEPT_REF_SF'', vm_x_pt = ''V'', vm_y_pt = ''W''\<rparr>"

definition volt_curve_len :: "device \<Rightarrow> volt_curve_model \<Rightarrow> 16 word \<Rightarrow> 16 word" where
  "volt_curve_len d m n_pt = dv_group_len d (vm_crv m) + dv_group_len d (vm_pt m) * n_pt"

definition volt_curve_offset :: "device \<Rightarrow> volt_curve_model \<Rightarrow> 16 word \<Rightarrow> 16 word \<Rightarrow> 16 word" where
  "volt_curve_offset d m curve_index n_pt =
    dv_len d (vm_id m) + volt_curve_len d m n_pt * (curve_index - 1)"

definition data_point_offset :: "device \<Rightarrow> volt_curve_model \<Rightarrow> 16 word \<Rightarrow> 16 word \<Rightarrow> 16 word" where
  "data_point_offset d m curve_addr data_point_index =
    curve_addr + dv_group_len d (vm_crv m) + dv_group_len d (vm_pt m) * data_point_index"

text \<open>The points of a curve, written one after the other.\<close>

definition write_volt_points ::
  "device \<Rightarrow> volt_curve_model \<Rightarrow> 16 word \<Rightarrow> int \<Rightarrow> int \<Rightarrow> curve \<Rightarrow> unit io" where
  "write_volt_points d m curve_addr x_sf y_sf curve_data =
    io_seq (concat (map (\<lambda>(i, x, y).
      [write_offset_point d (data_point_offset d m curve_addr (of_nat i)) (vm_pt m) (vm_x_pt m)
         (WInt (sv_value (rescale_u16 x x_sf))),
       write_offset_point d (data_point_offset d m curve_addr (of_nat i)) (vm_pt m) (vm_y_pt m)
         (WInt (sv_value (rescale_i16 y y_sf)))]) (enumerate 0 (iter_scaled curve_data))))"

definition write_volt_curve :: "device \<Rightarrow> volt_curve_model \<Rightarrow> curve \<Rightarrow> 16 word option io" where
  "write_volt_curve d m curve_data =
    io_bind (read_req d (Pt (vm_id m) ''N_CRV'')) (\<lambda>n_curves.
    io_bind (read_req d (Pt (vm_id m) ''N_PT'')) (\<lambda>n_pt.
      if n_curves < TARGET_CURVE then io_return None
      else if curve_length curve_data > word_of_int n_pt then io_return None
      else
        io_bind (read_req d (Pt (vm_id m) (vm_x_sf m))) (\<lambda>x_sf.
        io_bind (read_req d (Pt (vm_id m) (vm_y_sf m))) (\<lambda>y_sf.
        let curve_addr = dv_addr d (vm_id m) +
              volt_curve_offset d m (word_of_int TARGET_CURVE) (word_of_int n_pt)
        in io_then
          (write_offset_point d curve_addr (vm_crv m) ''ACT_PT'' (WInt (uint (curve_length curve_data))))
          (io_then (write_volt_points d m curve_addr x_sf y_sf curve_data)
            (io_return (Some curve_addr)))))))"

definition write_ena :: "device \<Rightarrow> nat \<Rightarrow> bool \<Rightarrow> unit io" where
  "write_ena d n wrote_curve =
    write_point d (Pt n ''ENA'') (WEna (if wrote_curve then Enabled else Disabled))"

definition send_model705_parameters :: "device \<Rightarrow> parameters \<Rightarrow> unit io" where
  "send_model705_parameters d p =
    (if \<not> dv_supported d 705 then io_return ()
     else io_bind
       (case p_der_volt_var p of
          None \<Rightarrow> io_return False
        | Some der_volt_var \<Rightarrow>
            io_bind (write_volt_curve d model705 der_volt_var) (\<lambda>offset.
              case offset of
                None \<Rightarrow> io_return False
              | Some curve_offset \<Rightarrow>
                  io_bind (read_req d (Pt 705 ''RSP_TMS_SF'')) (\<lambda>tms_sf.
                  io_bind (read_req d (Pt 705 ''V_SF'')) (\<lambda>v_sf.
                  io_then (io_seq
                    [write_offset_if_some d curve_offset ''model705::Crv'' ''RSP_TMS''
                       (map_option (\<lambda>tms. WInt (sv_value (rescale_u32 tms tms_sf))) (p_der_volt_var_tms p)),
                     write_offset_if_some d curve_offset ''model705::Crv'' ''DEPT_REF''
                       (map_option WDept705 (p_der_volt_var_dept_ref p)),
                     write_offset_if_some d curve_offset ''model705::Crv'' ''V_REF''
                       (map_option (\<lambda>vref. WInt (sv_value (rescale_u16 vref v_sf))) (p_vref p)),
                     write_offset_if_some d curve_offset ''model705::Crv'' ''V_REF_AUTO_ENA''
                       (map_option WEna (p_vref_auto_ena p)),
                     write_offset_if_some d curve_offset ''model705::Crv'' ''V_REF_AUTO_TMS''
                       (map_option WInt (p_vref_auto_tms p)),
                     write_point d (Pt 705 ''ADPT_CRV_REQ'') (WInt TARGET_CURVE)])
                   (io_return True)))))
       (write_ena d 705))"

definition send_model706_parameters :: "device \<Rightarrow> parameters \<Rightarrow> unit io" where
  "send_model706_parameters d p =
    (if \<not> dv_supported d 706 then io_return ()
     else io_bind
       (case p_der_volt_watt p of
          None \<Rightarrow> io_return False
        | Some der_volt_watt \<Rightarrow>
            io_bind (write_volt_curve d model706 der_volt_watt) (\<lambda>offset.
              case offset of
                None \<Rightarrow> io_return False
              | Some curve_offset \<Rightarrow>
                  io_then (io_seq
                    [(case p_der_volt_watt_tms p of
                        None \<Rightarrow> io_return ()
                      | Some tms \<Rightarrow>
                          io_bind (read_req d (Pt 706 ''RSP_TMS_SF'')) (\<lambda>tms_sf.
                            write_offset_point d curve_offset ''model706::Crv'' ''RSP_TMS''
                              (WInt (sv_value (rescale_u32 tms tms_sf))))),
                     write_offset_if_some d curve_offset ''model706::Crv'' ''DEPT_REF''
                       (map_option WDept706 (p_der_volt_watt_dept_ref p)),
                     write_point d (Pt 706 ''ADPT_CRV_REQ'') (WInt TARGET_CURVE)])
                   (io_return True)))
       (write_ena d 706))"

section \<open>Trip curves\<close>

datatype trip_curve = MustTrip | MayTrip | MomCess

text \<open>\<open>tm_resc_x\<close> and \<open>tm_resc_y\<close> are the rescalings of the types of the two axes.\<close>

record trip_curve_model =
  tm_id :: nat
  tm_crv :: string
  tm_must_trip :: string
  tm_may_trip :: string
  tm_mom_cess :: string
  tm_pt :: string
  tm_x_sf :: string
  tm_y_sf :: string
  tm_x_pt :: string
  tm_y_pt :: string
  tm_resc_x :: "scaled_value \<Rightarrow> int \<Rightarrow> scaled_value"
  tm_resc_y :: "scaled_value \<Rightarrow> int \<Rightarrow> scaled_value"

definition model707 :: trip_curve_model where
  "model707 = \<lparr>tm_id = 707, tm_crv = ''model707::Crv'', tm_must_trip = ''model707::MustTrip'',
     tm_may_trip = ''model707::MayTrip'', tm_mom_cess = ''model707::MomCess'', tm_pt = ''model707::Pt'',
     tm_x_sf = ''V_SF'', tm_y_sf = ''TMS_SF'', tm_x_pt = ''V'', tm_y_pt = ''TMS'',
     tm_resc_x = rescale_u16, tm_resc_y = rescale_u32\<rparr>"

definition model708 :: trip_curve_model where
  "model708 = \<lparr>tm_id = 708, tm_crv = ''model708::Crv'', tm_must_trip = ''model708::MustTrip'',
     tm_may_trip = ''model708::MayTrip'', tm_mom_cess = ''model708::MomCess'', tm_pt = ''model708::Pt'',
     tm_x_sf = ''V_SF'', tm_y_sf = ''TMS_SF'', tm_x_pt = ''V'', tm_y_pt = ''TMS'',
     tm_resc_x = rescale_u16, tm_resc_y = rescale_u32\<rparr>"

definition model709 :: trip_curve_model where
  "model709 = \<lparr>tm_id = 709, tm_crv = ''model709::Crv'', tm_must_trip = ''model709::MustTrip'',
     tm_may_trip = ''model709::MayTrip'', tm_mom_cess = ''model709::MomCess'', tm_pt = ''model709::Pt'',
     tm_x_sf = ''HZ_SF'', tm_y_sf = ''TMS_SF'', tm_x_pt = ''HZ'', tm_y_pt = ''TMS'',
     tm_resc_x = rescale_u32, tm_resc_y = rescale_u32\<rparr>"

definition model710 :: trip_curve_model where
  "model710 = \<lparr>tm_id = 710, tm_crv = ''model710::Crv'', tm_must_trip = ''model710::MustTrip'',
     tm_may_trip = ''model710::MayTrip'', tm_mom_cess = ''model710::MomCess'', tm_pt = ''model710::Pt'',
     tm_x_sf = ''HZ_SF'', tm_y_sf = ''TMS_SF'', tm_x_pt = ''HZ'', tm_y_pt = ''TMS'',
     tm_resc_x = rescale_u32, tm_resc_y = rescale_u32\<rparr>"

fun curve_static_len :: "device \<Rightarrow> trip_curve_model \<Rightarrow> trip_curve \<Rightarrow> 16 word" where
  "curve_static_len d m MustTrip = dv_group_len d (tm_must_trip m)"
| "curve_static_len d m MayTrip = dv_group_len d (tm_may_trip m)"
| "curve_static_len d m MomCess = dv_group_len d (tm_mom_cess m)"

definition curve_len :: "device \<Rightarrow> trip_curve_model \<Rightarrow> trip_curve \<Rightarrow> 16 word \<Rightarrow> 16 word" where
  "curve_len d m c n_pt = curve_static_len d m c + dv_group_len d (tm_pt m) * n_pt"

definition curve_set_len :: "device \<Rightarrow> trip_curve_model \<Rightarrow> 16 word \<Rightarrow> 16 word" where
  "curve_set_len d m n_pt =
    dv_group_len d (tm_crv m) + curve_len d m MustTrip n_pt + curve_len d m MayTrip n_pt +
      curve_len d m MomCess n_pt"

definition curve_offset :: "device \<Rightarrow> trip_curve_model \<Rightarrow> trip_curve \<Rightarrow> 16 word \<Rightarrow> 16 word \<Rightarrow> 16 word" where
  "curve_offset d m c curve_set_index n_pt =
    (let curve_set_offset = dv_len d (tm_id m) + curve_set_len d m n_pt * (curve_set_index - 1);
         additional_offset =
           (case c of
              MustTrip \<Rightarrow> dv_group_len d (tm_crv m)
            | MayTrip \<Rightarrow> dv_group_len d (tm_crv m) + curve_len d m MustTrip n_pt
            | MomCess \<Rightarrow> dv_group_len d (tm_crv m) + curve_len d m MustTrip n_pt +
                curve_len d m MayTrip n_pt)
     in curve_set_offset + additional_offset)"

definition write_trip_points ::
  "device \<Rightarrow> trip_curve_model \<Rightarrow> trip_curve \<Rightarrow> 16 word \<Rightarrow> int \<Rightarrow> int \<Rightarrow> curve \<Rightarrow> unit io" where
  "write_trip_points d m c curve_addr x_sf y_sf curve_data =
    io_seq (concat (map (\<lambda>(i, x, y).
      (let point_addr = curve_addr + curve_static_len d m c + dv_group_len d (tm_pt m) * of_nat i
       in [write_offset_point d point_addr (tm_pt m) (tm_x_pt m) (WInt (sv_value (tm_resc_x m x x_sf))),
           write_offset_point d point_addr (tm_pt m) (tm_y_pt m) (WInt (sv_value (tm_resc_y m y y_sf)))]))
      (enumerate 0 (iter_scaled curve_data))))"

definition write_trip_curve ::
  "device \<Rightarrow> trip_curve_model \<Rightarrow> trip_curve \<Rightarrow> curve \<Rightarrow> 16 word \<Rightarrow> int \<Rightarrow> int \<Rightarrow> bool io" where
  "write_trip_curve d m c curve_data n_pt x_sf y_sf =
    (if curve_length curve_data > n_pt then io_return False
     else
       (let curve_addr = dv_addr d (tm_id m) + curve_offset d m c (word_of_int TARGET_CURVE_SET) n_pt
        in io_then
          (write_offset_point d curve_addr (tm_must_trip m) ''ACT_PT''
            (WInt (uint (curve_length curve_data))))
          (io_then (write_trip_points d m c curve_addr x_sf y_sf curve_data) (io_return True))))"

definition write_trip_if_some ::
  "device \<Rightarrow> trip_curve_model \<Rightarrow> trip_curve \<Rightarrow> curve option \<Rightarrow> 16 word \<Rightarrow> int \<Rightarrow> int \<Rightarrow> bool io" where
  "write_trip_if_some d m c curve_data n_pt x_sf y_sf =
    (case curve_data of
       None \<Rightarrow> io_return False
     | Some data \<Rightarrow> write_trip_curve d m c data n_pt x_sf y_sf)"

definition write_curves ::
  "device \<Rightarrow> trip_curve_model \<Rightarrow> curve option \<Rightarrow> curve option \<Rightarrow> curve option \<Rightarrow> bool io" where
  "write_curves d m must_trip_data may_trip_data mom_cess_data =
    io_bind
      (if must_trip_data = None \<and> may_trip_data = None \<and> mom_cess_data = None then io_return False
       else
         io_bind (read_req d (Pt (tm_id m) ''N_CRV_SET'')) (\<lambda>n_curves.
         io_bind (read_req d (Pt (tm_id m) ''N_PT'')) (\<lambda>n_pt.
           if n_curves < TARGET_CURVE_SET then io_return False
           else
             io_bind (read_req d (Pt (tm_id m) (tm_x_sf m))) (\<lambda>x_sf.
             io_bind (read_req d (Pt (tm_id m) (tm_y_sf m))) (\<lambda>y_sf.
             let write = (\<lambda>c data. write_trip_if_some d m c data (word_of_int n_pt) x_sf y_sf) in
             io_bind (write MustTrip must_trip_data) (\<lambda>wrote_must_trip.
             io_bind (write MayTrip may_trip_data) (\<lambda>wrote_may_trip.
             io_bind (write MomCess mom_cess_data) (\<lambda>wrote_mom_cess.
               io_return (wrote_must_trip \<or> wrote_may_trip \<or> wrote_mom_cess)))))))))
      (\<lambda>wrote_any.
        io_then
          (if wrote_any then write_point d (Pt (tm_id m) ''ADPT_CRV_REQ'') (WInt TARGET_CURVE_SET)
           else io_return ())
          (io_return wrote_any))"

definition send_trip_model ::
  "device \<Rightarrow> trip_curve_model \<Rightarrow> curve option \<Rightarrow> curve option \<Rightarrow> curve option \<Rightarrow> unit io" where
  "send_trip_model d m must_trip_data may_trip_data mom_cess_data =
    (if \<not> dv_supported d (tm_id m) then io_return ()
     else io_bind (write_curves d m must_trip_data may_trip_data mom_cess_data) (write_ena d (tm_id m)))"

definition send_model707_parameters :: "device \<Rightarrow> parameters \<Rightarrow> unit io" where
  "send_model707_parameters d p =
    send_trip_model d model707 (p_der_trip_lv_must p) (p_der_trip_lv_may p) (p_der_trip_lv_mom_cess p)"

definition send_model708_parameters :: "device \<Rightarrow> parameters \<Rightarrow> unit io" where
  "send_model708_parameters d p =
    send_trip_model d model708 (p_der_trip_hv_must p) (p_der_trip_hv_may p) (p_der_trip_hv_mom_cess p)"

definition send_model709_parameters :: "device \<Rightarrow> parameters \<Rightarrow> unit io" where
  "send_model709_parameters d p =
    send_trip_model d model709 (p_der_trip_lf_must p) (p_der_trip_lf_may p) None"

definition send_model710_parameters :: "device \<Rightarrow> parameters \<Rightarrow> unit io" where
  "send_model710_parameters d p =
    send_trip_model d model710 (p_der_trip_hf_must p) (p_der_trip_hf_may p) None"

section \<open>Frequency droop\<close>

definition droop_offset :: "device \<Rightarrow> 16 word" where
  "droop_offset d = dv_addr d 711 + dv_len d 711 + dv_group_len d ''model711::Ctl''"

definition send_model711_parameters :: "device \<Rightarrow> parameters \<Rightarrow> unit io" where
  "send_model711_parameters d p =
    (if \<not> dv_supported d 711 then io_return ()
     else io_bind
       (case p_droop_ctl p of
          None \<Rightarrow> io_return False
        | Some ctl \<Rightarrow>
            io_bind (read_req d (Pt 711 ''N_CTL'')) (\<lambda>n_ctl.
              if 2 \<le> n_ctl then
                io_bind (read_req d (Pt 711 ''DB_SF'')) (\<lambda>db_sf.
                io_bind (read_req d (Pt 711 ''K_SF'')) (\<lambda>k_sf.
                io_bind (read_req d (Pt 711 ''RSP_TMS_SF'')) (\<lambda>rsp_tms_sf.
                let write = (\<lambda>n x. write_offset_point d (droop_offset d) ''model711::Ctl'' n (WInt (sv_value x)))
                in io_then (io_seq
                  [write ''DB_OF'' (rescale_u32 (db_of ctl) db_sf),
                   write ''DB_UF'' (rescale_u32 (db_uf ctl) db_sf),
                   write ''K_OF'' (rescale_u16 (k_of ctl) k_sf),
                   write ''K_UF'' (rescale_u16 (k_uf ctl) k_sf),
                   write ''RSP_TMS'' (rescale_u32 (rsp_tms ctl) rsp_tms_sf),
                   write_point d (Pt 711 ''ADPT_CTL_REQ'') (WInt 2)])
                 (io_return True))))
              else io_return False))
       (write_ena d 711))"

section \<open>All models\<close>

definition send_new_parameters :: "device \<Rightarrow> parameters \<Rightarrow> apply_status io" where
  "send_new_parameters d p =
    io_then (send_model703_parameters d p)
      (io_bind (send_model704_parameters d p) (\<lambda>model704_status.
        io_then (io_seq
          [send_model705_parameters d p, send_model706_parameters d p,
           send_model707_parameters d p, send_model708_parameters d p,
           send_model709_parameters d p, send_model710_parameters d p,
           send_model711_parameters d p])
         (io_return \<lparr>deferred = deferred model704_status\<rparr>)))"

section \<open>Register layout of the trip curves\<close>

text \<open>
  The layout in natural numbers, where nothing wraps: the start of curve set 2 and of its three
  curves. The words of the code are the residues of these numbers.
\<close>

definition trip_curve_len :: "device \<Rightarrow> trip_curve_model \<Rightarrow> trip_curve \<Rightarrow> nat \<Rightarrow> nat" where
  "trip_curve_len d m c n = unat (curve_static_len d m c) + unat (dv_group_len d (tm_pt m)) * n"

definition trip_set_len :: "device \<Rightarrow> trip_curve_model \<Rightarrow> nat \<Rightarrow> nat" where
  "trip_set_len d m n = unat (dv_group_len d (tm_crv m)) + trip_curve_len d m MustTrip n +
     trip_curve_len d m MayTrip n + trip_curve_len d m MomCess n"

definition second_set_start :: "device \<Rightarrow> trip_curve_model \<Rightarrow> nat \<Rightarrow> nat" where
  "second_set_start d m n =
     unat (dv_addr d (tm_id m)) + unat (dv_len d (tm_id m)) + trip_set_len d m n"

fun trip_curve_start :: "device \<Rightarrow> trip_curve_model \<Rightarrow> nat \<Rightarrow> trip_curve \<Rightarrow> nat" where
  "trip_curve_start d m n MustTrip = second_set_start d m n + unat (dv_group_len d (tm_crv m))"
| "trip_curve_start d m n MayTrip = second_set_start d m n + unat (dv_group_len d (tm_crv m)) +
     trip_curve_len d m MustTrip n"
| "trip_curve_start d m n MomCess = second_set_start d m n + unat (dv_group_len d (tm_crv m)) +
     trip_curve_len d m MustTrip n + trip_curve_len d m MayTrip n"

lemma curve_len_of_nat: "curve_len d m c n_pt = of_nat (trip_curve_len d m c (unat n_pt))"
  by (simp add: curve_len_def trip_curve_len_def)

lemma curve_addr_of_nat:
  "dv_addr d (tm_id m) + curve_offset d m c (word_of_int TARGET_CURVE_SET) n_pt =
     of_nat (trip_curve_start d m (unat n_pt) c)"
  by (cases c)
    (simp_all add: curve_offset_def curve_set_len_def curve_len_of_nat TARGET_CURVE_SET_def
      second_set_start_def trip_set_len_def algebra_simps)

text \<open>The register writes of one curve, by natural address.\<close>

definition trip_point_start :: "device \<Rightarrow> trip_curve_model \<Rightarrow> nat \<Rightarrow> trip_curve \<Rightarrow> nat \<Rightarrow> nat" where
  "trip_point_start d m n c i =
     trip_curve_start d m n c + unat (curve_static_len d m c) + unat (dv_group_len d (tm_pt m)) * i"

definition point_write :: "device \<Rightarrow> nat \<Rightarrow> string \<Rightarrow> string \<Rightarrow> int \<Rightarrow> nat \<times> 16 word list" where
  "point_write d start g p v = (start + unat (dv_group_offset d g p), dv_encode d g p (WInt v))"

definition trip_point_writes ::
  "device \<Rightarrow> trip_curve_model \<Rightarrow> nat \<Rightarrow> trip_curve \<Rightarrow> int \<Rightarrow> int \<Rightarrow> nat \<times> scaled_value \<times> scaled_value \<Rightarrow>
     (nat \<times> 16 word list) list" where
  "trip_point_writes d m n c x_sf y_sf = (\<lambda>(i, x, y).
     [point_write d (trip_point_start d m n c i) (tm_pt m) (tm_x_pt m) (sv_value (tm_resc_x m x x_sf)),
      point_write d (trip_point_start d m n c i) (tm_pt m) (tm_y_pt m) (sv_value (tm_resc_y m y y_sf))])"

definition trip_curve_writes ::
  "device \<Rightarrow> trip_curve_model \<Rightarrow> nat \<Rightarrow> trip_curve \<Rightarrow> int \<Rightarrow> int \<Rightarrow> curve \<Rightarrow> (nat \<times> 16 word list) list" where
  "trip_curve_writes d m n c x_sf y_sf data =
     point_write d (trip_curve_start d m n c) (tm_must_trip m) ''ACT_PT'' (uint (curve_length data)) #
     concat (map (trip_point_writes d m n c x_sf y_sf) (enumerate 0 (iter_scaled data)))"

definition as_op :: "nat \<times> 16 word list \<Rightarrow> op" where
  "as_op = (\<lambda>(a, ws). WriteRegisters (of_nat a) ws)"

lemma write_offset_point_as_op:
  "write_offset_point d (of_nat start) g p (WInt v) = write_op d (as_op (point_write d start g p v))"
  by (simp add: write_offset_point_def as_op_def point_write_def)

lemma ends_write_seq:
  "ends (\<lambda>_ ops. ops = map as_op ws) (io_seq (map (\<lambda>w. write_op d (as_op w)) ws))"
proof (induction ws)
  case (Cons w ws)
  show ?case
    by (auto intro!: ends_then [OF ends_write_op [where R = "\<lambda>_ ops. ops = [as_op w]"]]
        ends_weaken [OF Cons.IH])
qed (simp add: ends_return)

lemma write_trip_points_seq:
  "write_trip_points d m c (of_nat (trip_curve_start d m n c)) x_sf y_sf data =
     io_seq (map (\<lambda>w. write_op d (as_op w))
       (concat (map (trip_point_writes d m n c x_sf y_sf) (enumerate 0 (iter_scaled data)))))"
proof -
  have "of_nat (trip_curve_start d m n c) + curve_static_len d m c + dv_group_len d (tm_pt m) * of_nat i =
      of_nat (trip_point_start d m n c i)" for i
    by (simp add: trip_point_start_def)
  then show ?thesis
    by (simp add: write_trip_points_def Let_def write_offset_point_as_op trip_point_writes_def
        map_concat split_def comp_def)
qed

text \<open>What a curve writes, and whether it is written.\<close>

definition fits :: "nat \<Rightarrow> curve option \<Rightarrow> bool" where
  "fits n data \<longleftrightarrow> (case data of None \<Rightarrow> False | Some k \<Rightarrow> unat (curve_length k) \<le> n)"

definition written ::
  "device \<Rightarrow> trip_curve_model \<Rightarrow> nat \<Rightarrow> trip_curve \<Rightarrow> int \<Rightarrow> int \<Rightarrow> curve option \<Rightarrow> (nat \<times> 16 word list) list" where
  "written d m n c x_sf y_sf data =
     (if fits n data then trip_curve_writes d m n c x_sf y_sf (the data) else [])"

lemma ends_write_trip:
  "ends (\<lambda>r ops. r = fits (unat n_pt) data \<and> ops = map as_op (written d m (unat n_pt) c x_sf y_sf data))
    (write_trip_if_some d m c data n_pt x_sf y_sf)"
proof (cases "fits (unat n_pt) data")
  case True
  then obtain k where k: "data = Some k" "\<not> n_pt < curve_length k"
    by (auto simp: fits_def word_less_nat_alt split: option.splits)
  show ?thesis
    using True k
    by (auto simp: write_trip_if_some_def write_trip_curve_def Let_def curve_addr_of_nat
        write_offset_point_as_op write_trip_points_seq written_def trip_curve_writes_def
        intro!: ends_then [OF ends_write_op [where R = "\<lambda>_ ops. ops = [q]" for q], OF refl]
          ends_then [OF ends_write_seq] ends_return)
next
  case False
  then show ?thesis
    by (cases data)
      (auto simp: write_trip_if_some_def write_trip_curve_def fits_def written_def word_less_nat_alt
        intro!: ends_return)
qed

text \<open>The curves of a model together: the communication of \<^verbatim>\<open>write_curves\<close>, exactly.\<close>

definition written_all ::
  "device \<Rightarrow> trip_curve_model \<Rightarrow> nat \<Rightarrow> int \<Rightarrow> int \<Rightarrow> curve option \<Rightarrow> curve option \<Rightarrow> curve option \<Rightarrow>
     (nat \<times> 16 word list) list" where
  "written_all d m n x_sf y_sf must may mom =
     written d m n MustTrip x_sf y_sf must @ written d m n MayTrip x_sf y_sf may @
     written d m n MomCess x_sf y_sf mom"

definition some_fits :: "int \<Rightarrow> nat \<Rightarrow> curve option \<Rightarrow> curve option \<Rightarrow> curve option \<Rightarrow> bool" where
  "some_fits n_sets n must may mom \<longleftrightarrow>
     TARGET_CURVE_SET \<le> n_sets \<and> (fits n must \<or> fits n may \<or> fits n mom)"

text \<open>The device always reports this number of curve sets and of points per curve.\<close>

definition curve_capacity :: "device \<Rightarrow> nat \<Rightarrow> string \<Rightarrow> int \<Rightarrow> nat \<Rightarrow> bool" where
  "curve_capacity d k n_crv n_sets n \<longleftrightarrow>
     (\<forall>tr v. dv_read d tr (Pt k n_crv) = Some v \<longrightarrow> v = n_sets) \<and>
     (\<forall>tr v. dv_read d tr (Pt k ''N_PT'') = Some v \<longrightarrow> v = int n) \<and> n < 2 ^ 16"

text \<open>The device always reports these scale factors for the two axes of a trip model.\<close>

definition trip_scales :: "device \<Rightarrow> trip_curve_model \<Rightarrow> int \<Rightarrow> int \<Rightarrow> bool" where
  "trip_scales d m x_sf y_sf \<longleftrightarrow>
     (\<forall>tr v. dv_read d tr (Pt (tm_id m) (tm_x_sf m)) = Some v \<longrightarrow> v = x_sf) \<and>
     (\<forall>tr v. dv_read d tr (Pt (tm_id m) (tm_y_sf m)) = Some v \<longrightarrow> v = y_sf)"

text \<open>What is read before the curves of a model are written.\<close>

definition trip_reads :: "trip_curve_model \<Rightarrow> int \<Rightarrow> curve option \<Rightarrow> curve option \<Rightarrow> curve option \<Rightarrow> op list" where
  "trip_reads m n_sets must may mom =
    (if must = None \<and> may = None \<and> mom = None then []
     else [ReadValue (Pt (tm_id m) ''N_CRV_SET''), ReadValue (Pt (tm_id m) ''N_PT'')] @
       (if n_sets < TARGET_CURVE_SET then []
        else [ReadValue (Pt (tm_id m) (tm_x_sf m)), ReadValue (Pt (tm_id m) (tm_y_sf m))]))"

fun is_read :: "op \<Rightarrow> bool" where
  "is_read (ReadModel _) \<longleftrightarrow> True"
| "is_read (ReadPoint _) \<longleftrightarrow> True"
| "is_read (ReadValue _) \<longleftrightarrow> True"
| "is_read _ \<longleftrightarrow> False"

lemma trip_reads_read: "list_all is_read (trip_reads m n_sets must may mom)"
  by (simp add: trip_reads_def)

lemma unat_word_of_int_of_nat: "n < 2 ^ 16 \<Longrightarrow> unat (word_of_int (int n) :: 16 word) = n"
  by (simp add: unsigned_of_nat take_bit_nat_eq_self)

text \<open>The three curves of a set, and the request to adopt it after one of them was written.\<close>

lemma ends_write_set:
  assumes "unat n_pt = n" "\<not> n_sets < TARGET_CURVE_SET"
  shows "ends (\<lambda>r ops. r = some_fits n_sets n must may mom \<and>
      ops = map as_op (if r then written_all d m n x_sf y_sf must may mom else []))
    (io_bind (write_trip_if_some d m MustTrip must n_pt x_sf y_sf) (\<lambda>wrote_must_trip.
     io_bind (write_trip_if_some d m MayTrip may n_pt x_sf y_sf) (\<lambda>wrote_may_trip.
     io_bind (write_trip_if_some d m MomCess mom n_pt x_sf y_sf) (\<lambda>wrote_mom_cess.
       io_return (wrote_must_trip \<or> wrote_may_trip \<or> wrote_mom_cess)))))"
  using assms
  by (intro ends_bind [OF ends_write_trip] ends_return conjI)
    (auto simp: some_fits_def written_all_def written_def)

lemma ends_adopt_set:
  "ends (\<lambda>y ops. y = r \<and> ops = (if r then [WritePoint (Pt (tm_id m) ''ADPT_CRV_REQ'') (WInt TARGET_CURVE_SET)] else []))
    (io_then (if r then write_point d (Pt (tm_id m) ''ADPT_CRV_REQ'') (WInt TARGET_CURVE_SET) else io_return ())
      (io_return r))"
  by (cases r) (force intro!: ends_then [OF ends_write_point [where R = "\<lambda>_ ops. ops = [q]" for q], OF refl]
    ends_then [OF ends_return [where R = "\<lambda>_ ops. ops = []"], OF refl] ends_return)+

lemma ends_write_curves:
  assumes "curve_capacity d (tm_id m) ''N_CRV_SET'' n_sets n" "trip_scales d m x_sf y_sf"
  shows "ends (\<lambda>r ops. r = some_fits n_sets n must may mom \<and>
      ops = trip_reads m n_sets must may mom @
        map as_op (if r then written_all d m n x_sf y_sf must may mom else []) @
          (if r then [WritePoint (Pt (tm_id m) ''ADPT_CRV_REQ'') (WInt TARGET_CURVE_SET)] else []))
    (write_curves d m must may mom)"
    (is "ends ?R _")
proof -
  let ?S = "\<lambda>r ops. r = some_fits n_sets n must may mom \<and>
      ops = trip_reads m n_sets must may mom @
        map as_op (if r then written_all d m n x_sf y_sf must may mom else [])"
  have sets: "v = n_sets" if "dv_read d tr (Pt (tm_id m) ''N_CRV_SET'') = Some v" for tr v
    using that assms(1) by (simp add: curve_capacity_def)
  have n_pt: "unat (word_of_int v :: 16 word) = n" if "dv_read d tr (Pt (tm_id m) ''N_PT'') = Some v" for tr v
    using that assms(1) unfolding curve_capacity_def by (metis unat_word_of_int_of_nat)
  have scales: "v = x_sf" if "dv_read d tr (Pt (tm_id m) (tm_x_sf m)) = Some v" for tr v
    using that assms(2) by (simp add: trip_scales_def)
  have scales': "v = y_sf" if "dv_read d tr (Pt (tm_id m) (tm_y_sf m)) = Some v" for tr v
    using that assms(2) by (simp add: trip_scales_def)
  have inner: "ends ?S
    (if must = None \<and> may = None \<and> mom = None then io_return False
     else
       io_bind (read_req d (Pt (tm_id m) ''N_CRV_SET'')) (\<lambda>n_curves.
       io_bind (read_req d (Pt (tm_id m) ''N_PT'')) (\<lambda>n_pt.
         if n_curves < TARGET_CURVE_SET then io_return False
         else
           io_bind (read_req d (Pt (tm_id m) (tm_x_sf m))) (\<lambda>x_sf.
           io_bind (read_req d (Pt (tm_id m) (tm_y_sf m))) (\<lambda>y_sf.
           let write = (\<lambda>c data. write_trip_if_some d m c data (word_of_int n_pt) x_sf y_sf) in
           io_bind (write MustTrip must) (\<lambda>wrote_must_trip.
           io_bind (write MayTrip may) (\<lambda>wrote_may_trip.
           io_bind (write MomCess mom) (\<lambda>wrote_mom_cess.
             io_return (wrote_must_trip \<or> wrote_may_trip \<or> wrote_mom_cess)))))))))"
  proof (cases "must = None \<and> may = None \<and> mom = None")
    case True
    then show ?thesis by (auto simp: some_fits_def fits_def trip_reads_def intro!: ends_return)
  next
    case False
    show ?thesis
      unfolding if_not_P [OF False] Let_def
    proof (intro ends_read_req, drule sets, drule n_pt, hypsubst,
        rule_tac P = "n_sets < TARGET_CURVE_SET" in case_split, goal_cases)
      case (1 tr v tra va)
      then show ?case
        using False by (auto simp: some_fits_def trip_reads_def intro!: ends_return)
    next
      case (2 tr v tra va)
      show ?case
        unfolding if_not_P [OF 2(2)]
      proof (intro ends_read_req, goal_cases)
        case (1 trx vx tr2 vy)
        have eqs: "vx = x_sf" "vy = y_sf" using scales [OF 1(1)] scales' [OF 1(2)] by simp_all
        show ?case
          unfolding eqs
          by (rule ends_weaken [OF ends_write_set [OF refl 2(2)]]) (use 2 False in \<open>auto simp: trip_reads_def\<close>)
      qed
    qed
  qed
  show ?thesis
    unfolding write_curves_def
  proof (rule ends_bind [OF inner])
    fix r ops
    assume S: "?S r ops"
    show "ends (\<lambda>y ops'. ?R y (ops @ ops'))
        (io_then (if r then write_point d (Pt (tm_id m) ''ADPT_CRV_REQ'') (WInt TARGET_CURVE_SET)
           else io_return ()) (io_return r))"
      by (rule ends_weaken [OF ends_adopt_set]) (use S in \<open>cases r; fastforce\<close>)
  qed
qed

section \<open>No write overlaps another\<close>

text \<open>Writes in ascending, disjoint ranges of registers, all between two addresses.\<close>

definition ascending :: "(nat \<times> 16 word list) list \<Rightarrow> bool" where
  "ascending ws = sorted_wrt (\<lambda>(a, vs) (b, us). a + length vs \<le> b) ws"

definition within :: "nat \<Rightarrow> nat \<Rightarrow> (nat \<times> 16 word list) list \<Rightarrow> bool" where
  "within lo hi ws \<longleftrightarrow> (\<forall>(a, vs) \<in> set ws. lo \<le> a \<and> a + length vs \<le> hi)"

definition tidy :: "nat \<Rightarrow> nat \<Rightarrow> (nat \<times> 16 word list) list \<Rightarrow> bool" where
  "tidy lo hi ws \<longleftrightarrow> lo \<le> hi \<and> ascending ws \<and> within lo hi ws"

lemma tidy_Nil [simp]: "tidy lo hi [] \<longleftrightarrow> lo \<le> hi"
  by (simp add: tidy_def ascending_def within_def)

lemma tidy_append: "tidy lo mid xs \<Longrightarrow> tidy mid hi ys \<Longrightarrow> tidy lo hi (xs @ ys)"
  unfolding tidy_def ascending_def within_def
  by (fastforce simp: sorted_wrt_append)

lemma tidy_Cons: "lo \<le> a \<Longrightarrow> a + length vs \<le> mid \<Longrightarrow> tidy mid hi ws \<Longrightarrow> tidy lo hi ((a, vs) # ws)"
  using tidy_append [of lo mid "[(a, vs)]" hi ws]
  by (simp add: tidy_def ascending_def within_def)

lemma tidy_enumerate:
  assumes "\<And>i x. tidy (P i) (P (Suc i)) (f (i, x))"
  shows "tidy (P k) (P (k + length xs)) (concat (map f (enumerate k xs)))"
proof (induction xs arbitrary: k)
  case (Cons x xs)
  then show ?case using tidy_append [OF assms Cons.IH [of "Suc k"]] by simp
qed simp

text \<open>
  What SunSpec says of the layout of a trip model: its groups are contiguous, the active-point
  register lies in the static part of each curve, the two coordinates of a point lie one after the
  other in its group, and the curve sets end within the register space.
\<close>

definition trip_layout_ok :: "device \<Rightarrow> trip_curve_model \<Rightarrow> nat \<Rightarrow> bool" where
  "trip_layout_ok d m n \<longleftrightarrow>
     second_set_start d m n + trip_set_len d m n < 2 ^ 16 \<and> 0 < unat (dv_group_len d (tm_pt m)) \<and>
     (\<forall>c v. unat (dv_group_offset d (tm_must_trip m) ''ACT_PT'') +
        length (dv_encode d (tm_must_trip m) ''ACT_PT'' (WInt v)) \<le> unat (curve_static_len d m c)) \<and>
     (\<forall>v. unat (dv_group_offset d (tm_pt m) (tm_x_pt m)) +
        length (dv_encode d (tm_pt m) (tm_x_pt m) (WInt v)) \<le>
        unat (dv_group_offset d (tm_pt m) (tm_y_pt m))) \<and>
     (\<forall>v. unat (dv_group_offset d (tm_pt m) (tm_y_pt m)) +
        length (dv_encode d (tm_pt m) (tm_y_pt m) (WInt v)) \<le> unat (dv_group_len d (tm_pt m)))"

lemma fits_length:
  assumes "trip_layout_ok d m n" "fits n (Some data)"
  shows "length (cu_points data) \<le> n"
proof -
  have "n \<le> unat (dv_group_len d (tm_pt m)) * n" using assms(1) by (simp add: trip_layout_ok_def)
  also have "\<dots> < 2 ^ 16 - 1"
    using assms(1) by (simp add: trip_layout_ok_def trip_set_len_def trip_curve_len_def second_set_start_def)
  finally have "n < 2 ^ 16 - 1" .
  then show ?thesis
    using assms(2)
    by (auto simp: fits_def curve_length_def u16_max_def unsigned_of_nat take_bit_nat_eq_self split: if_splits)
qed

lemma tidy_trip_curve:
  assumes "trip_layout_ok d m n" "fits n (Some data)"
  shows "tidy (trip_curve_start d m n c) (trip_curve_start d m n c + trip_curve_len d m c n)
    (trip_curve_writes d m n c x_sf y_sf data)"
proof -
  let ?P = "trip_point_start d m n c"
  have points: "tidy (?P i) (?P (Suc i)) (trip_point_writes d m n c x_sf y_sf (i, xy))" for i xy
  proof (cases xy)
    case (Pair x y)
    show ?thesis
      unfolding Pair trip_point_writes_def point_write_def split_conv
    proof (rule tidy_Cons [where mid = "?P i + unat (dv_group_offset d (tm_pt m) (tm_y_pt m))"];
        (rule tidy_Cons [where mid = "?P (Suc i)"])?)
    qed (use assms(1) in \<open>auto simp: trip_layout_ok_def trip_point_start_def add.assoc\<close>)
  qed
  have header: "trip_curve_start d m n c + unat (dv_group_offset d (tm_must_trip m) ''ACT_PT'') +
      length (dv_encode d (tm_must_trip m) ''ACT_PT'' (WInt v)) \<le> ?P 0" for v
    using assms(1) by (simp add: trip_layout_ok_def trip_point_start_def add.assoc)
  have end_: "?P (length (cu_points data)) \<le> trip_curve_start d m n c + trip_curve_len d m c n"
    using fits_length [OF assms] by (simp add: trip_point_start_def trip_curve_len_def)
  have "tidy (?P 0) (trip_curve_start d m n c + trip_curve_len d m c n)
      (concat (map (trip_point_writes d m n c x_sf y_sf) (enumerate 0 (iter_scaled data))) @ [])"
    using tidy_enumerate [of ?P "trip_point_writes d m n c x_sf y_sf" 0 "iter_scaled data", OF points] end_
    by (intro tidy_append) (simp_all add: iter_scaled_def)
  then show ?thesis
    unfolding trip_curve_writes_def point_write_def using header
    by (intro tidy_Cons [where mid = "?P 0"]) simp_all
qed

lemma tidy_written_all:
  assumes "trip_layout_ok d m n"
  shows "tidy (second_set_start d m n) (second_set_start d m n + trip_set_len d m n)
    (written_all d m n x_sf y_sf must may mom)"
proof -
  have one: "tidy (trip_curve_start d m n c) (trip_curve_start d m n c + trip_curve_len d m c n)
      (written d m n c x_sf y_sf data)" for c data
    using tidy_trip_curve [OF assms] by (cases data) (auto simp: written_def fits_def)
  have "tidy (trip_curve_start d m n MustTrip) (trip_curve_start d m n MomCess + trip_curve_len d m MomCess n)
      (written_all d m n x_sf y_sf must may mom)"
    unfolding written_all_def
    using one [of MustTrip must] one [of MayTrip may] one [of MomCess mom]
    by (intro tidy_append [where mid = "trip_curve_start d m n MayTrip"]
        tidy_append [where mid = "trip_curve_start d m n MomCess"]) simp_all
  from tidy_append [where xs = "[]", OF _ this, of "second_set_start d m n"]
  show ?thesis
    by (simp add: trip_set_len_def algebra_simps)
qed

text \<open>
  The registers of the device after a communication. Where the points of a model lie and how they are
  encoded belongs to the device: \<open>at\<close> is the address of a point, \<open>enc\<close> its encoding.
\<close>

definition put_registers :: "nat \<times> 16 word list \<Rightarrow> (nat \<Rightarrow> 16 word) \<Rightarrow> nat \<Rightarrow> 16 word" where
  "put_registers w mem r = (case w of (a, vs) \<Rightarrow> if a \<le> r \<and> r < a + length vs then vs ! (r - a) else mem r)"

lemma put_registers_Pair:
  "put_registers (a, vs) mem r = (if a \<le> r \<and> r < a + length vs then vs ! (r - a) else mem r)"
  by (simp add: put_registers_def)

fun store_op ::
  "(point \<Rightarrow> nat) \<Rightarrow> (point \<Rightarrow> wval \<Rightarrow> 16 word list) \<Rightarrow> op \<Rightarrow> (nat \<Rightarrow> 16 word) \<Rightarrow> nat \<Rightarrow> 16 word" where
  "store_op at enc (WriteRegisters a vs) mem = put_registers (unat a, vs) mem"
| "store_op at enc (WritePoint p v) mem = put_registers (at p, enc p v) mem"
| "store_op at enc (ReadModel n) mem = mem"
| "store_op at enc (ReadPoint p) mem = mem"
| "store_op at enc (ReadValue p) mem = mem"

lemma fold_put_tidy:
  assumes "tidy lo hi ws"
  shows "(\<forall>r. r < lo \<or> hi \<le> r \<longrightarrow> fold put_registers ws mem r = mem r) \<and>
    (\<forall>(a, vs) \<in> set ws. map (fold put_registers ws mem) [a..<a + length vs] = vs)"
  using assms
proof (induction ws arbitrary: lo mem)
  case (Cons w ws)
  obtain b us where w: "w = (b, us)" by (cases w)
  have tl: "tidy (b + length us) hi ws" and b: "lo \<le> b" "b + length us \<le> hi"
    using Cons.prems by (auto simp: w tidy_def ascending_def within_def)
  note IH = Cons.IH [OF tl, of "put_registers w mem"]
  then have "fold put_registers ws (put_registers w mem) r = put_registers w mem r"
    if "r < b + length us \<or> hi \<le> r" for r using that by blast
  then have "map (fold put_registers ws (put_registers w mem)) [b..<b + length us] = us"
    and "r < lo \<or> hi \<le> r \<Longrightarrow> fold put_registers ws (put_registers w mem) r = mem r" for r
    using b by (auto simp: w put_registers_Pair intro!: nth_equalityI)
  then show ?case using IH by (auto simp: w)
qed simp

lemma fold_store_reads: "list_all is_read reads \<Longrightarrow> fold (store_op at enc) reads mem = mem"
proof (induction reads)
  case (Cons op reads)
  then show ?case by (cases op) simp_all
qed simp

lemma fold_store_writes:
  assumes "within lo hi ws" "hi < 2 ^ 16"
  shows "fold (store_op at enc) (map as_op ws) mem = fold put_registers ws mem"
  using assms(1)
proof (induction ws arbitrary: mem)
  case (Cons w ws)
  obtain a vs where w: "w = (a, vs)" by (cases w)
  have "a < 2 ^ 16" using Cons.prems assms(2) by (auto simp: within_def w)
  then have "unat (of_nat a :: 16 word) = a" by (simp add: unsigned_of_nat take_bit_nat_eq_self)
  then show ?case using Cons by (simp add: within_def w as_op_def)
qed simp

section \<open>Properties of the trip curves\<close>

lemma ends_send_trip_model:
  assumes "dv_supported d (tm_id m)" "curve_capacity d (tm_id m) ''N_CRV_SET'' n_sets n" "trip_scales d m x_sf y_sf"
  shows "ends (\<lambda>_ ops. ops = trip_reads m n_sets must may mom @
        (if some_fits n_sets n must may mom
         then map as_op (written_all d m n x_sf y_sf must may mom) @
           [WritePoint (Pt (tm_id m) ''ADPT_CRV_REQ'') (WInt 2), WritePoint (Pt (tm_id m) ''ENA'') (WEna Enabled)]
         else [WritePoint (Pt (tm_id m) ''ENA'') (WEna Disabled)]))
    (send_trip_model d m must may mom)"
    (is "ends ?R _")
proof -
  have ena: "ends (\<lambda>_ ops. ops = [WritePoint (Pt k ''ENA'') (WEna (if b then Enabled else Disabled))]) (write_ena d k b)" for k b
    unfolding write_ena_def by (intro ends_write_point) simp
  have "ends ?R (io_bind (write_curves d m must may mom) (write_ena d (tm_id m)))"
  proof (rule ends_bind [OF ends_write_curves [OF assms(2,3)]], elim conjE)
    fix r ops
    assume r: "r = some_fits n_sets n must may mom"
      and ops: "ops = trip_reads m n_sets must may mom @
        map as_op (if r then written_all d m n x_sf y_sf must may mom else []) @
          (if r then [WritePoint (Pt (tm_id m) ''ADPT_CRV_REQ'') (WInt TARGET_CURVE_SET)] else [])"
    have "?R () (ops @ [WritePoint (Pt (tm_id m) ''ENA'') (WEna (if r then Enabled else Disabled))])"
      by (simp add: ops r TARGET_CURVE_SET_def)
    then show "ends (\<lambda>y ops'. ?R y (ops @ ops')) (write_ena d (tm_id m) r)"
      by (intro ends_weaken [OF ena]) simp
  qed
  then show ?thesis using assms(1) by (simp add: send_trip_model_def)
qed

text \<open>
  C18: the trip curves reach the device as one protocol. When writing a trip model succeeds, on a
  device whose capacity and scale factors do not change meanwhile, what was communicated is exactly: the
  reads of the capacity and of the scale factors of the two axes, in this order and only as far as
  needed; then, if the device has a writable curve set and some curve fits it, the registers of the
  curves that fit, in the order must-trip, may-trip and momentary cessation, each value rescaled by
  the factor of its own axis, the request to adopt set 2, and only after it the enabling of the
  function; otherwise nothing but the function being disabled.
\<close>

theorem trip_curves_communicated:
  assumes "dv_supported d (tm_id m)" "curve_capacity d (tm_id m) ''N_CRV_SET'' n_sets n"
    and "trip_scales d m x_sf y_sf" "send_trip_model d m must may mom tr = (Inr (), tr')"
  shows "communicated (send_trip_model d m must may mom) tr = trip_reads m n_sets must may mom @
      (if some_fits n_sets n must may mom
       then map as_op (written_all d m n x_sf y_sf must may mom) @
         [WritePoint (Pt (tm_id m) ''ADPT_CRV_REQ'') (WInt 2), WritePoint (Pt (tm_id m) ''ENA'') (WEna Enabled)]
       else [WritePoint (Pt (tm_id m) ''ENA'') (WEna Disabled)])"
  using ends_communicated [OF ends_send_trip_model [OF assms(1-3)] assms(4)] .

text \<open>
  The points of a trip model: the registers of the enabling and of the request lie before curve set 2, and
  do not overlap.
\<close>

definition trip_points_ok ::
  "(point \<Rightarrow> nat) \<Rightarrow> (point \<Rightarrow> wval \<Rightarrow> 16 word list) \<Rightarrow> device \<Rightarrow> trip_curve_model \<Rightarrow> nat \<Rightarrow> bool" where
  "trip_points_ok at enc d m n \<longleftrightarrow>
    (let ena = Pt (tm_id m) ''ENA''; req = Pt (tm_id m) ''ADPT_CRV_REQ'' in
     at ena + length (enc ena (WEna Enabled)) \<le> second_set_start d m n \<and>
     at req + length (enc req (WInt 2)) \<le> second_set_start d m n \<and>
     {at ena..<at ena + length (enc ena (WEna Enabled))} \<inter> {at req..<at req + length (enc req (WInt 2))} = {})"

lemma put_registers_at: "map (put_registers (a, vs) mem) [a..<a + length vs] = vs"
  by (auto simp: put_registers_Pair intro!: nth_equalityI)

lemma put_registers_elsewhere:
  "r \<notin> {a..<a + length vs} \<Longrightarrow> put_registers (a, vs) mem r = mem r"
  by (auto simp: put_registers_Pair)

text \<open>
  C17: no curve overwrites another, and the read-only set is untouched. After the curves of a model
  were written, on a device laid out as SunSpec says, every value of every curve that was written
  is found at its own registers, in the scale of its axis; the registers of the enabling and of the request
  hold these; and all other registers outside curve set 2 are as they were. The 16 bit address
  arithmetic of the code does not wrap.
\<close>

theorem trip_curves_stored:
  assumes "trip_layout_ok d m n" "trip_points_ok at enc d m n" "dv_supported d (tm_id m)"
    and "curve_capacity d (tm_id m) ''N_CRV_SET'' n_sets n" "trip_scales d m x_sf y_sf"
    and "some_fits n_sets n must may mom" "send_trip_model d m must may mom tr = (Inr (), tr')"
    and "mem' = fold (store_op at enc) (communicated (send_trip_model d m must may mom) tr) mem"
    and "ena = Pt (tm_id m) ''ENA''" "req = Pt (tm_id m) ''ADPT_CRV_REQ''"
  shows "(\<forall>(a, vs) \<in> set (written_all d m n x_sf y_sf must may mom). map mem' [a..<a + length vs] = vs) \<and>
    map mem' [at ena..<at ena + length (enc ena (WEna Enabled))] = enc ena (WEna Enabled) \<and>
    map mem' [at req..<at req + length (enc req (WInt 2))] = enc req (WInt 2) \<and>
    (\<forall>r. r \<notin> {second_set_start d m n..<second_set_start d m n + trip_set_len d m n} \<union>
        {at ena..<at ena + length (enc ena (WEna Enabled))} \<union> {at req..<at req + length (enc req (WInt 2))} \<longrightarrow>
      mem' r = mem r)"
proof -
  let ?ws = "written_all d m n x_sf y_sf must may mom"
  let ?curves = "fold put_registers ?ws mem" and ?req = "(at req, enc req (WInt 2))"
    and ?ena = "(at ena, enc ena (WEna Enabled))"
  have ops: "communicated (send_trip_model d m must may mom) tr = trip_reads m n_sets must may mom @
      map as_op ?ws @ [WritePoint req (WInt 2), WritePoint ena (WEna Enabled)]"
    using ends_communicated [OF ends_send_trip_model [OF assms(3-5)] assms(7)] assms(6,9,10) by simp
  note tidy = tidy_written_all [OF assms(1), of x_sf y_sf must may mom]
  have mem': "mem' = put_registers ?ena (put_registers ?req ?curves)"
    using fold_store_writes [OF conjunct2 [OF conjunct2 [OF tidy [unfolded tidy_def]]]] assms(1,8)
    by (simp add: ops fold_store_reads [OF trip_reads_read] trip_layout_ok_def)
  note points = assms(2) [unfolded trip_points_ok_def Let_def, folded assms(9,10)]
  have beyond: "mem' r = ?curves r" if "second_set_start d m n \<le> r" for r
    using that points by (auto simp: mem' put_registers_Pair)
  have "map mem' [a..<a + length vs] = vs" if "(a, vs) \<in> set ?ws" for a vs
  proof -
    have "second_set_start d m n \<le> a" using tidy that by (auto simp: tidy_def within_def)
    then have "map mem' [a..<a + length vs] = map ?curves [a..<a + length vs]" by (simp add: beyond)
    also have "\<dots> = vs" using bspec [OF conjunct2 [OF fold_put_tidy [OF tidy, of mem]] that] by simp
    finally show ?thesis .
  qed
  moreover have "map mem' [at req..<at req + length (enc req (WInt 2))] =
      map (put_registers ?req ?curves) [at req..<at req + length (enc req (WInt 2))]"
    unfolding mem' using points by (intro map_cong put_registers_elsewhere) auto
  moreover have "mem' r = mem r" if "r \<notin> {second_set_start d m n..<second_set_start d m n + trip_set_len d m n} \<union>
        {at ena..<at ena + length (enc ena (WEna Enabled))} \<union> {at req..<at req + length (enc req (WInt 2))}" for r
  proof -
    have "?curves r = mem r"
      using fold_put_tidy [OF tidy, of mem] that by (meson UnI1 atLeastLessThan_iff leI)
    then show ?thesis using that by (simp add: mem' put_registers_elsewhere)
  qed
  ultimately show ?thesis by (auto simp: put_registers_at) (simp add: mem' put_registers_at)
qed

section \<open>Volt curves and droop\<close>

fun is_point_write :: "op \<Rightarrow> bool" where
  "is_point_write (WritePoint _ _) \<longleftrightarrow> True"
| "is_point_write _ \<longleftrightarrow> False"

text \<open>A function that was applied: its registers, the request to adopt them, its enabling.\<close>

definition adopted_last :: "nat \<Rightarrow> string \<Rightarrow> bool \<Rightarrow> op list \<Rightarrow> bool" where
  "adopted_last k req applied ops \<longleftrightarrow>
     (\<exists>regs. list_all (\<lambda>op. if applied then \<not> is_point_write op else is_read op) regs \<and>
        ops = regs @
          (if applied then [WritePoint (Pt k req) (WInt 2), WritePoint (Pt k ''ENA'') (WEna Enabled)]
           else [WritePoint (Pt k ''ENA'') (WEna Disabled)]))"

text \<open>The same before the function is enabled.\<close>

definition requested_last :: "nat \<Rightarrow> string \<Rightarrow> bool \<Rightarrow> op list \<Rightarrow> bool" where
  "requested_last k req applied ops \<longleftrightarrow>
     (\<exists>regs. list_all (\<lambda>op. if applied then \<not> is_point_write op else is_read op) regs \<and>
        ops = regs @ (if applied then [WritePoint (Pt k req) (WInt 2)] else []))"

lemma ends_adopted:
  assumes "ends (\<lambda>r ops. r = applied \<and> requested_last k req applied ops) m"
  shows "ends (\<lambda>_. adopted_last k req applied) (io_bind m (write_ena d k))"
proof (rule ends_bind [OF assms])
  fix r ops
  assume "r = applied \<and> requested_last k req applied ops"
  then show "ends (\<lambda>_ ops'. adopted_last k req applied (ops @ ops')) (write_ena d k r)"
    unfolding write_ena_def
    by (intro ends_write_point) (auto simp: requested_last_def adopted_last_def)
qed

lemma ends_silent: "emits P m \<Longrightarrow> ends (\<lambda>_ ops. list_all P ops) m"
  using ends_emits by (simp add: list_all_iff)

text \<open>Register writes, then the request to adopt them.\<close>

lemma ends_requested:
  assumes "list_all (\<lambda>m. emits (\<lambda>op. \<not> is_point_write op) m) ms" "list_all (\<lambda>op. \<not> is_point_write op) regs"
  shows "ends (\<lambda>r ops. r \<and> requested_last k req True (regs @ ops))
    (io_then (io_seq (ms @ [write_point d (Pt k req) (WInt 2)])) (io_return True))"
  using assms
proof (induction ms arbitrary: regs)
  case Nil
  then show ?case
    by (auto simp: requested_last_def io_then_assoc io_then_return
        intro!: ends_then [OF ends_write_point [where R = "\<lambda>_ ops. ops = [WritePoint (Pt k req) (WInt 2)]"]]
          ends_return)
next
  case (Cons m ms)
  have "ends (\<lambda>r ops'. r \<and> requested_last k req True (regs @ ops @ ops'))
      (io_then (io_seq (ms @ [write_point d (Pt k req) (WInt 2)])) (io_return True))"
    if "list_all (\<lambda>op. \<not> is_point_write op) ops" for ops
    using Cons.IH [of "regs @ ops"] Cons.prems that by simp
  then show ?case
    using Cons.prems(1) by (auto simp: io_then_assoc intro: ends_then [OF ends_silent])
qed

lemma ends_write_volt_curve:
  assumes "curve_capacity d (vm_id m) ''N_CRV'' n_crv n" "applied = (2 \<le> n_crv \<and> fits n (Some data))"
  shows "ends (\<lambda>r ops. (r \<noteq> None) = applied \<and>
      list_all (\<lambda>op. if applied then \<not> is_point_write op else is_read op) ops)
    (write_volt_curve d m data)"
proof -
  have crv: "v = n_crv" if "dv_read d tr (Pt (vm_id m) ''N_CRV'') = Some v" for tr v
    using that assms(1) by (simp add: curve_capacity_def)
  have n_pt: "(word_of_int v < curve_length data) = (n < unat (curve_length data))"
    if "dv_read d tr (Pt (vm_id m) ''N_PT'') = Some v" for tr v
    using that assms(1) unfolding curve_capacity_def
    by (metis unat_word_of_int_of_nat word_less_nat_alt)
  have points: "emits (\<lambda>op. \<not> is_point_write op) (write_volt_points d m addr x_sf y_sf data)" for addr x_sf y_sf
    unfolding write_volt_points_def by (auto intro!: emits_seq emits_write_offset)
  have header: "emits (\<lambda>op. \<not> is_point_write op) (write_offset_point d addr g p v)" for addr g p v
    by (auto intro!: emits_write_offset)
  show ?thesis
    unfolding write_volt_curve_def Let_def
  proof (intro ends_read_req, drule crv, drule n_pt, goal_cases)
    case (1 tr v tra va)
    then show ?case
      using assms(2)
      by (auto simp: TARGET_CURVE_def fits_def intro!: ends_read_req ends_return
          ends_then [OF ends_silent [OF header]] ends_then [OF ends_silent [OF points]])
  qed
qed

lemma requested_last_False: "list_all is_read ops \<Longrightarrow> requested_last k req False ops"
  by (simp add: requested_last_def)

lemma read_no_write: "is_read op \<Longrightarrow> \<not> is_point_write op"
  by (cases op) simp_all

lemma ends_volt_model:
  assumes "curve_capacity d (vm_id m) ''N_CRV'' n_crv n"
    and "\<And>off regs. list_all (\<lambda>op. \<not> is_point_write op) regs \<Longrightarrow>
      ends (\<lambda>r ops. r \<and> requested_last k req True (regs @ ops)) (f off)"
  shows "ends (\<lambda>_. adopted_last k req (2 \<le> n_crv \<and> fits n c))
    (io_bind
      (case c of
         None \<Rightarrow> io_return False
       | Some data \<Rightarrow>
           io_bind (write_volt_curve d m data)
             (\<lambda>offset. case offset of None \<Rightarrow> io_return False | Some off \<Rightarrow> f off))
      (write_ena d k))"
proof (rule ends_adopted, cases c)
  case None
  then show "ends (\<lambda>r ops. r = (2 \<le> n_crv \<and> fits n c) \<and> requested_last k req (2 \<le> n_crv \<and> fits n c) ops)
      (case c of None \<Rightarrow> io_return False | Some data \<Rightarrow> io_bind (write_volt_curve d m data)
             (\<lambda>offset. case offset of None \<Rightarrow> io_return False | Some off \<Rightarrow> f off))"
    by (simp add: fits_def requested_last_False ends_return)
next
  case (Some data)
  note curve = ends_write_volt_curve [OF assms(1) refl, of data]
  have "ends (\<lambda>r ops. r = (2 \<le> n_crv \<and> fits n c) \<and> requested_last k req (2 \<le> n_crv \<and> fits n c) ops)
      (io_bind (write_volt_curve d m data)
             (\<lambda>offset. case offset of None \<Rightarrow> io_return False | Some off \<Rightarrow> f off))"
  proof (rule ends_bind [OF curve], goal_cases)
    case (1 offset ops)
    then show ?case
      using Some assms(2) [of ops]
      by (cases offset) (auto intro!: ends_return requested_last_False)
  qed
  then show "ends (\<lambda>r ops. r = (2 \<le> n_crv \<and> fits n c) \<and> requested_last k req (2 \<le> n_crv \<and> fits n c) ops)
      (case c of None \<Rightarrow> io_return False | Some data \<Rightarrow> io_bind (write_volt_curve d m data)
             (\<lambda>offset. case offset of None \<Rightarrow> io_return False | Some off \<Rightarrow> f off))"
    by (simp add: Some)
qed

lemma ends_send_model705:
  assumes "curve_capacity d 705 ''N_CRV'' n_crv n" "dv_supported d 705"
  shows "ends (\<lambda>_. adopted_last 705 ''ADPT_CRV_REQ'' (2 \<le> n_crv \<and> fits n (p_der_volt_var p)))
    (send_model705_parameters d p)"
proof -
  have regs: "list_all (\<lambda>m. emits (\<lambda>op. \<not> is_point_write op) m)
     [write_offset_if_some d off g1 n1 a, write_offset_if_some d off g2 n2 b, write_offset_if_some d off g3 n3 c,
      write_offset_if_some d off g4 n4 e, write_offset_if_some d off g5 n5 f]" for off a b c e f g1 g2 g3 g4 g5 n1 n2 n3 n4 n5
    by (auto intro!: emits_write_offset_if_some)
  show ?thesis
    unfolding send_model705_parameters_def
    using assms ends_requested [OF regs, where regs = "rs @ [ReadValue x, ReadValue y]" for rs x y]
    by (auto simp: model705_def TARGET_CURVE_def intro!: ends_volt_model ends_read_req)
qed

lemma ends_send_model706:
  assumes "curve_capacity d 706 ''N_CRV'' n_crv n" "dv_supported d 706"
  shows "ends (\<lambda>_. adopted_last 706 ''ADPT_CRV_REQ'' (2 \<le> n_crv \<and> fits n (p_der_volt_watt p)))
    (send_model706_parameters d p)"
proof -
  have regs: "list_all (\<lambda>m. emits (\<lambda>op. \<not> is_point_write op) m)
     [case a of None \<Rightarrow> io_return () | Some tms \<Rightarrow> io_bind (read_req d q) (\<lambda>sf. write_offset_point d off g1 n1 (h tms sf)),
      write_offset_if_some d off g2 n2 b]" for off a b q g1 g2 n1 n2 h
    by (auto intro!: emits_option emits_return emits_read_req emits_write_offset emits_write_offset_if_some)
  show ?thesis
    unfolding send_model706_parameters_def
    using assms ends_requested [OF regs]
    by (auto simp: model706_def TARGET_CURVE_def intro!: ends_volt_model)
qed

lemma ends_send_model711:
  assumes "\<And>tr v. dv_read d tr (Pt 711 ''N_CTL'') = Some v \<Longrightarrow> v = n_ctl" "dv_supported d 711"
  shows "ends (\<lambda>_. adopted_last 711 ''ADPT_CTL_REQ'' (2 \<le> n_ctl \<and> p_droop_ctl p \<noteq> None))
    (send_model711_parameters d p)"
proof -
  have regs: "list_all (\<lambda>m. emits (\<lambda>op. \<not> is_point_write op) m)
     [write_offset_point d off g n1 a, write_offset_point d off g n2 b, write_offset_point d off g n3 c,
      write_offset_point d off g n4 e, write_offset_point d off g n5 f]" for off g a b c e f n1 n2 n3 n4 n5
    by (auto intro!: emits_write_offset)
  show ?thesis
    unfolding send_model711_parameters_def Let_def
    using assms(2) ends_requested [OF regs, where regs = "[ReadValue x, ReadValue y, ReadValue z, ReadValue w]" for x y z w]
    by (cases "p_droop_ctl p")
      (auto intro!: ends_adopted ends_return ends_read_req requested_last_False dest!: assms(1))
qed

text \<open>
  C19: the other functions follow the same protocol. Whenever the write of volt-var, volt-watt or
  frequency droop succeeds, the function is enabled at the end, after the request to adopt what was
  written, exactly when it is asked for, the device has a writable copy and the curve fits it;
  otherwise nothing is written but the function being disabled.
\<close>

theorem functions_adopted_last:
  assumes "curve_capacity d 705 ''N_CRV'' n705 k705" "curve_capacity d 706 ''N_CRV'' n706 k706"
    and "\<And>tr v. dv_read d tr (Pt 711 ''N_CTL'') = Some v \<Longrightarrow> v = n711"
    and "dv_supported d 705" "dv_supported d 706" "dv_supported d 711"
    and "send_model705_parameters d p tr5 = (Inr (), tr5')" "send_model706_parameters d p tr6 = (Inr (), tr6')"
    and "send_model711_parameters d p tr11 = (Inr (), tr11')"
  shows "adopted_last 705 ''ADPT_CRV_REQ'' (2 \<le> n705 \<and> fits k705 (p_der_volt_var p))
      (communicated (send_model705_parameters d p) tr5) \<and>
    adopted_last 706 ''ADPT_CRV_REQ'' (2 \<le> n706 \<and> fits k706 (p_der_volt_watt p))
      (communicated (send_model706_parameters d p) tr6) \<and>
    adopted_last 711 ''ADPT_CTL_REQ'' (2 \<le> n711 \<and> p_droop_ctl p \<noteq> None)
      (communicated (send_model711_parameters d p) tr11)"
  using ends_communicated [OF ends_send_model705 [OF assms(1,4)] assms(7)]
    ends_communicated [OF ends_send_model706 [OF assms(2,5)] assms(8)]
    ends_communicated [OF ends_send_model711 [OF _ assms(6)] assms(9)] assms(3)
  by blast

section \<open>Errors\<close>

lemma stops_io_seq_concat [stops_intro]:
  "(\<And>x m. m \<in> set (f x) \<Longrightarrow> stops_at_error d m) \<Longrightarrow> stops_at_error d (io_seq (concat (map f xs)))"
  by (intro stops_seq) auto

lemma stops_volt [stops_intro]: "stops_at_error d (write_volt_curve d m data)"
  unfolding write_volt_curve_def write_volt_points_def Let_def
  by (auto intro!: stops_bind stops_read stops_if stops_return stops_then stops_writes stops_io_seq_concat)

lemma stops_trip [stops_intro]: "stops_at_error d (write_trip_if_some d m c data n_pt x_sf y_sf)"
  unfolding write_trip_if_some_def write_trip_curve_def write_trip_points_def Let_def
  by (auto intro!: stops_option stops_if stops_return stops_then stops_writes stops_io_seq_concat)

lemma stops_ena [stops_intro]: "stops_at_error d (write_ena d k b)"
  unfolding write_ena_def by (intro stops_writes)

lemma stops_trip_model [stops_intro]: "stops_at_error d (send_trip_model d m must may mom)"
  unfolding send_trip_model_def write_curves_def Let_def
  by (intro stops_if stops_return stops_bind stops_ena stops_read stops_trip stops_then stops_writes)

lemma stops_functions [stops_intro]:
  "stops_at_error d (send_model705_parameters d p)" "stops_at_error d (send_model706_parameters d p)"
  "stops_at_error d (send_model711_parameters d p)"
  unfolding send_model705_parameters_def send_model706_parameters_def send_model711_parameters_def Let_def
  by (auto intro!: stops_if stops_return stops_bind stops_ena stops_read stops_volt stops_then stops_seq
      stops_writes stops_option)

lemma stops_send_new_parameters [stops_intro]: "stops_at_error d (send_new_parameters d p)"
  unfolding send_new_parameters_def send_model707_parameters_def send_model708_parameters_def
    send_model709_parameters_def send_model710_parameters_def
  by (intro stops_then stops_bind stops_703 stops_704 stops_seq stops_return)
    (auto intro: stops_trip_model stops_functions)

text \<open>
  C34: the first communication error ends the sending of parameters. It succeeds exactly when
  every operation it communicated was answered or accepted; otherwise the last operation
  communicated is the only one that failed, nothing is sent after it, and the error reported is
  that the connection failed.
\<close>

theorem first_error_stops:
  assumes "send_new_parameters d p tr = (r, tr')"
  shows "(\<exists>st. r = Inr st \<and> all_ok d tr (communicated (send_new_parameters d p) tr)) \<or>
    (r = Inl ConnectionFailed \<and> communicated (send_new_parameters d p) tr \<noteq> [] \<and>
     all_ok d tr (butlast (communicated (send_new_parameters d p) tr)) \<and>
     \<not> op_ok d (tr @ butlast (communicated (send_new_parameters d p) tr))
       (last (communicated (send_new_parameters d p) tr)))"
proof -
  have "outcome_ok d tr (r, tr')"
    using stops_send_new_parameters [of d p] assms unfolding stops_at_error_def by metis
  then show ?thesis
    using assms by (cases r) (auto simp: outcome_ok_simps communicated_def butlast_append)
qed

section \<open>Witnesses\<close>

definition example_trip_curve :: curve where
  "example_trip_curve = \<lparr>cu_points = [(200, 100), (180, 200)], cu_sf_x = 0, cu_sf_y = - 2\<rparr>"

lemma example_capacity:
  "curve_capacity (example_device b) 707 ''N_CRV_SET'' 2 10" "curve_capacity (example_device b) 705 ''N_CRV'' 2 10"
  "curve_capacity (example_device b) 706 ''N_CRV'' 2 2" 
  by (simp_all add: curve_capacity_def example_device_def)

theorem first_error_stops_witness:
  "\<exists>st tr'. send_new_parameters (example_device True) example_limit [] = (Inr st, tr')"
proof -
  obtain r tr' where r: "send_new_parameters (example_device True) example_limit [] = (r, tr')"
    by (cases "send_new_parameters (example_device True) example_limit []")
  show ?thesis using first_error_stops [OF r] r example_device_ok by auto
qed

lemma example_trip_sent:
  "\<exists>tr'. send_trip_model (example_device True) model707 (Some example_trip_curve) None None [] = (Inr (), tr')"
  using stops_succeeds [OF stops_trip_model example_device_ok] by (metis (full_types) unit.exhaust)

lemma example_fits: "some_fits 2 10 (Some example_trip_curve) None None"
  by (simp add: some_fits_def fits_def TARGET_CURVE_SET_def curve_length_def example_trip_curve_def u16_max_def)

text \<open>Where this device keeps the enabling and the request of model 707: in its first two registers.\<close>

definition example_at :: "point \<Rightarrow> nat" where
  "example_at p = (if p = Pt 707 ''ENA'' then 41800 else 41801)"

definition example_enc :: "point \<Rightarrow> wval \<Rightarrow> 16 word list" where
  "example_enc p v = [case v of WInt x \<Rightarrow> word_of_int x | _ \<Rightarrow> 1]"

lemma example_scales: "trip_scales (example_device b) model707 2 2"
  by (simp add: trip_scales_def example_device_def model707_def)

theorem trip_curves_communicated_witness:
  "communicated (send_trip_model (example_device True) model707 (Some example_trip_curve) None None) [] =
      trip_reads model707 2 (Some example_trip_curve) None None @
      map as_op (written_all (example_device True) model707 10 2 2 (Some example_trip_curve) None None) @
        [WritePoint (Pt 707 ''ADPT_CRV_REQ'') (WInt 2), WritePoint (Pt 707 ''ENA'') (WEna Enabled)]"
proof -
  obtain tr' where "send_trip_model (example_device True) model707 (Some example_trip_curve) None None [] = (Inr (), tr')"
    using example_trip_sent by blast
  from trip_curves_communicated [OF _ _ example_scales this, of 2 10] example_capacity(1) example_fits
  show ?thesis by (simp add: model707_def example_device_def)
qed

theorem trip_curves_stored_witness:
  "\<exists>mem'. mem' = fold (store_op example_at example_enc) (communicated
      (send_trip_model (example_device True) model707 (Some example_trip_curve) None None) []) (\<lambda>_. 7) \<and>
    (\<forall>(a, vs) \<in> set (written_all (example_device True) model707 10 2 2 (Some example_trip_curve) None None).
      map mem' [a..<a + length vs] = vs) \<and> mem' 41800 = 1 \<and> mem' 41801 = 2 \<and> mem' 0 = 7"
proof -
  obtain tr' where sent: "send_trip_model (example_device True) model707 (Some example_trip_curve) None None [] = (Inr (), tr')"
    using example_trip_sent by blast
  have start: "second_set_start (example_device True) model707 10 = 41956"
    by (simp add: second_set_start_def trip_set_len_def trip_curve_len_def example_device_def model707_def)
  have layout: "trip_layout_ok (example_device True) model707 10"
  proof -
    have "unat (curve_static_len (example_device True) model707 c) = 4" for c
      by (cases c) (simp_all add: example_device_def)
    then show ?thesis
      by (simp add: trip_layout_ok_def second_set_start_def trip_set_len_def trip_curve_len_def
          example_device_def model707_def)
  qed
  have points: "trip_points_ok example_at example_enc (example_device True) model707 10"
  proof -
    have "tm_id model707 = 707" by (simp add: model707_def)
    then show ?thesis by (simp add: trip_points_ok_def start example_at_def example_enc_def)
  qed
  show ?thesis
    using trip_curves_stored [OF layout points _ _ example_scales example_fits sent refl refl refl, of "\<lambda>_. 7"]
      example_capacity(1)
    by (auto simp: model707_def [THEN arg_cong, of tm_id] start example_device_def [THEN arg_cong, of dv_supported]
        example_at_def example_enc_def)
qed

definition example_volt_var :: parameters where
  "example_volt_var = example_limit\<lparr>p_der_volt_var := Some example_trip_curve\<rparr>"

lemma example_functions_sent:
  "\<exists>tr'. send_model705_parameters (example_device True) example_volt_var [] = (Inr (), tr')"
  "\<exists>tr'. send_model706_parameters (example_device True) example_volt_var [] = (Inr (), tr')"
  "\<exists>tr'. send_model711_parameters (example_device True) example_volt_var [] = (Inr (), tr')"
  using stops_succeeds [OF stops_functions(1) example_device_ok]
    stops_succeeds [OF stops_functions(2) example_device_ok]
    stops_succeeds [OF stops_functions(3) example_device_ok]
  by (metis (full_types) unit.exhaust)+

theorem functions_adopted_last_witness:
  "adopted_last 705 ''ADPT_CRV_REQ'' True (communicated (send_model705_parameters (example_device True) example_volt_var) [])"
proof -
  obtain t5 t6 t11 where "send_model705_parameters (example_device True) example_volt_var [] = (Inr (), t5)"
    "send_model706_parameters (example_device True) example_volt_var [] = (Inr (), t6)"
    "send_model711_parameters (example_device True) example_volt_var [] = (Inr (), t11)"
    using example_functions_sent by blast
  from functions_adopted_last [OF example_capacity(2,3) _ _ _ _ this, of 2]
  show ?thesis by (simp add: example_device_def example_volt_var_def example_limit_def default_parameters_def
        fits_def curve_length_def example_trip_curve_def u16_max_def)
qed

end
