(* ===== verification/Modbus_Task.thy ===== *)
theory Modbus_Task
  imports Modbus_Curves
begin

text \<open>
  \<^verbatim>\<open>src/modbus_connection.rs\<close>, function \<^verbatim>\<open>task\<close>: the loop that keeps the device connected,
  sends it the newest parameters, retries what had to be deferred and polls it. One iteration is
  \<open>task_round\<close>; what the environment decides in it (the command received, whether a device
  answers, when a time-out strikes, the clock, whether anybody still listens) is its input. A
  time-out ends a computation after some of its operations.
\<close>

section \<open>Reading models and connecting\<close>

definition read_model :: "nat \<Rightarrow> (op list \<Rightarrow> 'a option) \<Rightarrow> 'a io" where
  "read_model k f tr =
    ((case f tr of None \<Rightarrow> Inl ConnectionFailed | Some m \<Rightarrow> Inr m), tr @ [ReadModel k])"

definition read_model_safe :: "device \<Rightarrow> nat \<Rightarrow> (op list \<Rightarrow> 'a option) \<Rightarrow> 'a option io" where
  "read_model_safe d k f =
    (if \<not> dv_supported d k then io_return None
     else io_bind (read_model k f) (\<lambda>m. io_return (Some m)))"

definition read_model1 :: "device \<Rightarrow> unit io" where
  "read_model1 d = read_model 1 (\<lambda>tr. if dv_model1 d tr then Some () else None)"

definition capabilities_query :: "device \<Rightarrow> capabilities option io" where
  "capabilities_query d =
    io_bind (read_model_safe d 702 (dv_702 d)) (\<lambda>m702.
      io_return (map_option capabilities_from_702 m702))"

definition establish_connection :: "device \<Rightarrow> capabilities option io" where
  "establish_connection d = io_then (read_model1 d) (capabilities_query d)"

definition poll_device_state :: "device \<Rightarrow> (status option \<times> settings option \<times> metering option) io" where
  "poll_device_state d =
    io_then (read_model1 d)
      (io_bind (read_model_safe d 701 (dv_701 d)) (\<lambda>m701.
       io_bind (read_model_safe d 703 (dv_703 d)) (\<lambda>m703.
       io_bind (read_model_safe d 713 (dv_713 d)) (\<lambda>m713.
         io_return (status_from m701 m713, settings_from m703, metering_from m701)))))"

section \<open>State\<close>

datatype pending_apply = PendingNone | Model704LimitDerivations

definition from_apply_status :: "apply_status \<Rightarrow> pending_apply" where
  "from_apply_status st = (if deferred st then Model704LimitDerivations else PendingNone)"

datatype modbus_event =
  DeviceConnected
| CapabilitiesPolled capabilities
| StatePolled "status option" "settings option" "metering option"

text \<open>A connection: the device, and what was communicated with it since it was established.\<close>

record connection =
  cn_device :: device
  cn_trace :: "op list"

record modbus_state =
  ms_device_opt :: "connection option"
  ms_parameters :: "parameters option"
  ms_last_sent :: "parameters option"
  ms_pending :: pending_apply
  ms_last_poll :: int

definition initial_modbus :: "int \<Rightarrow> modbus_state" where
  "initial_modbus now =
    \<lparr>ms_device_opt = None, ms_parameters = None, ms_last_sent = None, ms_pending = PendingNone,
     ms_last_poll = now\<rparr>"

section \<open>One iteration\<close>

datatype modbus_command = UpdateParameters parameters

datatype received = TimerElapsed | InputClosed | Received modbus_command

text \<open>
  \<open>ri_connect\<close> is the device the transport reaches, if any; each \<open>limit\<close> is the number of
  operations after which the time-out of that computation strikes, if it does; the two clock
  readings are those of the poll; \<open>ri_listening\<close> tells whether the output channel is open.
\<close>

record round_input =
  ri_received :: received
  ri_connect :: "device option"
  ri_connect_limit :: "nat option"
  ri_send_limit :: "nat option"
  ri_poll_limit :: "nat option"
  ri_now :: int
  ri_after_poll :: int
  ri_listening :: bool

text \<open>\<^verbatim>\<open>time::timeout(COMM_TIMEOUT, m)\<close>.\<close>

definition io_timeout :: "nat option \<Rightarrow> 'a io \<Rightarrow> 'a io" where
  "io_timeout limit m tr =
    (case limit of
       None \<Rightarrow> m tr
     | Some k \<Rightarrow>
         if k < length (snd (m tr)) - length tr
         then (Inl CommunicationTimeout, take (length tr + k) (snd (m tr)))
         else m tr)"

text \<open>The end of an iteration: the loop goes on with some events broadcast, it stops because the
  input is closed, or the task fails because the output is.\<close>

datatype 's round_result = Running 's "modbus_event list" | InputStopped | OutputClosed

fun receive_command :: "received \<Rightarrow> modbus_state \<Rightarrow> modbus_state option" where
  "receive_command TimerElapsed s = Some s"
| "receive_command InputClosed s = None"
| "receive_command (Received (UpdateParameters new_parameters)) s = Some (s\<lparr>ms_parameters := Some new_parameters\<rparr>)"

definition drop_connection :: "modbus_state \<Rightarrow> modbus_state" where
  "drop_connection s = s\<lparr>ms_device_opt := None\<rparr>"

definition connect_device :: "round_input \<Rightarrow> modbus_state \<Rightarrow> modbus_state round_result" where
  "connect_device ri s =
    (case ms_device_opt s of
       Some _ \<Rightarrow> Running s []
     | None \<Rightarrow>
         (case ri_connect ri of
            None \<Rightarrow> Running (drop_connection s) []
          | Some new_device \<Rightarrow>
              (case io_timeout (ri_connect_limit ri) (establish_connection new_device) [] of
                 (Inl err, _) \<Rightarrow> Running (drop_connection s) []
               | (Inr capabilities, tr) \<Rightarrow>
                   if \<not> ri_listening ri then OutputClosed
                   else Running
                     (s\<lparr>ms_device_opt := Some \<lparr>cn_device = new_device, cn_trace = tr\<rparr>,
                        ms_last_sent := None, ms_pending := PendingNone\<rparr>)
                     (DeviceConnected # (case capabilities of None \<Rightarrow> [] | Some c \<Rightarrow> [CapabilitiesPolled c])))))"

text \<open>A computation on the connection: an error drops it, a result is handed on.\<close>

definition on_connection ::
  "modbus_state \<Rightarrow> connection \<Rightarrow> nat option \<Rightarrow> (device \<Rightarrow> 'a io) \<Rightarrow> ('a \<Rightarrow> modbus_state \<Rightarrow> modbus_state) \<Rightarrow> modbus_state" where
  "on_connection s c limit m k =
    (case io_timeout limit (m (cn_device c)) (cn_trace c) of
       (Inl err, _) \<Rightarrow> drop_connection s
     | (Inr x, tr) \<Rightarrow> k x (s\<lparr>ms_device_opt := Some (c\<lparr>cn_trace := tr\<rparr>)\<rparr>))"

definition apply_parameters :: "round_input \<Rightarrow> modbus_state \<Rightarrow> modbus_state" where
  "apply_parameters ri s =
    (case (ms_device_opt s, ms_parameters s) of
       (Some device, Some parameters) \<Rightarrow>
         if ms_last_sent s \<noteq> Some parameters then
           on_connection s device (ri_send_limit ri) (\<lambda>d. send_new_parameters d parameters)
             (\<lambda>status s. s\<lparr>ms_last_sent := Some parameters, ms_pending := from_apply_status status\<rparr>)
         else if ms_pending s = Model704LimitDerivations then
           on_connection s device (ri_send_limit ri)
             (\<lambda>d. send_model704_pending_limit_derivations d parameters True)
             (\<lambda>status s. s\<lparr>ms_pending := from_apply_status status\<rparr>)
         else s
     | _ \<Rightarrow> s)"

text \<open>One second; the clock counts nanoseconds.\<close>

definition MIN_POLL_PERIOD :: int where "MIN_POLL_PERIOD = 1000000000"

definition poll_device :: "round_input \<Rightarrow> modbus_state \<Rightarrow> modbus_state round_result" where
  "poll_device ri s =
    (case ms_device_opt s of
       None \<Rightarrow> Running s []
     | Some device \<Rightarrow>
         if \<not> ri_now ri - ms_last_poll s > MIN_POLL_PERIOD then Running s []
         else
           (case io_timeout (ri_poll_limit ri) (poll_device_state (cn_device device)) (cn_trace device) of
              (Inl err, _) \<Rightarrow> Running ((drop_connection s)\<lparr>ms_last_poll := ri_after_poll ri\<rparr>) []
            | (Inr (status, settings, metering), tr) \<Rightarrow>
                if \<not> ri_listening ri then OutputClosed
                else Running
                  (s\<lparr>ms_device_opt := Some (device\<lparr>cn_trace := tr\<rparr>), ms_last_poll := ri_after_poll ri\<rparr>)
                  [StatePolled status settings metering]))"

definition task_round :: "round_input \<Rightarrow> modbus_state \<Rightarrow> modbus_state round_result" where
  "task_round ri s =
    (case receive_command (ri_received ri) s of
       None \<Rightarrow> InputStopped
     | Some s \<Rightarrow>
         (case connect_device ri s of
            Running s connected \<Rightarrow>
              (case poll_device ri (apply_parameters ri s) of
                 Running s polled \<Rightarrow> Running s (connected @ polled)
               | r \<Rightarrow> r)
          | r \<Rightarrow> r))"

text \<open>The states of the task at the head of its loop.\<close>

inductive modbus_reachable :: "modbus_state \<Rightarrow> bool" where
  modbus_start: "modbus_reachable (initial_modbus now)"
| modbus_step: "modbus_reachable s \<Longrightarrow> task_round ri s = Running s' evs \<Longrightarrow> modbus_reachable s'"

section \<open>What a connected device has been given\<close>

text \<open>
  The abstract specification: the communication of one connection that applies the parameters
  \<open>p\<close>. Everything was sent, the last attempt at the deferred limits having the status \<open>st\<close>;
  afterwards only retries of deferred limits and polls took place.
\<close>

inductive applied_on :: "device \<Rightarrow> parameters \<Rightarrow> apply_status \<Rightarrow> op list \<Rightarrow> bool" for d p where
  applied_sent: "send_new_parameters d p tr = (Inr st, tr') \<Longrightarrow> applied_on d p st tr'"
| applied_retried: "applied_on d p st tr \<Longrightarrow> deferred st \<Longrightarrow>
    send_model704_pending_limit_derivations d p True tr = (Inr st', tr') \<Longrightarrow> applied_on d p st' tr'"
| applied_polled: "applied_on d p st tr \<Longrightarrow> poll_device_state d tr = (Inr x, tr') \<Longrightarrow> applied_on d p st tr'"

text \<open>The invariant at the head of the loop.\<close>

definition modbus_ok :: "modbus_state \<Rightarrow> bool" where
  "modbus_ok s \<longleftrightarrow>
     (case ms_device_opt s of
        None \<Rightarrow> True
      | Some c \<Rightarrow> ms_last_sent s = ms_parameters s \<and>
          (case ms_parameters s of
             None \<Rightarrow> ms_pending s = PendingNone
           | Some p \<Rightarrow> \<exists>st. applied_on (cn_device c) p st (cn_trace c) \<and> ms_pending s = from_apply_status st))"

text \<open>The same once a command was received and the device connected: new parameters may be unsent.\<close>

definition connected_ok :: "modbus_state \<Rightarrow> bool" where
  "connected_ok s \<longleftrightarrow>
     (case (ms_device_opt s, ms_last_sent s) of
        (Some c, Some p) \<Rightarrow> ms_parameters s \<noteq> None \<and>
          (\<exists>st. applied_on (cn_device c) p st (cn_trace c) \<and> ms_pending s = from_apply_status st)
      | (Some c, None) \<Rightarrow> ms_pending s = PendingNone
      | _ \<Rightarrow> True)"

lemma io_timeout_Inr: "io_timeout limit m tr = (Inr x, tr') \<Longrightarrow> m tr = (Inr x, tr')"
  by (auto simp: io_timeout_def split: option.splits if_splits)

lemma receive_command_ok:
  "receive_command r s = Some s' \<Longrightarrow> modbus_ok s \<Longrightarrow> connected_ok s'"
  by (cases "(r, s)" rule: receive_command.cases)
    (auto simp: modbus_ok_def connected_ok_def split: option.splits)

lemma connect_device_ok:
  "connect_device ri s = Running s' evs \<Longrightarrow> connected_ok s \<Longrightarrow> connected_ok s'"
  by (auto simp: connect_device_def connected_ok_def drop_connection_def
      split: option.splits prod.splits sum.splits if_splits)

lemma apply_parameters_ok:
  assumes "connected_ok s"
  shows "modbus_ok (apply_parameters ri s)"
proof (cases "ms_device_opt s")
  case None
  then show ?thesis by (simp add: apply_parameters_def modbus_ok_def)
next
  case (Some c)
  note dev = Some
  show ?thesis
  proof (cases "ms_parameters s")
    case None
    then show ?thesis
      using assms dev by (auto simp: apply_parameters_def modbus_ok_def connected_ok_def split: option.splits)
  next
    case (Some p)
    show ?thesis
      using assms dev Some
      by (auto simp: apply_parameters_def on_connection_def modbus_ok_def connected_ok_def drop_connection_def
          from_apply_status_def
          split: option.splits prod.splits sum.splits if_splits
          dest!: io_timeout_Inr intro: applied_sent applied_retried)
  qed
qed

lemma poll_device_ok:
  "poll_device ri s = Running s' evs \<Longrightarrow> modbus_ok s \<Longrightarrow> modbus_ok s'"
  by (auto simp: poll_device_def modbus_ok_def drop_connection_def
      split: option.splits prod.splits sum.splits if_splits
      dest!: io_timeout_Inr) (blast intro: applied_polled)

lemma task_round_Running:
  assumes "task_round ri s = Running s' evs"
  obtains s1 s2 e1 e2 where "receive_command (ri_received ri) s = Some s1"
    "connect_device ri s1 = Running s2 e1" "poll_device ri (apply_parameters ri s2) = Running s' e2"
    "evs = e1 @ e2"
  using assms unfolding task_round_def by (auto split: option.splits round_result.splits)

lemma modbus_ok_reachable: "modbus_reachable s \<Longrightarrow> modbus_ok s"
proof (induction rule: modbus_reachable.induct)
  case (modbus_start now)
  then show ?case by (simp add: modbus_ok_def initial_modbus_def)
next
  case (modbus_step s ri s' evs)
  then show ?case
    by (elim task_round_Running)
      (blast intro: poll_device_ok apply_parameters_ok connect_device_ok receive_command_ok)
qed

section \<open>A deferred limit\<close>

lemma emits_read_model: "emits is_read (read_model k f)"
  by (simp add: emits_def read_model_def)

lemma emits_read_model_safe: "emits is_read (read_model_safe d k f)"
  unfolding read_model_safe_def by (intro emits_if emits_return emits_bind emits_read_model)

lemma poll_reads_only: "emits is_read (poll_device_state d)"
  unfolding poll_device_state_def read_model1_def
  by (intro emits_then emits_bind emits_return emits_read_model emits_read_model_safe)

lemma limit_applied_reads: "list_all is_read reads \<Longrightarrow> limit_applied p r sf ops \<Longrightarrow> limit_applied p r sf (ops @ reads)"
proof -
  have "is_read op \<Longrightarrow> \<not> writes_704 ns op" for op ns by (cases op) simp_all
  then show "list_all is_read reads \<Longrightarrow> limit_applied p r sf ops \<Longrightarrow> limit_applied p r sf (ops @ reads)"
    by (auto simp: limit_applied_def list_all_iff filter_empty_conv)
qed

lemma pending_trace: "snd (send_model704_pending_limit_derivations d p retry tr) =
    tr @ communicated (send_model704_pending_limit_derivations d p retry) tr"
  by (rule emits_trace [where P = "\<lambda>_. True"], rule emits_pending [where Q = "\<lambda>_. True"])
    (simp_all add: returns_any emits_send_w_max_lim emits_send_w_set)

text \<open>A poll does not change what is pending, and only adds reads.\<close>

lemma poll_device_frame:
  assumes "poll_device ri s = Running s' evs" "ms_device_opt s' = Some c'"
  obtains c reads where "ms_device_opt s = Some c" "cn_device c' = cn_device c" "cn_trace c' = cn_trace c @ reads"
    "list_all is_read reads" "ms_pending s' = ms_pending s"
proof -
  have ext: "\<exists>reads. tr' = tr @ reads \<and> list_all is_read reads"
    if "poll_device_state d tr = (r, tr')" for d tr r tr'
    using poll_reads_only [of d] that unfolding emits_def list_all_iff by (metis snd_conv)
  show thesis
    using assms that
    by (auto simp: poll_device_def drop_connection_def split: option.splits prod.splits sum.splits if_splits
        dest!: io_timeout_Inr ext)
qed

text \<open>
  A device whose rating can be read from some point of the communication on. To what follows it is
  indistinguishable from the device that cannot be read before that point.
\<close>

definition rated_from :: "device \<Rightarrow> op list \<Rightarrow> int \<Rightarrow> int \<Rightarrow> int \<Rightarrow> bool" where
  "rated_from d tr0 rtg w_sf pct_sf \<longleftrightarrow>
     (\<forall>new x. dv_read_opt d (tr0 @ new) (Pt 702 ''W_MAX_RTG'') = Some x \<longrightarrow> x = Some rtg) \<and>
     (\<forall>new x. dv_read_opt d (tr0 @ new) (Pt 702 ''W_SF'') = Some x \<longrightarrow> sf_or_default x = w_sf) \<and>
     (\<forall>new x. dv_read_opt d (tr0 @ new) (Pt 704 ''W_MAX_LIM_PCT_SF'') = Some x \<longrightarrow> sf_or_default x = pct_sf)"

definition mute_before :: "op list \<Rightarrow> device \<Rightarrow> device" where
  "mute_before tr0 d =
     d\<lparr>dv_read_opt := (\<lambda>tr p. if take (length tr0) tr = tr0 then dv_read_opt d tr p else None)\<rparr>"

lemma mute_before_simps [simp]:
  "dv_supported (mute_before tr0 d) = dv_supported d" "dv_accepts (mute_before tr0 d) = dv_accepts d"
  by (simp_all add: mute_before_def)

lemma device_rating_mute: "rated_from d tr0 rtg w_sf pct_sf \<Longrightarrow> device_rating (mute_before tr0 d) rtg w_sf pct_sf"
  unfolding device_rating_def rated_from_def mute_before_def
  by (auto split: if_splits) (metis append_take_drop_id)+

definition same_from :: "op list \<Rightarrow> 'a io \<Rightarrow> 'a io \<Rightarrow> bool" where
  "same_from tr0 m m' \<longleftrightarrow> (\<forall>new. m (tr0 @ new) = m' (tr0 @ new) \<and> (\<exists>new'. snd (m (tr0 @ new)) = tr0 @ new'))"

lemma same_from_return: "same_from tr0 (io_return x) (io_return x)"
  by (simp add: same_from_def io_return_def)

lemma same_from_bind:
  assumes "same_from tr0 m m'" "\<And>x. same_from tr0 (f x) (f' x)"
  shows "same_from tr0 (io_bind m f) (io_bind m' f')"
  unfolding same_from_def
proof
  fix new
  obtain r tr' where m: "m (tr0 @ new) = (r, tr')" by (cases "m (tr0 @ new)")
  then obtain new' where "tr' = tr0 @ new'" "m' (tr0 @ new) = (r, tr')"
    using assms(1) unfolding same_from_def by (metis snd_conv)
  then show "io_bind m f (tr0 @ new) = io_bind m' f' (tr0 @ new) \<and>
      (\<exists>new'. snd (io_bind m f (tr0 @ new)) = tr0 @ new')"
    using assms(2) m unfolding same_from_def io_bind_def by (cases r) (auto, metis)
qed

lemma same_from_then: "same_from tr0 a a' \<Longrightarrow> same_from tr0 b b' \<Longrightarrow> same_from tr0 (io_then a b) (io_then a' b')"
  unfolding io_then_def by (rule same_from_bind)

lemma same_from_read: "same_from tr0 (read_opt d p) (read_opt (mute_before tr0 d) p)"
  by (simp add: same_from_def read_opt_def mute_before_def)

lemma same_from_write:
  "same_from tr0 (write_if_some d p v) (write_if_some (mute_before tr0 d) p v)"
  "same_from tr0 (write_rescaled_if_some d resc p x sf) (write_rescaled_if_some (mute_before tr0 d) resc p x sf)"
  by (auto simp: same_from_def write_if_some_def write_rescaled_if_some_def write_point_def write_op_def
      io_return_def split: option.split)

lemma same_from_if: "same_from tr0 a a' \<Longrightarrow> same_from tr0 b b' \<Longrightarrow> same_from tr0 (if c then a else b) (if c then a' else b')"
  by simp

lemma same_from_option:
  "same_from tr0 a a' \<Longrightarrow> (\<And>y. same_from tr0 (f y) (f' y)) \<Longrightarrow>
     same_from tr0 (case x of None \<Rightarrow> a | Some y \<Rightarrow> f y) (case x of None \<Rightarrow> a' | Some y \<Rightarrow> f' y)"
  by (cases x) simp_all

lemma same_from_pending:
  "same_from tr0 (send_model704_pending_limit_derivations d p retry)
     (send_model704_pending_limit_derivations (mute_before tr0 d) p retry)"
  unfolding send_model704_pending_limit_derivations_def read_w_max_rtg_def send_w_max_lim_def
    send_w_set_def read_sf_if_def Let_def mute_before_simps
  by (intro same_from_if same_from_return same_from_bind same_from_read same_from_option same_from_then
      same_from_write)

section \<open>Properties\<close>

text \<open>
  C1: a connected device always holds the newest parameters. Whatever happened before (commands,
  errors, time-outs, reconnections), whenever the loop goes round with the device connected, the
  parameters last received were completely and successfully sent on this very connection, and
  nothing followed but polls and retries of deferred limits; and a retry is still due exactly when
  the last attempt at these limits was deferred.
\<close>

theorem device_holds_newest_parameters:
  assumes "modbus_reachable s" "ms_device_opt s = Some c" "ms_parameters s = Some p"
  shows "\<exists>st. applied_on (cn_device c) p st (cn_trace c) \<and>
    (ms_pending s = Model704LimitDerivations \<longleftrightarrow> deferred st)"
  using modbus_ok_reachable [OF assms(1)] assms(2,3)
  by (auto simp: modbus_ok_def from_apply_status_def split: if_splits)

lemma emits_pending_retry:
  "emits (\<lambda>op. is_read op \<or> writes_704 (limit_points @ set_points) op)
     (send_model704_pending_limit_derivations d p retry)"
  by (rule emits_pending [where Q = "\<lambda>_. True"]) (auto intro!: emits_send_w_max_lim emits_send_w_set simp: returns_any)

text \<open>
  C20: a deferred export limit is applied in the first iteration in which the rating can be read. Let the
  limits be pending on a connected device that reports its rating from now on, and let an iteration keep
  the connection and bring no other parameters (the timer has elapsed, or the same parameters are
  received again; other parameters are sent anew, as in C1 and C6). Then in this iteration the percentage
  derived from the limit has been enabled and written, as in \<open>export_limit_applied\<close>, and nothing
  but the limit and the set point is written. No retry is due any more, unless a set point in watts, or
  an import limit, is also to be derived, which may still be pending.
\<close>

theorem deferred_limit_applied:
  assumes "modbus_reachable s" "ms_device_opt s = Some c" "ms_pending s = Model704LimitDerivations"
    and "ms_parameters s = Some p" "p_w_max_lim p = Some lim"
    and "rated_from (cn_device c) (cn_trace c) rtg w_sf pct_sf" "0 < rtg" "rtg \<le> u16_max"
    and "dv_supported (cn_device c) 702" "dv_supported (cn_device c) 704"
    and "0 \<le> sv_value lim" "sv_value lim \<le> u32_max"
    and "\<And>x. p_w_max_lim_pct p = Some x \<Longrightarrow> 0 \<le> sv_value x \<and> sv_value x \<le> u16_max"
    and "p_w_max_lim_pct_ena p = Some (if p_w_max_lim_pct p = None then Disabled else Enabled)"
    and "ri_received ri \<in> {TimerElapsed, Received (UpdateParameters p)}"
    and "task_round ri s = Running s' evs" "ms_device_opt s' = Some c'"
  shows "\<exists>ops. cn_trace c' = cn_trace c @ ops \<and> limit_applied p (new_sv rtg w_sf) pct_sf ops \<and>
    (\<forall>op \<in> set ops. is_read op \<or> writes_704 (limit_points @ set_points) op) \<and>
    (p_w_set p = None \<or> p_w_set_pct p \<noteq> None \<longrightarrow> ms_pending s' = PendingNone)"
proof -
  have last: "ms_last_sent s = Some p"
    using modbus_ok_reachable [OF assms(1)] assms(2,4) by (simp add: modbus_ok_def)
  have received: "receive_command (ri_received ri) s = Some s" using assms(4,15) by auto
  obtain s2 e1 e2 where s2: "connect_device ri s = Running s2 e1"
      and poll: "poll_device ri (apply_parameters ri s2) = Running s' e2"
    using assms(16) received by (auto elim!: task_round_Running)
  have "s2 = s" using s2 assms(2) by (simp add: connect_device_def)
  obtain c1 reads where c1: "ms_device_opt (apply_parameters ri s) = Some c1" "cn_trace c' = cn_trace c1 @ reads"
      "list_all is_read reads" "ms_pending s' = ms_pending (apply_parameters ri s)"
    using poll_device_frame [OF poll assms(17)] \<open>s2 = s\<close> by metis
  let ?m = "send_model704_pending_limit_derivations (cn_device c) p True"
    and ?mute = "send_model704_pending_limit_derivations (mute_before (cn_trace c) (cn_device c)) p True"
  have same: "?mute (cn_trace c) = ?m (cn_trace c)"
    using same_from_pending [of "cn_trace c" "cn_device c" p True] unfolding same_from_def
    by (metis append_Nil2)
  obtain st tr where m: "?m (cn_trace c) = (Inr st, tr)" and c1_eq: "cn_trace c1 = tr"
      and st: "ms_pending (apply_parameters ri s) = from_apply_status st"
    using c1(1) last assms(2-4)
    by (auto simp: apply_parameters_def on_connection_def drop_connection_def
        split: prod.splits sum.splits dest!: io_timeout_Inr)
  have applied: "limit_applied p (new_sv rtg w_sf) pct_sf (communicated ?m (cn_trace c)) \<and>
      (p_w_set p = None \<or> p_w_set_pct p \<noteq> None \<longrightarrow> \<not> deferred st)"
    using export_limit_reaches_device [where m = ?mute,
        OF device_rating_mute [OF assms(6)] assms(7,8) _ _ assms(5,11-14), of "cn_trace c" st tr]
      m same assms(9,10) by (simp add: communicated_def)
  have silent: "\<forall>op \<in> set (communicated ?m (cn_trace c) @ reads).
      is_read op \<or> writes_704 (limit_points @ set_points) op"
    using emits_communicated [OF emits_pending_retry] c1(3) by (fastforce simp: list_all_iff)
  show ?thesis
    using applied silent limit_applied_reads [OF c1(3)] pending_trace [of "cn_device c" p True "cn_trace c"]
      m c1(2,4) c1_eq st
    by (intro exI [of _ "communicated ?m (cn_trace c) @ reads"]) (simp add: from_apply_status_def)
qed

section \<open>Witnesses\<close>

text \<open>A device with the models 702 and 704 whose rating can only be read from its fourth operation on.\<close>

definition empty_702 :: model_702 where
  "empty_702 =
    \<lparr> m702_w_max_rtg = None, m702_w_ovr_ext_rtg = None, m702_w_ovr_ext_rtg_pf = None,
      m702_w_und_ext_rtg = None, m702_w_und_ext_rtg_pf = None, m702_va_max_rtg = None,
      m702_var_max_inj_rtg = None, m702_var_max_abs_rtg = None, m702_w_cha_rte_max_rtg = None,
      m702_va_cha_rte_max_rtg = None, m702_v_nom_rtg = None, m702_v_max_rtg = None,
      m702_v_min_rtg = None, m702_ctrl_modes = None, m702_react_suscept_rtg = None, m702_w_sf = None,
      m702_pf_sf = None, m702_va_sf = None, m702_var_sf = None, m702_v_sf = None, m702_s_sf = None \<rparr>"

definition waking_device :: device where
  "waking_device = (example_device True)
    \<lparr> dv_supported := (\<lambda>n. n = 702 \<or> n = 704), dv_702 := (\<lambda>_. Some empty_702),
      dv_read_opt := (\<lambda>tr p. Some
        (if p = Pt 702 ''W_MAX_RTG'' then (if length tr < 3 then None else Some 500)
         else if p = Pt 702 ''W_SF'' then Some 1 else Some (- 1))) \<rparr>"

definition example_round :: "received \<Rightarrow> round_input" where
  "example_round r =
    \<lparr> ri_received = r, ri_connect = Some waking_device, ri_connect_limit = None, ri_send_limit = None,
      ri_poll_limit = None, ri_now = 0, ri_after_poll = 0, ri_listening = True \<rparr>"

text \<open>After the first iteration the limit is pending; it was not derived and nothing was written.\<close>

definition example_connected :: modbus_state where
  "example_connected =
    \<lparr> ms_device_opt = Some \<lparr>cn_device = waking_device,
        cn_trace = [ReadModel 1, ReadModel 702, ReadPoint (Pt 702 ''W_MAX_RTG'')]\<rparr>,
      ms_parameters = Some example_limit, ms_last_sent = Some example_limit,
      ms_pending = Model704LimitDerivations, ms_last_poll = 0 \<rparr>"

lemmas io_eval = io_bind_def io_then_def io_return_def read_opt_def read_req_def write_op_def write_point_def
  write_if_some_def write_rescaled_if_some_def write_offset_if_some_def read_model_def read_model1_def
  read_model_safe_def capabilities_query_def establish_connection_def

lemma waking_device_simps [simp]:
  "dv_supported waking_device n \<longleftrightarrow> n = 702 \<or> n = 704" "dv_702 waking_device tr = Some empty_702"
  "dv_accepts waking_device tr op" "dv_model1 waking_device tr"
  "dv_read_opt waking_device tr p = Some
     (if p = Pt 702 ''W_MAX_RTG'' then (if length tr < 3 then None else Some 500)
      else if p = Pt 702 ''W_SF'' then Some 1 else Some (- 1))"
  by (simp_all add: waking_device_def example_device_def)

lemma example_limit_simps:
  "p_w_max_lim example_limit = Some (new_sv 1500 0)" "p_w_set example_limit = None"
  "p_w_set_pct example_limit = None" "p_w_max_lim_pct example_limit = None"
  "p_w_max_lim_pct_ena example_limit = Some Disabled" "p_w_set_ena example_limit = None"
  "p_w_set_mod example_limit = None" "\<not> p_w_set_is_import_site_limit example_limit"
  by (simp_all add: example_limit_def default_parameters_def)

lemma example_others:
  "send_model704_power_factors d example_limit = io_return ()"
  "send_model704_fixed_var d example_limit = io_return ()"
  by (simp_all add: send_model704_power_factors_def send_model704_fixed_var_def example_limit_def
      default_parameters_def write_if_some_def write_offset_if_some_def io_then_return)

lemma example_pending:
  "send_model704_pending_limit_derivations waking_device example_limit False [ReadModel 1, ReadModel 702] =
     (Inr \<lparr>deferred = True\<rparr>, [ReadModel 1, ReadModel 702, ReadPoint (Pt 702 ''W_MAX_RTG'')])"
  by (simp add: send_model704_pending_limit_derivations_def read_w_max_rtg_def needs_w_max_rtg_def
      send_w_max_lim_def send_w_set_def read_sf_if_def example_limit_simps io_eval w_set_pct_of.simps)

lemma example_sent:
  "send_new_parameters waking_device example_limit [ReadModel 1, ReadModel 702] =
     (Inr \<lparr>deferred = True\<rparr>, [ReadModel 1, ReadModel 702, ReadPoint (Pt 702 ''W_MAX_RTG'')])"
  by (simp add: send_new_parameters_def send_model703_parameters_def send_model704_parameters_def
      send_model705_parameters_def send_model706_parameters_def send_model707_parameters_def
      send_model708_parameters_def send_model709_parameters_def send_model710_parameters_def
      send_model711_parameters_def send_trip_model_def model707_def model708_def model709_def model710_def
      example_others example_pending io_then_return io_bind_def io_then_def io_return_def
      del: One_nat_def)

lemma example_first_round:
  "task_round (example_round (Received (UpdateParameters example_limit))) (initial_modbus 0) =
     Running example_connected [DeviceConnected, CapabilitiesPolled (capabilities_from_702 empty_702)]"
proof -
  have "establish_connection waking_device [] =
      (Inr (Some (capabilities_from_702 empty_702)), [ReadModel 1, ReadModel 702])"
    by (simp add: establish_connection_def capabilities_query_def read_model1_def read_model_def
        read_model_safe_def io_bind_def io_then_def io_return_def del: One_nat_def)
  then show ?thesis
    by (simp add: task_round_def connect_device_def apply_parameters_def poll_device_def on_connection_def
        initial_modbus_def example_round_def io_timeout_def example_sent example_connected_def
        from_apply_status_def MIN_POLL_PERIOD_def del: One_nat_def)
qed

lemma example_connected_reachable: "modbus_reachable example_connected"
  using modbus_step [OF modbus_start example_first_round] .

theorem device_holds_newest_parameters_witness:
  "\<exists>st. applied_on waking_device example_limit st (cn_trace (the (ms_device_opt example_connected))) \<and> deferred st"
  using device_holds_newest_parameters [OF example_connected_reachable]
  by (fastforce simp: example_connected_def)

theorem deferred_limit_applied_witness:
  "\<exists>s' evs c' ops. task_round (example_round TimerElapsed) example_connected = Running s' evs \<and>
     ms_device_opt s' = Some c' \<and> limit_applied example_limit (new_sv 500 1) (- 1) ops \<and>
     cn_trace c' = cn_trace (the (ms_device_opt example_connected)) @ ops"
proof -
  let ?c = "\<lparr>cn_device = waking_device, cn_trace = [ReadModel 1, ReadModel 702, ReadPoint (Pt 702 ''W_MAX_RTG'')]\<rparr>"
  let ?m = "send_model704_pending_limit_derivations waking_device example_limit True"
  have "op_ok waking_device tr op" for tr op by (cases op) (simp_all add: waking_device_def example_device_def)
  then obtain st tr where m: "?m (cn_trace ?c) = (Inr st, tr)"
    using stops_succeeds [OF stops_pending] by blast
  let ?c' = "\<lparr>cn_device = waking_device, cn_trace = tr\<rparr>"
  let ?s' = "example_connected\<lparr>ms_device_opt := Some ?c', ms_pending := from_apply_status st\<rparr>"
  have round: "task_round (example_round TimerElapsed) example_connected = Running ?s' []"
    using m by (simp add: task_round_def connect_device_def apply_parameters_def poll_device_def on_connection_def
        example_round_def io_timeout_def example_connected_def MIN_POLL_PERIOD_def)
  have "rated_from waking_device (cn_trace ?c) 500 1 (- 1)"
    by (auto simp: rated_from_def sf_or_default_def)
  with deferred_limit_applied [OF example_connected_reachable _ _ _ _ _ _ _ _ _ _ _ _ _ _ round,
      of ?c example_limit "new_sv 1500 0" 500 1 "- 1" ?c']
  show ?thesis
    using round
    by (auto simp: example_connected_def example_limit_simps example_round_def int_bounds)
qed

end
