(* ===== verification/Dispatch.thy ===== *)
theory Dispatch
  imports Scheduler_Clock Translation_Params Sep2_Rounds Modbus_Task
begin

text \<open>
  \<^verbatim>\<open>src/dispatch.rs\<close>: the four dispatchers that turn the events of one task into the commands of
  another. Each is a loop that receives an event, sends the commands made of it and ends with
  \<^verbatim>\<open>ChannelClosed\<close> when a channel is closed; what it sends is all that matters to the tasks. On top
  of them stand the properties of the whole: what the polls of the SEP2 task and the parameters of the
  Modbus task have to do with the model of the scheduler.
\<close>

section \<open>The loop of a dispatcher\<close>

text \<open>
  \<open>sends\<close> is the number of commands the receiving task takes before it closes its channel; the
  events are those broadcast before the other channel is closed.
\<close>

fun dispatch_loop :: "('e \<Rightarrow> 'c list) \<Rightarrow> 'e list \<Rightarrow> nat \<Rightarrow> 'c list \<times> sep2_error" where
  "dispatch_loop commands [] sends = ([], ChannelClosed)"
| "dispatch_loop commands (event # events) sends =
    (if length (commands event) \<le> sends then
       (let (sent, err) = dispatch_loop commands events (sends - length (commands event))
        in (commands event @ sent, err))
     else (take sends (commands event), ChannelClosed))"

lemma dispatch_loop_eq:
  "dispatch_loop commands events sends = (take sends (concat (map commands events)), ChannelClosed)"
  by (induction events arbitrary: sends) simp_all

section \<open>The commands made of an event\<close>

definition resource_update_commands :: "sep2_resource_event \<Rightarrow> command list" where
  "resource_update_commands event = [ResourceUpdated event]"

definition resource_update_dispatcher :: "sep2_resource_event list \<Rightarrow> nat \<Rightarrow> command list \<times> sep2_error" where
  "resource_update_dispatcher = dispatch_loop resource_update_commands"

text \<open>An event of the scheduler comes with the time at which it is dispatched.\<close>

fun subscription_commands :: "int \<times> event \<Rightarrow> conn_command list" where
  "subscription_commands (now, LinkAddedOrUpdated href kind poll_rate) =
     [SubscribeToResource href kind poll_rate]"
| "subscription_commands (now, LinkRemoved href kind) = [UnsubscribeFromResource href]"
| "subscription_commands (now, DERControlStatusChanged subject status reply_to) =
     [SendControlResponse \<lparr>cr_subject = subject, cr_status = status, cr_reply_to = reply_to, cr_time = now\<rparr>]"
| "subscription_commands (now, PostRatesChanged post_rates) = [UpdatePostRates post_rates]"
| "subscription_commands (now, ParametersChanged _) = []"

definition sep2_subscription_and_notification_dispatcher ::
  "(int \<times> event) list \<Rightarrow> nat \<Rightarrow> conn_command list \<times> sep2_error" where
  "sep2_subscription_and_notification_dispatcher = dispatch_loop subscription_commands"

fun control_change_commands :: "bool \<Rightarrow> event \<Rightarrow> modbus_command list" where
  "control_change_commands site_limits (ParametersChanged control_attributes) =
     (case to_parameters site_limits control_attributes of
        Inr modbus_parameters \<Rightarrow> [UpdateParameters modbus_parameters]
      | Inl err \<Rightarrow> [])"
| "control_change_commands site_limits (LinkAddedOrUpdated _ _ _) = []"
| "control_change_commands site_limits (LinkRemoved _ _) = []"
| "control_change_commands site_limits (DERControlStatusChanged _ _ _) = []"
| "control_change_commands site_limits (PostRatesChanged _) = []"

definition control_change_dispatcher :: "bool \<Rightarrow> event list \<Rightarrow> nat \<Rightarrow> modbus_command list \<times> sep2_error" where
  "control_change_dispatcher site_limits = dispatch_loop (control_change_commands site_limits)"

text \<open>
  An event of the Modbus task comes with the clock of its translation: the status reads it up to four
  times, the settings and the meter readings once each.
\<close>

fun device_state_commands :: "(nat \<Rightarrow> int) \<times> modbus_event \<Rightarrow> conn_command list" where
  "device_state_commands (clock, CapabilitiesPolled cap) =
     (case to_der_capability cap of
        Inr der_capability \<Rightarrow> [SendDeviceCapability der_capability]
      | Inl err \<Rightarrow> [])"
| "device_state_commands (clock, StatePolled status settings metering) =
     (case status of
        None \<Rightarrow> []
      | Some status \<Rightarrow>
          (case to_der_status clock status of
             Inr der_status \<Rightarrow> [SendDeviceStatus der_status]
           | Inl err \<Rightarrow> [])) @
     (case settings of
        None \<Rightarrow> []
      | Some settings \<Rightarrow>
          (case to_der_settings (clock 4) settings of
             Inr der_settings \<Rightarrow> [SendDeviceSettings der_settings]
           | Inl err \<Rightarrow> [])) @
     (case metering of
        None \<Rightarrow> []
      | Some metering \<Rightarrow>
          (case to_meter_readings (clock 5) metering of
             Inr meter_readings \<Rightarrow> [SendMeterReadings meter_readings]
           | Inl err \<Rightarrow> []))"
| "device_state_commands (clock, DeviceConnected) = []"

definition sep2_device_state_dispatcher ::
  "((nat \<Rightarrow> int) \<times> modbus_event) list \<Rightarrow> nat \<Rightarrow> conn_command list \<times> sep2_error" where
  "sep2_device_state_dispatcher = dispatch_loop device_state_commands"

section \<open>The links the scheduler announces\<close>

text \<open>
  The scheduler starts from the model it has persisted, of which nobody was told anything. What a
  consumer tracks lies within the links of the model, and is all of them once the scheduler was asked
  to announce what it knows; without \<open>strict\<close>, up to the rate of a mirror usage point list.
\<close>

fun input_ok :: "bool \<Rightarrow> scheduler_state \<Rightarrow> scheduler_input \<Rightarrow> bool" where
  "input_ok strict s (Handle e now (ResourceUpdated u)) \<longleftrightarrow> update_ok strict (ss_model s) u"
| "input_ok strict s _ \<longleftrightarrow> True"

abbreviation scheduler_inputs_ok :: "bool \<Rightarrow> lfdi \<Rightarrow> scheduler_input list \<Rightarrow> scheduler_state \<Rightarrow> bool" where
  "scheduler_inputs_ok strict \<equiv> inputs_ok (input_ok strict)"

fun is_refresh :: "scheduler_input \<Rightarrow> bool" where
  "is_refresh (Handle e now RefreshActiveResources) \<longleftrightarrow> True"
| "is_refresh _ \<longleftrightarrow> False"

text \<open>The invariant: the links are sound, and what sleeps emits responses only.\<close>

definition links_within :: "bool \<Rightarrow> (href \<rightharpoonup> link_data) \<Rightarrow> (href \<rightharpoonup> link_data) \<Rightarrow> bool" where
  "links_within strict t links \<longleftrightarrow> (\<forall>h. t h = None \<or> rel_option (rates_agree strict) (t h) (links h))"

lemma links_within_agree:
  "links_within strict t links \<Longrightarrow> links_agree strict links links' \<Longrightarrow> links_within strict t links'"
  unfolding links_within_def links_agree_def using rel_rates_trans by blast

lemma agree_within: "links_agree strict t links \<Longrightarrow> links_within strict t links"
  by (simp add: links_agree_def links_within_def)

definition links_tracked :: "bool \<Rightarrow> scheduler_state \<Rightarrow> (href \<rightharpoonup> link_data) \<Rightarrow> bool \<Rightarrow> bool" where
  "links_tracked strict s t announced \<longleftrightarrow>
    links_ok strict (ss_model s) \<and> links_within strict t (map_of (resource_links (ss_model s))) \<and>
    (announced \<longrightarrow> links_agree strict t (map_of (resource_links (ss_model s)))) \<and>
    (case ss_wait_task s of None \<Rightarrow> True | Some (_, es) \<Rightarrow> \<forall>x \<in> set es. is_status_event x)"

fun is_link_event :: "event \<Rightarrow> bool" where
  "is_link_event (LinkAddedOrUpdated _ _ _) \<longleftrightarrow> True"
| "is_link_event (LinkRemoved _ _) \<longleftrightarrow> True"
| "is_link_event _ \<longleftrightarrow> False"

lemma track_no_links: "\<forall>x \<in> set es. \<not> is_link_event x \<Longrightarrow> fold track_link es t = t"
proof (induction es arbitrary: t)
  case (Cons x es)
  then show ?case by (cases x) simp_all
qed simp

lemma status_no_link: "is_status_event x \<Longrightarrow> \<not> is_link_event x"
  by (cases x) simp_all

lemma next_events_status:
  "\<forall>x \<in> set (snd (calc_next_schedule_time m lfdi now)). is_status_event x"
proof -
  have "is_status_event ev" if "(t, Some ev) \<in> set (all_future_events cs now)" for t ev cs
    using that by (auto simp: in_all_future_events response_event_def map_option_case split: option.splits)
  then show ?thesis
    by (force simp: calc_next_schedule_time_def calc_next_schedule_time_for_controls_def Let_def
        in_set_map_filter)
qed

lemma track_update_within:
  assumes "apply_update e u m = Some (m', es)" "update_ok strict m u" "links_ok strict m"
    and "links_within strict t (map_of (resource_links m))"
  shows "links_within strict (fold track_link es t) (map_of (resource_links m'))"
proof -
  obtain post where post: "links_agree strict post (map_of (resource_links m'))"
    and fold: "fold track_link es t = (\<lambda>h. if map_of (resource_links m) h = post h then t h else post h)"
    using track_update_difference [OF assms(1-3)] by metis
  have "links_within strict (fold track_link es t) post"
    unfolding fold links_within_def
  proof
    fix h
    let ?t = "if map_of (resource_links m) h = post h then t h else post h"
    show "?t = None \<or> rel_option (rates_agree strict) ?t (post h)"
      using assms(4) [unfolded links_within_def, THEN spec [of _ h]]
      by (cases "map_of (resource_links m) h = post h") (simp_all add: option.rel_refl)
  qed
  then show ?thesis using post by (rule links_within_agree)
qed

lemma handle_command_links:
  assumes "handle_command e now lfdi cmd s = Some (s', es)" "input_ok strict s (Handle e now cmd)"
    and "links_tracked strict s t announced"
  shows "links_tracked strict s' (fold track_link es t) (announced \<or> cmd = RefreshActiveResources)"
proof -
  from assms(1) obtain m' es1 s1 es2 s2 es3 where cmd: "apply_command e cmd (ss_model s) = Some (m', es1)"
    and u1: "update_post_rates lfdi (s\<lparr>ss_model := m'\<rparr>) = (s1, es2)"
    and u2: "update_parameters lfdi now s1 = (s2, es3)"
    and s': "s' = update_wait_task lfdi now s2" and es: "es = es1 @ es2 @ es3"
    by (rule handle_command_Some)
  have model: "ss_model s' = m'" using update_values(1) [OF u1 u2] by (simp add: s')
  have "\<forall>x \<in> set (es2 @ es3). \<not> is_link_event x"
    using u1 u2 by (auto simp: update_post_rates_def update_parameters_def Let_def split: if_splits)
  from track_no_links [OF this] have fold: "fold track_link es t = fold track_link es1 t"
    by (simp add: es)
  have wait: "case ss_wait_task s' of None \<Rightarrow> True | Some (_, es) \<Rightarrow> \<forall>x \<in> set es. is_status_event x"
    using assms(3) handle_command_state(4) [OF assms(1)] next_events_status [of "ss_model s'" lfdi now]
    by (cases "calc_next_schedule_time (ss_model s') lfdi now") (auto simp: links_tracked_def split: if_splits)
  note before = assms(3) [unfolded links_tracked_def]
  have "links_ok strict m' \<and> links_within strict (fold track_link es1 t) (map_of (resource_links m')) \<and>
      (announced \<or> cmd = RefreshActiveResources \<longrightarrow>
        links_agree strict (fold track_link es1 t) (map_of (resource_links m')))"
  proof (cases cmd)
    case NextSchedule
    with cmd before show ?thesis by (simp add: apply_command_def)
  next
    case (ResourceUpdated u)
    then have update: "apply_update e u (ss_model s) = Some (m', es1)" "update_ok strict (ss_model s) u"
      using cmd assms(2) by (simp_all add: apply_command_def)
    have ok: "links_ok strict (ss_model s)" using before by blast
    then show ?thesis
      using links_ok_apply_update [OF update ok] track_update_within [OF update ok] track_apply_update [OF update ok]
        before ResourceUpdated
      by blast
  next
    case RefreshActiveResources
    then have m': "m' = ss_model s" and es1: "es1 = resource_link_events [] (resource_links m')"
      using cmd by (auto simp: apply_command_def refresh_known_links_def)
    have "fold track_link es1 t = map_of (resource_links m')"
    proof
      fix h
      have "map_of (resource_links m') h = None \<longrightarrow> t h = None"
        using before by (auto simp: m' links_within_def option.rel_sel)
      then show "fold track_link es1 t h = map_of (resource_links m') h"
        unfolding es1 by (auto simp: track_link_difference)
    qed
    then show ?thesis using before by (simp add: m' agree_within)
  qed
  with wait show ?thesis by (simp add: links_tracked_def model fold)
qed

lemma scheduler_action_links:
  assumes "scheduler_action s = (s', es, w)" "links_tracked strict s t announced"
  shows "links_tracked strict s' (fold track_link es t) announced"
proof -
  have "\<forall>x \<in> set es. is_status_event x"
    using assms by (auto simp: scheduler_action_def scheduler_action_task_def links_tracked_def
        split: option.splits prod.splits)
  then have "fold track_link es t = t" by (intro track_no_links) (auto dest: status_no_link)
  with assms show ?thesis
    by (auto simp: scheduler_action_def scheduler_action_task_def links_tracked_def
        split: option.splits prod.splits)
qed

definition links_kept ::
  "bool \<Rightarrow> scheduler_state \<Rightarrow> scheduler_input list \<Rightarrow> event list \<Rightarrow> scheduler_state \<Rightarrow> bool" where
  "links_kept strict s xs es s' \<longleftrightarrow> (\<forall>t announced. links_tracked strict s t announced \<longrightarrow>
    links_tracked strict s' (fold track_link es t) (announced \<or> (\<exists>x \<in> set xs. is_refresh x)))"

interpretation links: scheduler_consumer lfdi "input_ok strict" "links_kept strict" for lfdi strict
proof
  show "links_kept strict s [] [] s" for s by (simp add: links_kept_def)
  show "links_kept strict s (xs @ ys) (es @ es') s''"
    if "links_kept strict s xs es s'" "links_kept strict s' ys es' s''" for s s' s'' xs ys es es'
    unfolding links_kept_def
  proof (intro allI impI)
    fix t announced
    assume "links_tracked strict s t announced"
    then have "links_tracked strict s' (fold track_link es t) (announced \<or> (\<exists>x \<in> set xs. is_refresh x))"
      using that(1) unfolding links_kept_def by blast
    then have "links_tracked strict s'' (fold track_link es' (fold track_link es t))
        ((announced \<or> (\<exists>x \<in> set xs. is_refresh x)) \<or> (\<exists>x \<in> set ys. is_refresh x))"
      using that(2) unfolding links_kept_def by blast
    then show "links_tracked strict s'' (fold track_link (es @ es') t)
        (announced \<or> (\<exists>x \<in> set (xs @ ys). is_refresh x))"
      by (simp add: bex_Un disj_assoc)
  qed
  show "links_kept strict s [Handle e now cmd] es s'"
    if "handle_command e now lfdi cmd s = Some (s', es)" "input_ok strict s (Handle e now cmd)"
    for e now cmd s s' es
  proof -
    have "is_refresh (Handle e now cmd) \<longleftrightarrow> cmd = RefreshActiveResources" by (cases cmd) auto
    then show ?thesis using handle_command_links [OF that] by (simp add: links_kept_def)
  qed
  show "links_kept strict s [WakeUp] es s'" if "scheduler_action s = (s', es, w)" for s s' es w
    using scheduler_action_links [OF that] by (simp add: links_kept_def)
qed

section \<open>The polls of the SEP2 task\<close>

definition pollable :: "resource_kind \<Rightarrow> bool" where
  "pollable kind \<longleftrightarrow>
    kind \<notin> {EndDevice, FunctionSetAssignments, DERProgram, DERControl, DERCurve}"

lemma start_kind_pollable: "start_kind sv kind = None \<longleftrightarrow> \<not> pollable kind"
  by (cases kind) (simp_all add: pollable_def)

text \<open>At which rate each href is polled.\<close>

definition poll_rates :: "(href \<times> established_poll) list \<Rightarrow> href \<rightharpoonup> int" where
  "poll_rates polls href = map_option ep_poll_rate (map_of polls href)"

definition rate_or_default :: "conn_args \<Rightarrow> int option \<Rightarrow> int" where
  "rate_or_default a rate = (case rate of None \<Rightarrow> ca_default_poll_rate a | Some r \<Rightarrow> r)"

fun track_poll :: "conn_args \<Rightarrow> conn_command \<Rightarrow> (href \<rightharpoonup> int) \<Rightarrow> (href \<rightharpoonup> int)" where
  "track_poll a (SubscribeToResource href kind rate) p =
     (if p href \<noteq> None \<or> pollable kind then p(href \<mapsto> rate_or_default a rate) else p)"
| "track_poll a (UnsubscribeFromResource href) p = p(href := None)"
| "track_poll a _ p = p"

lemma subscribe_polls:
  assumes "subscribe a sv href kind rate (s, tr) = (s', tr')"
  shows "poll_rates (cs_polls s') = track_poll a (SubscribeToResource href kind rate) (poll_rates (cs_polls s))"
proof (cases "map_of (cs_polls s) href")
  case None
  obtain p tr1 where start: "start_poll_for sv kind href (rate_or_default a rate) (ca_max_list_size a) tr = (p, tr1)"
    by (metis prod.exhaust)
  have "p = None \<longleftrightarrow> \<not> pollable kind"
    using start start_kind_pollable [of sv kind] by (auto simp: start_poll_for_def Let_def split: option.splits)
  with assms None start show ?thesis
    by (cases p) (auto simp: subscribe_def Let_def rate_or_default_def poll_rates_def fun_eq_iff
        dest: start_poll_handle)
next
  case (Some poll)
  with assms show ?thesis
    by (auto simp: subscribe_def Let_def rate_or_default_def poll_rates_def fun_eq_iff split: if_splits)
qed

lemma unsubscribe_polls:
  "unsubscribe href (s, tr) = (s', tr') \<Longrightarrow> hm_ok (cs_polls s) \<Longrightarrow>
     poll_rates (cs_polls s') = track_poll a (UnsubscribeFromResource href) (poll_rates (cs_polls s))"
  by (auto simp: unsubscribe_def poll_rates_def fun_eq_iff map_of_hm_retain split: option.splits)

definition same_polls :: "conn_state \<Rightarrow> conn_action list \<Rightarrow> conn_action list \<Rightarrow> conn_state \<Rightarrow> bool" where
  "same_polls s tr acts s' \<longleftrightarrow> cs_polls s' = cs_polls s"

interpretation polls: round_relation same_polls
  by unfold_locales (simp_all add: same_polls_def)

lemma quiet_same_polls: "quiet s tr acts s' \<Longrightarrow> same_polls s tr acts s'"
  by (simp add: quiet_def same_outbox_def same_polls_def)

lemma upload_stages_polls:
  "holds_of same_polls (put_settings sv)" "holds_of same_polls (put_status sv)"
  "holds_of same_polls (put_capabilities sv)" "holds_of same_polls (post_readings a sv)"
proof -
  show "holds_of same_polls (put_settings sv)" "holds_of same_polls (put_status sv)"
    "holds_of same_polls (put_capabilities sv)"
    by (rule holds_ofI; auto simp: put_settings_def put_status_def put_capabilities_def put_def same_polls_def
        split: option.splits sum.splits if_splits)+
  show "holds_of same_polls (post_readings a sv)"
    by (rule holds_ofI)
      (auto simp: post_readings_def same_polls_def dest!: send_meter_readings_keyed
        split: option.splits prod.splits if_splits bool.splits)
qed

lemma receive_same_polls:
  "\<not> is_poll_command command \<Longrightarrow> holds_of same_polls (receive_conn_command a sv command)"
  by (rule holds_ofI; cases command)
    (auto simp: same_polls_def push_response_def reset_connection_def set_capabilities_def)

lemma command_same_polls:
  "\<not> is_poll_command command \<Longrightarrow> holds_of same_polls (handle_conn_command a sv command)"
  by (intro polls.command_holds receive_same_polls)
    (auto intro: holds_of_weaken [OF _ quiet_same_polls] quiet_stages upload_stages_polls)

lemma track_poll_other: "\<not> is_poll_command command \<Longrightarrow> track_poll a command p = p"
  by (cases command) simp_all

lemma round_polls:
  assumes "conn_round a sv (Some command) s = (ConnRunning s', tr)" "hm_ok (cs_polls s)"
  shows "poll_rates (cs_polls s') = track_poll a command (poll_rates (cs_polls s))"
proof (cases "is_poll_command command")
  case False
  from round_holds [OF assms(1) command_same_polls [OF this]] have "cs_polls s' = cs_polls s"
    by (auto simp: same_polls_def)
  then show ?thesis using False by (simp add: track_poll_other)
next
  case True
  obtain s0 tr0 where start: "manage_retry (s, []) = (s0, tr0)" by (metis prod.exhaust)
  then have same: "cs_polls s0 = cs_polls s" by (auto simp: manage_retry_eq)
  show ?thesis
    using True assms start same
    by (cases command) (auto simp: conn_round_def handle_conn_command_def andthen_def
        split: prod.splits dest: subscribe_polls unsubscribe_polls [where a = a])
qed

text \<open>The commands a run of the SEP2 task received.\<close>

definition received_commands :: "(server \<times> conn_command option) list \<Rightarrow> conn_command list" where
  "received_commands inputs = List.map_filter snd inputs"

lemma run_polls:
  assumes "conn_run a inputs s = (ConnRunning s', rounds)" "conn_ok a s"
  shows "poll_rates (cs_polls s') =
    fold (track_poll a) (filter is_poll_command (received_commands inputs)) (poll_rates (cs_polls s))"
  using assms
proof (induction rule: running_induct)
  case Nil
  show ?case by (simp add: received_commands_def map_filter_simps)
next
  case (Round sv command inputs s s1 tr rounds)
  have ok: "conn_ok a s1"
    using round_holds [OF Round(1) command_ok] Round.prems by (auto simp: stays_ok_def)
  have "hm_ok (cs_polls s)" using Round.prems by (simp add: conn_ok_def polls_ok_def)
  with Round.IH [OF ok] round_polls [OF Round(1)] show ?case
    by (simp add: received_commands_def map_filter_simps track_poll_other)
qed

lemma initial_polls [simp]: "poll_rates (cs_polls initial_conn) = Map.empty"
  by (simp add: initial_conn_def poll_rates_def fun_eq_iff)

text \<open>
  Subscriptions made of link events, against the links tracked from the same events. A link that is
  polled has the rate last announced; a link of a kind that can be polled is polled; and nothing is polled
  but what was announced once with such a kind, the hrefs in \<open>K\<close>.
\<close>

definition polls_match :: "conn_args \<Rightarrow> href set \<Rightarrow> (href \<rightharpoonup> link_data) \<Rightarrow> (href \<rightharpoonup> int) \<Rightarrow> bool" where
  "polls_match a K t p \<longleftrightarrow> (\<forall>h. (p h \<noteq> None \<longrightarrow> t h \<noteq> None \<and> h \<in> K) \<and>
    (\<forall>l. t h = Some l \<longrightarrow> (pollable (rl_kind l) \<longrightarrow> p h \<noteq> None) \<and>
       (\<forall>r. p h = Some r \<longrightarrow> r = rate_or_default a (rl_poll_rate l))))"

definition announced_pollable :: "event list \<Rightarrow> href set" where
  "announced_pollable es = {h. \<exists>k r. LinkAddedOrUpdated h k r \<in> set es \<and> pollable k}"

lemma fold_polls_match:
  assumes "announced_pollable (map snd es) \<subseteq> K" "polls_match a K t p"
  shows "polls_match a K (fold track_link (map snd es) t)
    (fold (track_poll a) (filter is_poll_command (concat (map subscription_commands es))) p)"
  using assms
proof (induction es arbitrary: t p)
  case Nil
  then show ?case by simp
next
  case (Cons e es)
  obtain now ev where e: "e = (now, ev)" by (cases e)
  have "polls_match a K (track_link ev t)
      (fold (track_poll a) (filter is_poll_command (subscription_commands e)) p)"
  proof (cases ev)
    case (LinkAddedOrUpdated h k r)
    with Cons.prems(1) e have "pollable k \<Longrightarrow> h \<in> K" by (auto simp: announced_pollable_def)
    then show ?thesis
      using Cons.prems(2) e LinkAddedOrUpdated
      by (auto simp: polls_match_def split: if_splits)
  qed (use Cons.prems(2) e in \<open>auto simp: polls_match_def\<close>)
  moreover have "announced_pollable (map snd es) \<subseteq> K"
    using Cons.prems(1) by (auto simp: announced_pollable_def)
  ultimately show ?case using Cons.IH [of "track_link ev t"] e by simp
qed

section \<open>The parameters of the Modbus task\<close>

fun modbus_run :: "round_input list \<Rightarrow> modbus_state \<Rightarrow> modbus_state option" where
  "modbus_run [] s = Some s"
| "modbus_run (ri # inputs) s =
    (case task_round ri s of Running s' evs \<Rightarrow> modbus_run inputs s' | _ \<Rightarrow> None)"

fun command_of :: "received \<Rightarrow> modbus_command option" where
  "command_of (Received c) = Some c"
| "command_of _ = None"

text \<open>The commands a run of the Modbus task received.\<close>

definition received_parameters :: "round_input list \<Rightarrow> modbus_command list" where
  "received_parameters inputs = List.map_filter (\<lambda>ri. command_of (ri_received ri)) inputs"

fun take_parameters :: "modbus_command \<Rightarrow> parameters option \<Rightarrow> parameters option" where
  "take_parameters (UpdateParameters p) _ = Some p"

lemma on_connection_parameters:
  "(\<And>x s. ms_parameters (k x s) = ms_parameters s) \<Longrightarrow>
     ms_parameters (on_connection s c limit m k) = ms_parameters s"
  by (auto simp: on_connection_def drop_connection_def split: prod.splits sum.splits)

lemma task_round_parameters:
  assumes "task_round ri s = Running s' evs"
  shows "ms_parameters s' = (case command_of (ri_received ri) of
    None \<Rightarrow> ms_parameters s | Some c \<Rightarrow> take_parameters c (ms_parameters s))"
proof -
  obtain s1 s2 e1 e2 where s1: "receive_command (ri_received ri) s = Some s1"
    and s2: "connect_device ri s1 = Running s2 e1" and s': "poll_device ri (apply_parameters ri s2) = Running s' e2"
    using assms by (rule task_round_Running)
  have "ms_parameters s' = ms_parameters (apply_parameters ri s2)"
    using s' by (auto simp: poll_device_def drop_connection_def split: option.splits prod.splits sum.splits if_splits)
  also have "\<dots> = ms_parameters s2"
    by (auto simp: apply_parameters_def on_connection_parameters split: option.splits)
  also have "\<dots> = ms_parameters s1"
    using s2 by (auto simp: connect_device_def drop_connection_def split: option.splits prod.splits sum.splits if_splits)
  also have "\<dots> = (case command_of (ri_received ri) of
      None \<Rightarrow> ms_parameters s | Some c \<Rightarrow> take_parameters c (ms_parameters s))"
    using s1 by (cases "(ri_received ri, s)" rule: receive_command.cases) auto
  finally show ?thesis .
qed

lemma modbus_run_parameters:
  assumes "modbus_run inputs s = Some s'" "modbus_reachable s"
  shows "modbus_reachable s' \<and> ms_parameters s' = fold take_parameters (received_parameters inputs) (ms_parameters s)"
  using assms
proof (induction inputs arbitrary: s)
  case Nil
  then show ?case by (simp add: received_parameters_def map_filter_simps)
next
  case (Cons ri inputs)
  then obtain s1 evs where step: "task_round ri s = Running s1 evs" and rest: "modbus_run inputs s1 = Some s'"
    by (auto split: round_result.splits)
  from Cons.IH [OF rest modbus_step [OF Cons.prems(2) step]] task_round_parameters [OF step]
  show ?case by (auto simp: received_parameters_def map_filter_simps split: option.splits)
qed

section \<open>Properties of the whole\<close>


section \<open>The device\<close>

text \<open>The parameters last announced that can be translated.\<close>

fun announce :: "bool \<Rightarrow> event \<Rightarrow> parameters option \<Rightarrow> parameters option" where
  "announce site_limits (ParametersChanged q) p =
     (case to_parameters site_limits q of Inr p' \<Rightarrow> Some p' | Inl err \<Rightarrow> p)"
| "announce site_limits _ p = p"

definition announced_parameters :: "bool \<Rightarrow> event list \<Rightarrow> parameters option" where
  "announced_parameters site_limits es = fold (announce site_limits) es None"

fun is_parameters_event :: "event \<Rightarrow> bool" where
  "is_parameters_event (ParametersChanged _) \<longleftrightarrow> True"
| "is_parameters_event _ \<longleftrightarrow> False"

lemma take_announced:
  "fold take_parameters (concat (map (control_change_commands site_limits) es)) p = fold (announce site_limits) es p"
proof (induction es arbitrary: p)
  case (Cons e es)
  then show ?case by (cases e) (auto split: sum.split)
qed simp

lemma take_parameters_None: "fold take_parameters cs p = None \<longleftrightarrow> cs = [] \<and> p = None"
proof (induction cs arbitrary: p)
  case (Cons c cs)
  then show ?case by (cases c) simp
qed simp

lemma announced_last:
  assumes "fold track_parameters es p = q" "to_parameters site_limits q = Inr p'" "\<exists>e \<in> set es. is_parameters_event e"
  shows "fold (announce site_limits) es r = Some p'"
  using assms
proof (induction es rule: rev_induct)
  case (snoc e es)
  then show ?case by (cases e) auto
qed simp

lemma nothing_announced:
  "\<forall>e \<in> set es. \<not> is_parameters_event e \<Longrightarrow> fold track_parameters es p = p"
proof (induction es arbitrary: p)
  case (Cons e es)
  then show ?case by (cases e) simp_all
qed simp

text \<open>As long as no parameters were received, the device is only read.\<close>

definition only_read :: "modbus_state \<Rightarrow> bool" where
  "only_read s \<longleftrightarrow> (ms_parameters s = None \<longrightarrow> (\<forall>c. ms_device_opt s = Some c \<longrightarrow> list_all is_read (cn_trace c)))"

lemma establish_reads: "establish_connection d tr = (r, tr') \<Longrightarrow> \<exists>reads. tr' = tr @ reads \<and> list_all is_read reads"
proof -
  have "emits is_read (establish_connection d)"
    unfolding establish_connection_def read_model1_def capabilities_query_def
    by (intro emits_then emits_bind emits_return emits_read_model emits_read_model_safe)
  then show "establish_connection d tr = (r, tr') \<Longrightarrow> \<exists>reads. tr' = tr @ reads \<and> list_all is_read reads"
    unfolding emits_def list_all_iff by (metis snd_conv)
qed

lemma task_round_only_read:
  assumes "task_round ri s = Running s' evs" "only_read s"
  shows "only_read s'"
proof -
  obtain s1 s2 e1 e2 where s1: "receive_command (ri_received ri) s = Some s1"
    and s2: "connect_device ri s1 = Running s2 e1" and s': "poll_device ri (apply_parameters ri s2) = Running s' e2"
    using assms(1) by (rule task_round_Running)
  have "only_read s1" using s1 assms(2) by (cases "(ri_received ri, s)" rule: receive_command.cases) (auto simp: only_read_def)
  then have "only_read s2"
    using s2 by (fastforce simp: connect_device_def drop_connection_def only_read_def
        split: option.splits prod.splits sum.splits if_splits dest!: io_timeout_Inr establish_reads)
  moreover have "ms_parameters s' = ms_parameters (apply_parameters ri s2)"
    using s' by (auto simp: poll_device_def drop_connection_def split: option.splits prod.splits sum.splits if_splits)
  moreover have "ms_parameters (apply_parameters ri s2) = ms_parameters s2"
    by (auto simp: apply_parameters_def on_connection_parameters split: option.splits)
  moreover have "apply_parameters ri s2 = s2" if "ms_parameters s2 = None"
    using that by (simp add: apply_parameters_def split: option.split)
  moreover have "\<exists>c0 reads. ms_device_opt (apply_parameters ri s2) = Some c0 \<and> cn_trace c = cn_trace c0 @ reads \<and>
      list_all is_read reads" if "ms_device_opt s' = Some c" for c
    using poll_device_frame [OF s' that] by metis
  ultimately show ?thesis unfolding only_read_def by (metis list_all_append)
qed

lemma modbus_run_only_read: "modbus_run inputs s = Some s' \<Longrightarrow> only_read s \<Longrightarrow> only_read s'"
  by (induction inputs arbitrary: s) (auto dest: task_round_only_read split: round_result.splits)

text \<open>
  C9: from the resources of the server to the registers of the device. Let the scheduler run on a steady clock,
  and let the commands made of its events have reached the Modbus task in order. Then a connected device
  holds the parameters last announced that can be translated: they were completely sent on its
  connection, and nothing followed but polls and retries of deferred limits. If none were, the device has
  only been read. What was announced is right at each instant \<open>t\<close> until the sleeping task is due: if
  parameters were ever announced in this run, and those that follow from the scheduler's model at \<open>t\<close> can
  be translated, the device holds their translation, be they a limit or the release of all limits. If
  none were ever announced, the parameters at \<open>t\<close> are the empty ones, and the device is left as it was
  when the program started.
\<close>

theorem device_follows_model:
  assumes "steady_run lfdi m (inputs @ [Handle e now cmd]) clock s es"
    and "now \<le> t" "t \<le> max_utc" "\<forall>next evs. ss_wait_task s = Some (Some next, evs) \<longrightarrow> t < next"
    and "received_parameters rounds = fst (control_change_dispatcher site_limits es sends)"
    and "length (concat (map (control_change_commands site_limits) es)) \<le> sends"
    and "modbus_run rounds (initial_modbus t0) = Some ms" "ms_device_opt ms = Some c"
    and "q = calc_parameters (ss_model s) lfdi t"
  shows "(case announced_parameters site_limits es of
       None \<Rightarrow> list_all is_read (cn_trace c)
     | Some p \<Rightarrow> \<exists>st. applied_on (cn_device c) p st (cn_trace c)) \<and>
    (if \<exists>e \<in> set es. is_parameters_event e
     then \<forall>p. to_parameters site_limits q = Inr p \<longrightarrow> announced_parameters site_limits es = Some p
     else q = default_control_attributes)"
proof -
  have q: "fold track_parameters es default_control_attributes = q"
    using handled_asleep(4) [OF assms(1)] parameters_until [OF handled_quiet [OF assms(1-4)]] by (simp add: assms(9))
  have "ms_parameters ms = announced_parameters site_limits es" and reach: "modbus_reachable ms"
    using modbus_run_parameters [OF assms(7) modbus_start] assms(5,6)
    by (simp_all add: control_change_dispatcher_def dispatch_loop_eq take_announced announced_parameters_def
        initial_modbus_def)
  moreover have "only_read ms"
    using modbus_run_only_read [OF assms(7)] by (simp add: only_read_def initial_modbus_def)
  ultimately have "case announced_parameters site_limits es of
       None \<Rightarrow> list_all is_read (cn_trace c)
     | Some p \<Rightarrow> \<exists>st. applied_on (cn_device c) p st (cn_trace c)"
    using modbus_ok_reachable [OF reach] assms(8) by (auto simp: modbus_ok_def only_read_def split: option.splits)
  then show ?thesis
    using q announced_last [OF q] nothing_announced [of es default_control_attributes]
    by (auto simp: announced_parameters_def)
qed

end
