(* ===== verification/Persistence.thy ===== *)
theory Persistence
  imports Persisted_Format Dispatch "HOL-Library.Sublist"
begin

text \<open>
  \<^verbatim>\<open>src/scheduler.rs\<close>, the part that keeps the scheduler's model across restarts:
  \<^verbatim>\<open>persist_state\<close> writes it to a temporary file that then replaces the old one, and
  \<^verbatim>\<open>load_persisted_state\<close> reads it when the task starts. What can go wrong on the way is an input;
  what the disk holds at each moment is part of the result, so that a crash or a loss of power at any
  moment can be stated. The text of JSON is made by the package \<^verbatim>\<open>serde_json\<close> and is a parameter.
\<close>

section \<open>Paths and the disk\<close>

datatype component = RootDir | CurDir | ParentDir | Normal string

type_synonym path = "component list"

fun is_normal :: "component \<Rightarrow> bool" where
  "is_normal (Normal _) = True"
| "is_normal _ = False"

definition parent :: "path \<Rightarrow> path option" where
  "parent p = (if p = [] \<or> List.last p = RootDir then None else Some (butlast p))"

definition file_name :: "path \<Rightarrow> string option" where
  "file_name p = (if p = [] then None else (case List.last p of Normal n \<Rightarrow> Some n | _ \<Rightarrow> None))"

definition join_name :: "path \<Rightarrow> string \<Rightarrow> path" where
  "join_name dir name = dir @ [Normal name]"

text \<open>
  What was written to a file stays in memory until the file is synced; without power only the synced
  contents are left, and anything else may be found in place of the rest. The same holds of the
  directory: which file a name stands for, after files were created and renamed, is only certain once the
  directory is synced, which \<^verbatim>\<open>persist_state\<close> never does.
\<close>

record file_data =
  f_contents :: string
  f_synced :: bool

datatype node = Directory | File file_data

type_synonym disk = "path \<rightharpoonup> node"

text \<open>
  A disk is what the running system sees. What a loss of power leaves depends on all the disks since the
  directory was last synced: the entry of each path may fall back to any earlier one. Here
  \<open>history\<close> has these disks, the oldest first, and \<open>behind\<close> tells by how many steps the entry of a path falls back.
  Renaming is atomic, and a file is not written to once it has its final name.
\<close>

definition power_loss :: "(path \<Rightarrow> nat) \<Rightarrow> (path \<Rightarrow> string) \<Rightarrow> disk list \<Rightarrow> disk" where
  "power_loss behind remains history p =
    (case (history ! (length history - 1 - behind p)) p of
       Some (File f) \<Rightarrow> Some (File (if f_synced f then f else \<lparr>f_contents = remains p, f_synced = True\<rparr>))
     | other \<Rightarrow> other)"

text \<open>
  Each step of \<^verbatim>\<open>persist_state\<close> may fail. While the state is written the temporary file goes through
  the contents \<open>fl_partials\<close>.
\<close>

record disk_faults =
  fl_create :: "string option"
  fl_write :: "string option"
  fl_flush :: "string option"
  fl_sync :: "string option"
  fl_rename :: "string option"
  fl_partials :: "string list"

section \<open>The text of a state\<close>

record formats =
  fm_xml :: xml_codecs
  fm_json :: "(json, string) codec"

definition formats_ok :: "formats \<Rightarrow> bool" where
  "formats_ok fm \<longleftrightarrow> xml_ok (fm_xml fm) \<and> codec_ok (fm_json fm)"

definition STATE_VERSION :: int where
  "STATE_VERSION = 1"

record persisted_state =
  ps_version :: int
  ps_model :: sep2_model

definition state_text :: "formats \<Rightarrow> persisted_state \<Rightarrow> string + string" where
  "state_text fm state =
    rbind (json_object [(''version'', Inr (JNumber (ps_version state))),
      (''model'', serialize_model (fm_xml fm) (ps_model state))]) (encode (fm_json fm))"

definition persisted_version :: "formats \<Rightarrow> string \<Rightarrow> string + int" where
  "persisted_version fm contents =
    rbind (decode (fm_json fm) contents) (\<lambda>j. rbind (json_field ''version'' j) json_u32)"

definition persisted_state_of :: "formats \<Rightarrow> string \<Rightarrow> string + persisted_state" where
  "persisted_state_of fm contents =
    rbind (decode (fm_json fm) contents) (\<lambda>j.
    rbind (rbind (json_field ''version'' j) json_u32) (\<lambda>version.
    rbind (rbind (json_field ''model'' j) (deserialize_model (fm_xml fm))) (\<lambda>model.
    Inr \<lparr>ps_version = version, ps_model = model\<rparr>)))"

section \<open>Loading\<close>

definition read_to_string :: "string option \<Rightarrow> node \<Rightarrow> string + string" where
  "read_to_string fault node =
    (case (fault, node) of
       (None, File f) \<Rightarrow> Inr (f_contents f)
     | (Some err, _) \<Rightarrow> Inl err
     | (None, Directory) \<Rightarrow> Inl ''Is a directory'')"

definition load_persisted_state_inner ::
  "formats \<Rightarrow> string option \<Rightarrow> path option \<Rightarrow> disk \<Rightarrow> string + sep2_model" where
  "load_persisted_state_inner fm fault path d =
    (case path of
       None \<Rightarrow> Inr default_sep2_model
     | Some path \<Rightarrow>
         (case d path of
            None \<Rightarrow> Inr default_sep2_model
          | Some node \<Rightarrow>
              rbind (map_err (\<lambda>err. ''Unable to read file: '' @ err) (read_to_string fault node)) (\<lambda>contents.
              rbind (map_err (\<lambda>err. ''Unable to determine the persisted state version: '' @ err)
                (persisted_version fm contents)) (\<lambda>version.
              if version \<noteq> STATE_VERSION then Inl ''Persisted state is of another version''
              else rbind (map_err (\<lambda>err. ''Unable to parse persisted state: '' @ err)
                (persisted_state_of fm contents)) (\<lambda>state.
              Inr (ps_model state))))))"

definition load_persisted_state :: "formats \<Rightarrow> string option \<Rightarrow> path option \<Rightarrow> disk \<Rightarrow> sep2_model" where
  "load_persisted_state fm fault path d =
    (case load_persisted_state_inner fm fault path d of
       Inl err \<Rightarrow> default_sep2_model
     | Inr model \<Rightarrow> model)"

section \<open>Persisting\<close>

definition unsynced :: "string \<Rightarrow> node" where
  "unsynced text = File \<lparr>f_contents = text, f_synced = False\<rparr>"

definition synced :: "string \<Rightarrow> node" where
  "synced text = File \<lparr>f_contents = text, f_synced = True\<rparr>"

definition persist_state ::
  "formats \<Rightarrow> disk_faults \<Rightarrow> sep2_model \<Rightarrow> path \<Rightarrow> disk \<Rightarrow> (string + unit) \<times> disk list" where
  "persist_state fm faults model path d =
    (case parent path of
       None \<Rightarrow> (Inl ''Unexpectedly found no parent for path'', [d])
     | Some dir \<Rightarrow>
    (case file_name path of
       None \<Rightarrow> (Inl ''No filename found for persistence path'', [d])
     | Some basename \<Rightarrow>
    (let temp_path = join_name dir (''.'' @ basename @ ''.tmp'');
         writing = map (\<lambda>text. d(temp_path \<mapsto> unsynced text)) ('''' # fl_partials faults)
     in if d temp_path = Some Directory then (Inl ''Cannot create temporary file'', [d])
     else case fl_create faults of
       Some err \<Rightarrow> (Inl (''Cannot create temporary file: '' @ err), [d])
     | None \<Rightarrow>
    (case (state_text fm \<lparr>ps_version = STATE_VERSION, ps_model = model\<rparr>, fl_write faults) of
       (Inl err, _) \<Rightarrow> (Inl (''Failed to write to persistence file: '' @ err), d # writing)
     | (Inr _, Some err) \<Rightarrow> (Inl (''Failed to write to persistence file: '' @ err), d # writing)
     | (Inr text, None) \<Rightarrow>
    (case fl_flush faults of
       Some err \<Rightarrow> (Inl (''Unable to flush serialised data to file: '' @ err), d # writing)
     | None \<Rightarrow>
    (let flushed = d(temp_path \<mapsto> unsynced text)
     in case fl_sync faults of
       Some err \<Rightarrow> (Inl (''Unable to sync file data to disk: '' @ err), d # writing @ [flushed])
     | None \<Rightarrow>
    (let durable = d(temp_path \<mapsto> synced text)
     in if d path = Some Directory
        then (Inl ''Unable to move persistence data to location'', d # writing @ [flushed, durable])
        else case fl_rename faults of
          Some err \<Rightarrow> (Inl (''Unable to move persistence data to location: '' @ err), d # writing @ [flushed, durable])
        | None \<Rightarrow> (Inr (), d # writing @ [flushed, durable, d(temp_path := None, path \<mapsto> synced text)]))))))))"

section \<open>What becomes of the old state\<close>

lemma temp_path_differs:
  assumes "parent path = Some dir" "file_name path = Some basename"
  shows "join_name dir (''.'' @ basename @ ''.tmp'') \<noteq> path"
proof -
  have "path = dir @ [Normal basename]"
    using assms by (cases path rule: rev_cases) (auto simp: parent_def file_name_def split: if_splits component.splits)
  then show ?thesis by (simp add: join_name_def)
qed

text \<open>
  Until the temporary file is renamed, nothing but this file differs from before; after that the disk
  holds the whole state.
\<close>

lemma persist_outcome:
  assumes "persist_state fm faults m path d = (r, ds)"
  obtains (Failed) err temp nodes where "r = Inl err" "temp \<noteq> path" "ds = d # map (\<lambda>n. d(temp \<mapsto> n)) nodes"
  | (Stored) temp nodes content where "r = Inr ()" "temp \<noteq> path"
      "state_text fm \<lparr>ps_version = STATE_VERSION, ps_model = m\<rparr> = Inr content"
      "ds = d # map (\<lambda>n. d(temp \<mapsto> n)) nodes @ [d(temp := None, path \<mapsto> synced content)]"
proof -
  have none: thesis if "r = Inl err" "ds = [d]" for err
    using that Failed [of err "path @ [CurDir]" "[]"] by simp
  show thesis
  proof (cases "parent path")
    case None
    with assms show thesis by (auto simp: persist_state_def intro: none)
  next
    case (Some dir)
    show thesis
    proof (cases "file_name path")
      case None
      with assms Some show thesis by (auto simp: persist_state_def intro: none)
    next
      case (Some basename)
      let ?temp = "join_name dir (''.'' @ basename @ ''.tmp'')"
      let ?written = "map unsynced ([] # fl_partials faults)"
      have differs: "?temp \<noteq> path" by (rule temp_path_differs) fact+
      note failed = Failed [OF _ differs, of _ ?written] Failed [OF _ differs, of _ "?written @ [unsynced x]" for x]
        Failed [OF _ differs, of _ "?written @ [unsynced x, synced x]" for x]
      show thesis
        using assms \<open>parent path = Some dir\<close> Some none failed Stored [OF _ differs, of _ "?written @ [unsynced x, synced x]" for x]
        by (auto simp: persist_state_def Let_def o_def split: if_splits option.splits sum.splits)
    qed
  qed
qed

lemma state_restored:
  assumes "formats_ok fm" "model_ok m" "state_text fm \<lparr>ps_version = STATE_VERSION, ps_model = m\<rparr> = Inr text"
  shows "persisted_version fm text = Inr STATE_VERSION"
    "persisted_state_of fm text = Inr \<lparr>ps_version = STATE_VERSION, ps_model = m\<rparr>"
proof -
  obtain j where j: "json_object [(''version'', Inr (JNumber STATE_VERSION)), (''model'', serialize_model (fm_xml fm) m)] = Inr j"
    and content: "encode (fm_json fm) j = Inr text"
    using assms(3) by (auto simp: state_text_def result_simps)
  have parsed: "decode (fm_json fm) text = Inr j"
    using assms(1) content by (auto simp: formats_ok_def dest: codec_okD)
  obtain v where v: "serialize_model (fm_xml fm) m = Inr v" and "json_field ''model'' j = Inr v"
    using json_object_fields [OF j, of "''model''"] by auto
  moreover have "json_field ''version'' j = Inr (JNumber STATE_VERSION)"
    using json_object_fields [OF j, of "''version''"] by auto
  moreover have "deserialize_model (fm_xml fm) v = Inr m"
    using assms(1,2) v by (intro model_restored) (simp_all add: formats_ok_def)
  ultimately show "persisted_version fm text = Inr STATE_VERSION"
    "persisted_state_of fm text = Inr \<lparr>ps_version = STATE_VERSION, ps_model = m\<rparr>"
    by (simp_all add: persisted_version_def persisted_state_of_def parsed json_u32_def STATE_VERSION_def)
qed

text \<open>The file of a path has been synced.\<close>

definition durable_at :: "path \<Rightarrow> disk \<Rightarrow> bool" where
  "durable_at path d \<longleftrightarrow> (case d path of Some (File f) \<Rightarrow> f_synced f | _ \<Rightarrow> True)"

text \<open>When all files a path has stood for were synced, a loss of power leaves one of them.\<close>

lemma power_loss_entry:
  assumes "history \<noteq> []" "\<forall>e \<in> set history. durable_at path e"
  shows "\<exists>e \<in> set history. power_loss behind remains history path = e path"
proof
  let ?e = "history ! (length history - 1 - behind path)"
  show "?e \<in> set history" using assms(1) by (intro nth_mem) (cases history; simp)
  then have "durable_at path ?e" using assms(2) by blast
  then show "power_loss behind remains history path = ?e path"
    by (auto simp: durable_at_def power_loss_def split: option.splits node.splits)
qed

lemma load_at: "d path = d' path \<Longrightarrow>
   load_persisted_state fm fault (Some path) d = load_persisted_state fm fault (Some path) d'"
  by (simp add: load_persisted_state_def load_persisted_state_inner_def)

lemma load_synced:
  assumes "formats_ok fm" "model_ok m" "state_text fm \<lparr>ps_version = STATE_VERSION, ps_model = m\<rparr> = Inr content"
    and "d path = Some (synced content)"
  shows "load_persisted_state_inner fm None (Some path) d = Inr m"
  using state_restored [OF assms(1-3)] assms(4)
  by (simp add: load_persisted_state_inner_def synced_def read_to_string_def)

section \<open>The scheduler with its disk\<close>

text \<open>
  After an update was applied and its events were sent, the new model is persisted; a failure is
  logged and the loop goes on. Applying further changes to the parameters does not touch the model.
\<close>

definition persist_round ::
  "formats \<Rightarrow> path option \<Rightarrow> disk_faults \<Rightarrow> scheduler_input \<Rightarrow> sep2_model \<Rightarrow> disk \<Rightarrow> (string + unit) option \<times> disk list" where
  "persist_round fm path faults x model d =
    (case (x, path) of
       (Handle e now (ResourceUpdated u), Some path) \<Rightarrow>
         (case persist_state fm faults model path d of (r, ds) \<Rightarrow> (Some r, ds))
     | _ \<Rightarrow> (None, [d]))"

text \<open>
  A run: the state and the events as before, every state of the disk, and the model that was persisted
  last without an error.
\<close>

fun persisted_run ::
  "formats \<Rightarrow> lfdi \<Rightarrow> path option \<Rightarrow> (scheduler_input \<times> disk_faults) list \<Rightarrow> scheduler_state \<Rightarrow> disk \<Rightarrow> sep2_model \<Rightarrow>
     (scheduler_state \<times> event list \<times> disk list \<times> sep2_model) option" where
  "persisted_run fm lfdi path [] s d saved = Some (s, [], [d], saved)"
| "persisted_run fm lfdi path ((x, faults) # inputs) s d saved =
    (case run_scheduler lfdi [x] s of
       None \<Rightarrow> None
     | Some (s', es) \<Rightarrow>
         (case persist_round fm path faults x (ss_model s') d of
            (r, ds) \<Rightarrow>
              (case persisted_run fm lfdi path inputs s' (List.last ds)
                 (if r = Some (Inr ()) then ss_model s' else saved) of
                 None \<Rightarrow> None
               | Some (s'', es', ds', saved') \<Rightarrow> Some (s'', es @ es', ds @ ds', saved'))))"

text \<open>The models the scheduler holds in the course of a run.\<close>

fun models_held :: "lfdi \<Rightarrow> scheduler_input list \<Rightarrow> scheduler_state \<Rightarrow> sep2_model list" where
  "models_held lfdi [] s = []"
| "models_held lfdi (x # inputs) s =
    (case run_scheduler lfdi [x] s of
       None \<Rightarrow> []
     | Some (s', _) \<Rightarrow> ss_model s' # models_held lfdi inputs s')"

definition model_ok_kept ::
  "scheduler_state \<Rightarrow> scheduler_input list \<Rightarrow> event list \<Rightarrow> scheduler_state \<Rightarrow> bool" where
  "model_ok_kept s xs es s' \<longleftrightarrow> (model_ok (ss_model s) \<longrightarrow> model_ok (ss_model s'))"

definition any_input :: "scheduler_state \<Rightarrow> scheduler_input \<Rightarrow> bool" where
  "any_input s x \<longleftrightarrow> True"

lemma any_inputs [simp]: "inputs_ok any_input lfdi inputs s"
  by (induction inputs arbitrary: s) (auto simp: any_input_def split: option.split)

lemma model_ok_apply_update: "apply_update e u m = Some (m', es) \<Longrightarrow> model_ok m \<Longrightarrow> model_ok m'"
  by (auto simp: apply_update_def Let_def split: option.splits dest: model_ok_merge_update)

interpretation sound: scheduler_consumer lfdi any_input model_ok_kept for lfdi
proof
  show "model_ok_kept s [Handle e now cmd] es s'"
    if "handle_command e now lfdi cmd s = Some (s', es)" "any_input s (Handle e now cmd)" for e now cmd s s' es
  proof -
    from that(1) obtain m' es1 s1 es2 s2 es3 where cmd: "apply_command e cmd (ss_model s) = Some (m', es1)"
      and u1: "update_post_rates lfdi (s\<lparr>ss_model := m'\<rparr>) = (s1, es2)"
      and u2: "update_parameters lfdi now s1 = (s2, es3)"
      and s': "s' = update_wait_task lfdi now s2"
      by (rule handle_command_Some)
    have "ss_model s' = m'" using update_values(1) [OF u1 u2] by (simp add: s')
    then show ?thesis
      using cmd by (cases cmd) (auto simp: model_ok_kept_def apply_command_def dest: model_ok_apply_update)
  qed
  show "model_ok_kept s [WakeUp] es s'" if "scheduler_action s = (s', es, w)" for s s' es w
    using that by (auto simp: model_ok_kept_def scheduler_action_def scheduler_action_task_def
        split: option.splits prod.splits)
qed (auto simp: model_ok_kept_def)

text \<open>What is on the disk is one of the models \<open>ms\<close> in its final form.\<close>

definition disk_holds :: "formats \<Rightarrow> path \<Rightarrow> sep2_model \<Rightarrow> disk \<Rightarrow> bool" where
  "disk_holds fm path m d \<longleftrightarrow> durable_at path d \<and> load_persisted_state fm None (Some path) d = m"

lemma disk_holds_load: "disk_holds fm path m d \<Longrightarrow> load_persisted_state fm None (Some path) d = m"
  by (simp add: disk_holds_def)

lemma disk_holds_lost:
  assumes "history \<noteq> []" "\<forall>e \<in> set history. \<exists>m \<in> M. disk_holds fm path m e"
  shows "load_persisted_state fm None (Some path) (power_loss behind remains history) \<in> M"
proof -
  have "\<forall>e \<in> set history. durable_at path e" using assms(2) by (auto simp: disk_holds_def)
  from power_loss_entry [OF assms(1) this] obtain e where "e \<in> set history"
    "power_loss behind remains history path = e path"
    by blast
  then show ?thesis using assms(2) load_at [of "power_loss behind remains history" path e] disk_holds_load by fastforce
qed

lemma disk_holds_cong: "d path = d' path \<Longrightarrow> disk_holds fm path m d = disk_holds fm path m d'"
  using load_at [of d path d'] by (simp add: disk_holds_def durable_at_def)

lemma disk_holds_synced:
  assumes "formats_ok fm" "model_ok m" "state_text fm \<lparr>ps_version = STATE_VERSION, ps_model = m\<rparr> = Inr content"
    and "d path = Some (synced content)"
  shows "disk_holds fm path m d"
  using state_restored [OF assms(1-3)] assms(4)
  by (simp add: disk_holds_def durable_at_def load_persisted_state_def load_persisted_state_inner_def
      synced_def read_to_string_def)

lemma persist_round_holds:
  assumes "persist_round fm (Some path) faults x m d = (r, ds)" "disk_holds fm path saved d"
    and "formats_ok fm" "model_ok m"
  shows "disk_holds fm path (if r = Some (Inr ()) then m else saved) (List.last ds)"
    "e \<in> set ds \<Longrightarrow> disk_holds fm path saved e \<or> disk_holds fm path m e"
proof -
  have "disk_holds fm path (if r = Some (Inr ()) then m else saved) (List.last ds) \<and>
    (\<forall>e \<in> set ds. disk_holds fm path saved e \<or> disk_holds fm path m e)"
  proof (cases "\<exists>e now u. x = Handle e now (ResourceUpdated u)")
    case False
    then have "r = None" "ds = [d]"
      using assms(1) by (auto simp: persist_round_def split: scheduler_input.splits command.splits)
    with assms(2) show ?thesis by simp
  next
    case True
    then obtain r' where step: "persist_state fm faults m path d = (r', ds)" and r: "r = Some r'"
      using assms(1) by (auto simp: persist_round_def split: prod.splits)
    from step show ?thesis
    proof (cases rule: persist_outcome)
      case (Failed err temp nodes)
      then have same: "disk_holds fm path saved e" if "e \<in> set ds" for e
        using that assms(2) disk_holds_cong [of e path d] by auto
      moreover have "List.last ds \<in> set ds" by (rule last_in_set) (simp add: Failed(3))
      ultimately show ?thesis using same r Failed(1) by simp
    next
      case (Stored temp nodes content)
      note new = disk_holds_synced [OF assms(3,4) Stored(3)]
      have "disk_holds fm path saved e \<or> disk_holds fm path m e" if "e \<in> set ds" for e
      proof (cases "e path = d path")
        case True
        then show ?thesis using assms(2) disk_holds_cong [of e path d] by blast
      next
        case False
        then have "e path = Some (synced content)" using that Stored(2,4) by auto
        then show ?thesis using new by blast
      qed
      moreover have "disk_holds fm path m (List.last ds)" by (rule new) (simp add: Stored(4))
      ultimately show ?thesis using r Stored(1) by simp
    qed
  qed
  then show "disk_holds fm path (if r = Some (Inr ()) then m else saved) (List.last ds)"
    "e \<in> set ds \<Longrightarrow> disk_holds fm path saved e \<or> disk_holds fm path m e"
    by blast+
qed

lemma persisted_run_step:
  assumes "persisted_run fm lfdi path ((x, faults) # inputs) s d saved = Some (s', es, ds, saved')"
  obtains s1 es1 r ds1 es2 ds2 where "run_scheduler lfdi [x] s = Some (s1, es1)"
    and "persist_round fm path faults x (ss_model s1) d = (r, ds1)"
    and "persisted_run fm lfdi path inputs s1 (List.last ds1)
      (if r = Some (Inr ()) then ss_model s1 else saved) = Some (s', es2, ds2, saved')"
    and "es = es1 @ es2" "ds = ds1 @ ds2"
  using assms by (auto split: option.splits prod.splits)

lemma persisted_run_holds:
  assumes "persisted_run fm lfdi (Some path) inputs s d saved = Some (s', es, ds, saved')"
    and "model_ok (ss_model s)" "disk_holds fm path saved d" "formats_ok fm"
  shows "disk_holds fm path saved' (List.last ds) \<and> ds \<noteq> [] \<and>
    (\<forall>e \<in> set ds. \<exists>m \<in> set (saved # models_held lfdi (map fst inputs) s). disk_holds fm path m e)"
  using assms(1-3)
proof (induction inputs arbitrary: s d saved es ds)
  case Nil
  then show ?case by auto
next
  case (Cons input inputs)
  obtain x faults where input: "input = (x, faults)" by (cases input)
  obtain s1 es1 r ds1 es2 ds2 where
    step: "run_scheduler lfdi [x] s = Some (s1, es1)"
    and persist: "persist_round fm (Some path) faults x (ss_model s1) d = (r, ds1)"
    and rest: "persisted_run fm lfdi (Some path) inputs s1 (List.last ds1)
      (if r = Some (Inr ()) then ss_model s1 else saved) = Some (s', es2, ds2, saved')"
    and ds: "ds = ds1 @ ds2"
    using Cons.prems(1) unfolding input by (rule persisted_run_step)
  have model: "model_ok (ss_model s1)"
    using sound.step [OF step] Cons.prems(2) by (simp add: model_ok_kept_def any_input_def)
  note held = persist_round_holds [OF persist Cons.prems(3) assms(4) model]
  from Cons.IH [OF rest model held(1)] held(2) show ?case
    using input step by (auto simp: ds split: if_splits)
qed

lemma persisted_run_run:
  assumes "persisted_run fm lfdi path inputs s d saved = Some (s', es, ds, saved')"
  shows "run_scheduler lfdi (map fst inputs) s = Some (s', es)"
  using assms
proof (induction inputs arbitrary: s d saved es ds)
  case (Cons input inputs)
  obtain x faults where input: "input = (x, faults)" by (cases input)
  obtain s1 es1 r ds1 es2 ds2 where
    step: "run_scheduler lfdi [x] s = Some (s1, es1)"
    and "persist_round fm path faults x (ss_model s1) d = (r, ds1)"
    and rest: "persisted_run fm lfdi path inputs s1 (List.last ds1)
      (if r = Some (Inr ()) then ss_model s1 else saved) = Some (s', es2, ds2, saved')"
    and es: "es = es1 @ es2" and "ds = ds1 @ ds2"
    using Cons.prems unfolding input by (rule persisted_run_step)
  show ?case
    using run_scheduler_append [of lfdi "[x]" "map fst inputs" s] step Cons.IH [OF rest] by (simp add: input es)
qed simp

section \<open>Properties\<close>

text \<open>
  C16: a state is replaced as a whole or not at all. Whatever fails while the model is persisted, and at
  whatever moment the program is killed or the power is lost, the path then has the entry it had before or
  the complete new state, never a part of it. When the program is killed or ends but the power stays,
  the outcome follows the report: once the write is reported as done it is the new model that is
  loaded, and when it is reported as failed nothing has changed.
\<close>

theorem state_replaced_atomically:
  assumes "persist_state fm faults m path d = (r, ds)" "durable_at path d" "formats_ok fm" "model_ok m"
  shows "(\<forall>e \<in> set ds. e path = d path \<or> load_persisted_state_inner fm None (Some path) e = Inr m) \<and>
    (\<forall>history. history \<noteq> [] \<and> prefix history ds \<longrightarrow>
      power_loss behind remains history path = d path \<or>
      load_persisted_state_inner fm None (Some path) (power_loss behind remains history) = Inr m) \<and>
    (if r = Inr () then load_persisted_state_inner fm None (Some path) (List.last ds) = Inr m
     else List.last ds path = d path)"
proof -
  have entries: "\<forall>e \<in> set ds. e path = d path \<or>
      durable_at path e \<and> load_persisted_state_inner fm None (Some path) e = Inr m"
    and final: "if r = Inr () then load_persisted_state_inner fm None (Some path) (List.last ds) = Inr m
     else List.last ds path = d path"
  proof -
    from assms(1) have "(\<forall>e \<in> set ds. e path = d path \<or>
        durable_at path e \<and> load_persisted_state_inner fm None (Some path) e = Inr m) \<and>
      (if r = Inr () then load_persisted_state_inner fm None (Some path) (List.last ds) = Inr m
       else List.last ds path = d path)"
    proof (cases rule: persist_outcome)
      case (Failed err temp nodes)
      then have "e path = d path" if "e \<in> set ds" for e using that by auto
      moreover have "List.last ds \<in> set ds" by (rule last_in_set) (simp add: Failed(3))
      ultimately show ?thesis using Failed(1) by simp
    next
      case (Stored temp nodes content)
      then have "e path = d path \<or> e path = Some (synced content)" if "e \<in> set ds" for e using that by auto
      moreover have "durable_at path e" if "e path = Some (synced content)" for e
        using that by (simp add: durable_at_def synced_def)
      ultimately show ?thesis
        using Stored(1,4) load_synced [OF assms(3,4) Stored(3)] by (auto simp del: fun_upd_apply) simp
    qed
    then show "\<forall>e \<in> set ds. e path = d path \<or>
        durable_at path e \<and> load_persisted_state_inner fm None (Some path) e = Inr m"
      "if r = Inr () then load_persisted_state_inner fm None (Some path) (List.last ds) = Inr m
       else List.last ds path = d path" by blast+
  qed
  have "power_loss behind remains history path = d path \<or>
      load_persisted_state_inner fm None (Some path) (power_loss behind remains history) = Inr m"
    if history: "history \<noteq> []" "prefix history ds" for history
  proof -
    have "set history \<subseteq> set ds" using history(2) by (rule set_mono_prefix)
    moreover have "durable_at path e" if "e path = d path" for e using that assms(2) by (simp add: durable_at_def)
    ultimately have "\<forall>e \<in> set history. durable_at path e" using entries by blast
    from power_loss_entry [OF history(1) this] obtain e where e: "e \<in> set history"
      "power_loss behind remains history path = e path"
      by blast
    then have "e path = d path \<or> load_persisted_state_inner fm None (Some path) e = Inr m"
      using entries \<open>set history \<subseteq> set ds\<close> by blast
    then show ?thesis using e(2) by (simp add: load_persisted_state_inner_def)
  qed
  with entries final show ?thesis by blast
qed

text \<open>
  A write that was reported as done may be undone by a loss of power: the directory was not synced, and the
  path may fall back to the entry it had.
\<close>

lemma reported_write_lost:
  assumes "persist_state fm faults m path d = (r, ds)" "durable_at path d"
  shows "power_loss (\<lambda>_. length ds) remains ds path = d path"
proof -
  have "ds ! 0 = d" by (rule persist_outcome [OF assms(1)]) simp_all
  then show ?thesis using assms(2) by (auto simp: power_loss_def durable_at_def split: option.splits node.splits)
qed

text \<open>
  C15: a restart goes on from a model the scheduler had. From a start on any disk, over any updates and
  any failures of the disk, and at whatever moment the program is killed or the power is lost: the
  model loaded after that is the one loaded at the start or one the scheduler has held since. When
  the program ends without a loss of power, it is the one that was last persisted without an error; after a loss
  of power it may be an older one, because the directory is never synced. The failures do not disturb the
  run itself.
\<close>

theorem restart_resumes:
  assumes "persisted_run fm lfdi (Some path) inputs (initial_scheduler m) d m = Some (s, es, ds, saved)"
    and "m = load_persisted_state fm None (Some path) d" "model_ok m" "durable_at path d" "formats_ok fm"
    and "possible = set (m # models_held lfdi (map fst inputs) (initial_scheduler m))"
  shows "load_persisted_state fm None (Some path) (List.last ds) = saved \<and>
    (\<forall>e \<in> set ds. load_persisted_state fm None (Some path) e \<in> possible) \<and>
    (\<forall>history. history \<noteq> [] \<and> prefix history ds \<longrightarrow>
       load_persisted_state fm None (Some path) (power_loss behind remains history) \<in> possible) \<and>
    run_scheduler lfdi (map fst inputs) (initial_scheduler m) = Some (s, es)"
proof -
  have start: "disk_holds fm path m d" "model_ok (ss_model (initial_scheduler m))"
    using assms(2-4) by (simp_all add: disk_holds_def initial_scheduler_def)
  note held = persisted_run_holds [OF assms(1) start(2,1) assms(5), folded assms(6)]
  have "load_persisted_state fm None (Some path) (power_loss behind remains history) \<in> possible"
    if "history \<noteq> []" "prefix history ds" for history
    using that(1) held set_mono_prefix [OF that(2)] by (intro disk_holds_lost) blast+
  with held persisted_run_run [OF assms(1)] show ?thesis using disk_holds_load by metis
qed

end
