(* ===== verification/Sep2_Examples.thy ===== *)
theory Sep2_Examples
  imports Sep2_Rounds
begin

text \<open>
  A concrete server and runs of the SEP2 task against it, at which the properties of the task are
  applied. The server knows the device under its LFDI, offers every link, accepts every request and
  reads a clock that moves on by 400 seconds with each action.
\<close>

definition example_device_record :: end_device where
  "example_device_record = \<lparr>ed_href = Some ''/edev/1'', ed_lfdi = Some 7, ed_fsa_list_link = None,
     ed_der_list_link = Some ''/edev/1/der'', ed_registration_link = Some ''/edev/1/reg''\<rparr>"

definition example_args :: conn_args where
  "example_args = \<lparr>ca_dcap_uri = ''/dcap'', ca_max_list_size = 30, ca_default_poll_rate = 900,
     ca_device_to_register = \<lparr>sd_lfdi = 7, sd_edev = example_device_record\<rparr>, ca_expected_pin = Some 12345,
     ca_pen = 0, ca_metrics = False\<rparr>"

definition example_entry :: device_capability where
  "example_entry = \<lparr>dcap_time_link = None, dcap_end_device_list_link = Some ''/edev'',
     dcap_mup_list_link = Some ''/mup''\<rparr>"

definition example_server :: server where
  "example_server =
    \<lparr>sv_dcap = (\<lambda>_ _. Inr example_entry), sv_time = (\<lambda>_ _. Inl ''404''),
     sv_end_device_list = (\<lambda>_ _. Inr \<lparr>edl_href = Some ''/edev'', edl_poll_rate = None,
       edl_end_device = [example_device_record], edl_all = 1\<rparr>),
     sv_end_device = (\<lambda>_ _. Inl ''404''), sv_registration = (\<lambda>_ _. Inr \<lparr>rg_pin = 12345\<rparr>),
     sv_fsa_list = (\<lambda>_ _. Inl ''404''), sv_program_list = (\<lambda>_ _. Inl ''404''),
     sv_default_control = (\<lambda>_ _. Inl ''404''), sv_control_list = (\<lambda>_ _. Inl ''404''),
     sv_curve_list = (\<lambda>_ _. Inl ''404''),
     sv_der_list = (\<lambda>_ _. Inr \<lparr>dl_href = None, dl_poll_rate = None,
       dl_der = [\<lparr>der_status_link = Some ''/ders'', der_settings_link = Some ''/derg'',
         der_capability_link = Some ''/dercap''\<rparr>]\<rparr>),
     sv_mup_list = (\<lambda>_ _. Inr \<lparr>mupl_href = None, mupl_poll_rate = None, mupl_items = []\<rparr>),
     sv_put = (\<lambda>_ _ _. Inr ()), sv_post = (\<lambda>_ _ _. Inr (Created (Some ''/mup/1''))),
     sv_elapsed = (\<lambda>_ _ _. False), sv_clock = (\<lambda>tr. from_secs (400 * int (length tr))),
     sv_mrid_gen = (\<lambda>_ _. 9), sv_listening = True\<rparr>"

definition example_settings :: der_settings where
  "example_settings = \<lparr>dset_es_high_volt = None, dset_es_low_volt = None, dset_es_high_freq = None,
     dset_es_low_freq = None, dset_es_delay = None, dset_es_random_delay = None, dset_es_ramp_tms = None,
     dset_updated_time = 0\<rparr>"

definition example_response :: control_response where
  "example_response = \<lparr>cr_subject = 5, cr_status = EventStarted, cr_reply_to = ''/rsp'', cr_time = 0\<rparr>"

definition example_reading :: mirror_meter_reading where
  "example_reading = \<lparr>mmr_mrid = 0, mmr_description = ''w'', mmr_reading_type = Some
     \<lparr>rt_kind = KindPower, rt_accumulation_behaviour = Instantaneous,
      rt_commodity = ElectricitySecondaryMetered, rt_flow_direction = FlowReverse, rt_uom = Some Uom_W,
      rt_multiplier = None, rt_phase = None\<rparr>,
     mmr_reading = \<lparr>rd_value = 1, rd_start = 0, rd_duration = 0\<rparr>\<rparr>"

lemmas example_defs = example_args_def example_server_def example_entry_def example_device_record_def

lemmas stage_defs = conn_round_def manage_retry_def handle_conn_command_def send_pending_def andthen_def
  retry_gate_def ensure_dcap_def get_dcap_def ensure_registered_def check_pin_def post_responses_def find_der_def
  put_settings_def put_status_def put_capabilities_def post_readings_def nothing_to_retry_def
  ensure_device_registered_def ensure_der_def send_meter_readings_def initialise_reading_mrid_cache_def
  lookup_mup_def mrid_entry_def ensure_mup_def web_defs

text \<open>The first round: settings come in and are put.\<close>

definition example_state :: conn_state where
  "example_state =
    (case conn_round example_args example_server (Some (SendDeviceSettings example_settings)) initial_conn of
       (ConnRunning s, _) \<Rightarrow> s | _ \<Rightarrow> initial_conn)"

definition example_trace :: "conn_action list" where
  "example_trace =
    snd (conn_round example_args example_server (Some (SendDeviceSettings example_settings)) initial_conn)"

lemma example_settings_round:
  "conn_round example_args example_server (Some (SendDeviceSettings example_settings)) initial_conn =
     (ConnRunning example_state, example_trace)"
  by (simp add: example_state_def example_trace_def stage_defs example_defs initial_conn_def)

lemma example_state_simps:
  "cs_server_device example_state = Some example_device_record"
  "cs_retry_requested example_state = False"
  "cs_latest_settings example_state = None"
  "Option.bind (cs_der example_state) der_settings_link = Some ''/derg''"
  by (simp_all add: example_state_def stage_defs example_defs initial_conn_def)

section \<open>Applied properties\<close>

lemma example_trace_simp:
  "example_trace =
    [Get ''/dcap'', Broadcast (EvDeviceCapability example_entry), SpawnDcapPoll example_entry,
     Get (paginated_uri ''/edev'' 30), Get ''/edev/1/reg'', Get (paginated_uri ''/edev/1/der'' 30),
     Put ''/derg'' (PutSettings example_settings)]"
  by (simp add: example_trace_def stage_defs example_defs initial_conn_def)

theorem device_is_our_own_witness:
  "\<exists>(sv, tr) \<in> set [(example_server, example_trace)].
     recognised (ca_device_to_register example_args) sv tr example_device_record"
proof (rule device_is_our_own)
  show "conn_run example_args [(example_server, Some (SendDeviceSettings example_settings))] initial_conn =
      (ConnRunning example_state, [(example_server, example_trace)])"
    by (simp add: example_settings_round)
  show "cs_server_device example_state = Some example_device_record" by (rule example_state_simps)
qed


text \<open>Two responses, of which the second is refused for the moment.\<close>

definition busy_server :: server where
  "busy_server = example_server\<lparr>sv_post := \<lambda>tr _ _.
     if tr = [] then Inr (OtherSuccess 204) else Inl ''Unexpected HTTP response: 429''\<rparr>"

lemma busy_retriable: "is_failure_retriable ''Unexpected HTTP response: 429''"
  unfolding is_failure_retriable_def by code_simp

lemma example_responses:
  "send_control_responses busy_server 7 [example_response, example_response] [] =
     ((True, [example_response]), [response_post 7 example_response, response_post 7 example_response])"
  using busy_retriable
  by (simp add: busy_server_def example_server_def retryable_error_def response_post_def Let_def)

theorem responses_posted_in_order_witness:
  "\<exists>k \<le> 2. [example_response] = drop k [example_response, example_response]"
  using responses_posted_in_order [OF example_responses] by (auto simp: numeral_2_eq_2)

theorem response_queue_bounded_witness:
  "length (cs_queue example_state) \<le> 29"
  using response_queue_bounded
    [of example_args "[(example_server, Some (SendDeviceSettings example_settings))]" example_state
      "[(example_server, example_trace)]"]
  by (simp add: example_settings_round)

definition later_server :: server where
  "later_server = example_server\<lparr>sv_clock := \<lambda>tr. from_secs (100000 + int (length tr))\<rparr>"

lemma example_second_round:
  "\<exists>s. conn_round example_args later_server (Some (SendDeviceSettings example_settings)) example_state =
     (ConnRunning s, [Put ''/derg'' (PutSettings example_settings)])"
  by (simp add: example_state_def later_server_def stage_defs example_defs initial_conn_def
      duration_since_def POST_RATE_GENERIC_def from_secs_def)

theorem post_rate_respected_witness:
  "spaced (from_secs 300) None (accepted_times is_settings
     [(example_server, example_trace), (later_server, [Put ''/derg'' (PutSettings example_settings)])])"
proof -
  let ?c = "Some (SendDeviceSettings example_settings)"
  let ?inputs = "[(example_server, ?c), (later_server, ?c)]"
  obtain s where "conn_run example_args ?inputs initial_conn =
      (ConnRunning s, [(example_server, example_trace), (later_server, [Put ''/derg'' (PutSettings example_settings)])])"
    using example_second_round by (auto simp: example_settings_round)
  then have "spaced (cs_post_rate_der initial_conn) (cs_last_sent_settings initial_conn)
      (accepted_times is_settings
        [(example_server, example_trace), (later_server, [Put ''/derg'' (PutSettings example_settings)])])"
    by (rule post_rate_respected [THEN conjunct1])
      (auto simp: clock_ok_def example_server_def later_server_def from_secs_def initial_conn_def
        POST_RATE_GENERIC_def)
  then show ?thesis by (simp add: initial_conn_def POST_RATE_GENERIC_def)
qed

lemma example_reading_round:
  "\<exists>s tr. conn_round example_args example_server (Some (SendMeterReadings [example_reading])) initial_conn =
       (ConnRunning s, tr) \<and>
     Post ''/mup'' (PostMup \<lparr>mup_href = None, mup_mrid = 9, mup_device_lfdi = 7, mup_status = UsagePointOn,
       mup_readings = [example_reading\<lparr>mmr_mrid := 9\<rparr>], mup_post_rate = None\<rparr>) \<in> set tr"
  by (simp add: stage_defs example_defs initial_conn_def example_reading_def reading_key_def Let_def)

theorem readings_keep_their_mrid_witness:
  "\<exists>s tr key. conn_round example_args example_server (Some (SendMeterReadings [example_reading])) initial_conn =
       (ConnRunning s, tr) \<and>
     reading_key example_reading = Some key \<and> map_of (cs_mrid_cache s) key = Some 9"
proof -
  let ?r = "example_reading\<lparr>mmr_mrid := 9\<rparr>"
  obtain s tr where run: "conn_round example_args example_server (Some (SendMeterReadings [example_reading])) initial_conn =
      (ConnRunning s, tr)" and sent:
    "Post ''/mup'' (PostMup \<lparr>mup_href = None, mup_mrid = 9, mup_device_lfdi = 7, mup_status = UsagePointOn,
       mup_readings = [?r], mup_post_rate = None\<rparr>) \<in> set tr"
    using example_reading_round by blast
  have "conn_run example_args [(example_server, Some (SendMeterReadings [example_reading]))] initial_conn =
      (ConnRunning s, [(example_server, tr)])"
    using run by simp
  from readings_keep_their_mrid [OF this _ _ sent, of example_server ?r]
  show ?thesis using run by auto
qed

text \<open>A server that knows two devices makes the task stop.\<close>

definition crowded_server :: server where
  "crowded_server = example_server\<lparr>sv_end_device_list := \<lambda>_ _. Inr \<lparr>edl_href = None, edl_poll_rate = None,
     edl_end_device = [], edl_all = 2\<rparr>\<rparr>"

lemma example_crowded:
  "\<exists>tr. conn_round example_args crowded_server (Some Wake) initial_conn = (ConnFailed UnexpectedDevice, tr)"
  by (simp add: crowded_server_def stage_defs example_defs initial_conn_def)

theorem stops_only_for_foreign_device_witness:
  "\<exists>edl. unacceptable (ca_device_to_register example_args) edl"
proof -
  obtain tr where "conn_round example_args crowded_server (Some Wake) initial_conn =
      (ConnFailed UnexpectedDevice, tr)"
    using example_crowded by blast
  from stops_only_for_foreign_device [OF this] show ?thesis by auto
qed

text \<open>A server that cannot be reached: settings that come in afterwards are held back.\<close>

definition silent_server :: server where
  "silent_server = example_server\<lparr>sv_dcap := \<lambda>_ _. Inl ''Connection refused''\<rparr>"

lemma example_silent:
  "\<exists>s tr. conn_round example_args silent_server (Some Wake) initial_conn = (ConnRunning s, tr) \<and>
     cs_retry_requested s"
  by (simp add: silent_server_def stage_defs example_defs initial_conn_def)

theorem quiet_until_woken_witness:
  "\<exists>s. cs_retry_requested s \<and>
     (\<forall>(sv, tr) \<in> set (snd (conn_run example_args
        [(example_server, Some (SendDeviceSettings example_settings)), (example_server, None)] s)).
       \<forall>x \<in> set tr. \<not> is_upload x)"
proof -
  obtain s tr where s: "conn_round example_args silent_server (Some Wake) initial_conn = (ConnRunning s, tr)"
    "cs_retry_requested s"
    using example_silent by blast
  let ?inputs = "[(example_server, Some (SendDeviceSettings example_settings)), (example_server, None)]"
  obtain r rounds where run: "conn_run example_args ?inputs s = (r, rounds)" by (metis prod.exhaust)
  have "\<forall>(sv, tr) \<in> set rounds. \<forall>x \<in> set tr. \<not> is_upload x"
    using quiet_until_woken [OF s(2) _ run] by auto
  then have "\<forall>(sv, tr) \<in> set (snd (conn_run example_args ?inputs s)). \<forall>x \<in> set tr. \<not> is_upload x"
    by (simp only: run snd_conv)
  with s(2) show ?thesis by blast
qed

text \<open>
  A server with another PIN: the first attempt stops at the check, at the next the settings are put.
\<close>

definition other_pin_server :: server where
  "other_pin_server = example_server\<lparr>sv_registration := \<lambda>_ _. Inr \<lparr>rg_pin = 99999\<rparr>\<rparr>"

lemma example_other_pin:
  "\<exists>s tr1 tr2. conn_round example_args other_pin_server (Some (SendDeviceSettings example_settings)) initial_conn =
       (ConnRunning s, tr1) \<and> Put ''/derg'' (PutSettings example_settings) \<notin> set tr1 \<and>
     snd (conn_round example_args other_pin_server (Some Wake) s) = tr2 \<and>
     Put ''/derg'' (PutSettings example_settings) \<in> set tr2"
  by (simp add: other_pin_server_def stage_defs example_defs initial_conn_def)

theorem pin_mismatch_bypassed_witness:
  "\<exists>s' tr'. check_pin example_args other_pin_server
       (initial_conn\<lparr>cs_server_device := Some example_device_record\<rparr>, []) = (Continue, s', tr') \<and>
     check_pin example_args example_server (s', tr') = (Proceed, s', tr')"
  using pin_mismatch_bypassed [of "initial_conn\<lparr>cs_server_device := Some example_device_record\<rparr>"
      example_device_record "''/edev/1/reg''" example_args 12345 other_pin_server "[]" "\<lparr>rg_pin = 99999\<rparr>"]
  by (auto simp: other_pin_server_def example_defs initial_conn_def)

end
