(* ===== verification/Dispatch_Examples.thy ===== *)
theory Dispatch_Examples
  imports Dispatch Sep2_Examples
begin

text \<open>
  Runs of the whole at which the properties of \<open>Dispatch\<close> are applied: the entry point of a server
  whose links reach the polls, and a control of the server that reaches the registers of a device.
\<close>

section \<open>From a resource to the polls\<close>

definition entry_inputs :: "scheduler_input list" where
  "entry_inputs = [Handle example_env 0 RefreshActiveResources,
     Handle example_env 1 (ResourceUpdated (EvDeviceCapability Resource_Links.example_dcap))]"

definition entry_events :: "(int \<times> event) list" where
  "entry_events = [(1, LinkAddedOrUpdated ''e'' EndDeviceList None),
     (1, LinkAddedOrUpdated ''m'' MirrorUsagePointList None), (1, LinkAddedOrUpdated ''t'' Time None)]"

definition entry_state :: scheduler_state where
  "entry_state = (initial_scheduler default_sep2_model)\<lparr>ss_model := example_linked\<rparr>"

text \<open>Nothing is known of the device yet: no control, no parameter and no rate.\<close>

lemma no_device:
  assumes "m_end_devices m = []" "m_mup_list m = None"
  shows "calc_parameters m lfdi now = default_control_attributes"
    "calc_next_schedule_time m lfdi now = (None, [])"
    "der_list_poll_rate m lfdi = None" "mirror_usage_point_post_rate m lfdi = None"
proof -
  have "all_controls_for_device m lfdi now = []"
    using assms by (simp add: all_controls_for_device_def annotated_controls_def get_end_device_def sort_by_def)
  then show "calc_parameters m lfdi now = default_control_attributes"
    "calc_next_schedule_time m lfdi now = (None, [])"
    by (simp_all add: calc_parameters_def calc_parameters_for_controls_def default_control_attributes_def
        all_curve_hrefs_def default_default_der_control_def default_der_control_base_def bt_collect_def
        bt_extend_def map_filter_simps
        calc_next_schedule_time_def calc_next_schedule_time_for_controls_def all_future_events_def earliest_def)
qed (simp_all add: assms der_list_poll_rate_def mirror_usage_point_post_rate_def)

lemma no_device_command:
  assumes "apply_command e cmd m = Some (m', es)" "m_end_devices m' = []" "m_mup_list m' = None"
  shows "handle_command e now lfdi cmd (initial_scheduler m\<lparr>ss_model := m\<rparr>) =
    Some (initial_scheduler m\<lparr>ss_model := m'\<rparr>, es)"
  using assms
  by (simp add: handle_command_def initial_scheduler_def update_post_rates_def update_parameters_def
      update_wait_task_def no_device default_post_rates_def Let_def)

lemma entry_steps:
  "run_scheduler 7 [Handle example_env 0 RefreshActiveResources] (initial_scheduler default_sep2_model) =
     Some (initial_scheduler default_sep2_model, [])"
  "run_scheduler 7 [Handle example_env 1 (ResourceUpdated (EvDeviceCapability Resource_Links.example_dcap))]
     (initial_scheduler default_sep2_model) = Some (entry_state, map snd entry_events)"
proof -
  have refresh: "apply_command example_env RefreshActiveResources default_sep2_model = Some (default_sep2_model, [])"
    by (simp add: apply_command_def refresh_known_links_def link_defs resource_link_events_def
        bt_collect_def bt_extend_def map_filter_simps default_sep2_model_def)
  have update: "apply_command example_env (ResourceUpdated (EvDeviceCapability Resource_Links.example_dcap))
      default_sep2_model = Some (example_linked, map snd entry_events)"
    by (simp add: apply_command_def Resource_Links.update_defs link_defs Resource_Links.example_defs example_linked_def
        resource_link_events_def entry_events_def bt_get_def)
  have same: "initial_scheduler default_sep2_model\<lparr>ss_model := default_sep2_model\<rparr> =
      initial_scheduler default_sep2_model"
    by (simp add: initial_scheduler_def)
  have empty: "m_end_devices default_sep2_model = []" "m_mup_list default_sep2_model = None"
    "m_end_devices example_linked = []" "m_mup_list example_linked = None"
    by (simp_all add: example_linked_def default_sep2_model_def)
  note steps = no_device_command [OF refresh empty(1,2)] no_device_command [OF update empty(3,4)]
  show "run_scheduler 7 [Handle example_env 0 RefreshActiveResources] (initial_scheduler default_sep2_model) =
     Some (initial_scheduler default_sep2_model, [])"
    "run_scheduler 7 [Handle example_env 1 (ResourceUpdated (EvDeviceCapability Resource_Links.example_dcap))]
     (initial_scheduler default_sep2_model) = Some (entry_state, map snd entry_events)"
    using steps by (simp_all add: entry_state_def same)
qed

lemma entry_run:
  "run_scheduler 7 entry_inputs (initial_scheduler default_sep2_model) = Some (entry_state, map snd entry_events)"
  using run_scheduler_append [of 7 "[Handle example_env 0 RefreshActiveResources]"
      "[Handle example_env 1 (ResourceUpdated (EvDeviceCapability Resource_Links.example_dcap))]"] entry_steps
  by (simp add: entry_inputs_def)

lemma entry_inputs_ok: "scheduler_inputs_ok strict 7 entry_inputs (initial_scheduler default_sep2_model)"
proof -
  have "mup_ok (set_dcap Resource_Links.example_dcap default_sep2_model)"
    by (simp add: mup_ok_def set_dcap_def default_sep2_model_def)
  then show ?thesis
    using entry_steps by (simp add: entry_inputs_def initial_scheduler_def)
qed

text \<open>The three commands of these events, and the task that has carried them out.\<close>

definition entry_conn_inputs :: "(server \<times> conn_command option) list" where
  "entry_conn_inputs = map (\<lambda>command. (example_server, Some command))
     [SubscribeToResource ''e'' EndDeviceList None, SubscribeToResource ''m'' MirrorUsagePointList None,
      SubscribeToResource ''t'' Time None]"

lemma entry_conn_run:
  obtains c rounds where "conn_run example_args entry_conn_inputs initial_conn = (ConnRunning c, rounds)"
proof -
  have "\<exists>c rounds. conn_run example_args entry_conn_inputs initial_conn = (ConnRunning c, rounds)"
    by (simp add: entry_conn_inputs_def stage_defs Sep2_Examples.example_defs initial_conn_def subscribe_def
        start_poll_for_def get_then_poll_def Let_def)
  then show thesis using that by blast
qed


section \<open>From a control to the device\<close>

text \<open>The site of \<open>Sep2_Model\<close> whose control disconnects the device; it has started at 3600.\<close>

definition live_control :: scheduled_control where
  "live_control = example_scheduled
     \<lparr>sc_der_control := example_control\<lparr>dc_base := default_der_control_base\<lparr>op_mod_connect := Some False\<rparr>\<rparr>\<rparr>"

definition live_site :: sep2_model where
  "live_site = example_site\<lparr>m_controls := [(42, live_control)]\<rparr>"

lemmas live_defs = live_control_def example_scheduled_def example_control_def

lemma live_controls:
  assumes "now < 3810"
  shows "all_controls_for_device live_site 1 now = [RefScheduled live_control]"
proof -
  have "control_retained now live_control"
    using assms by (simp add: control_retained_def live_defs end_time_def arith_defs)
  then show ?thesis
    by (simp add: all_controls_for_device_def annotated_controls_def get_end_device_def live_site_def
        example_site_def default_sep2_model_def programs_for_fsa_list_def program_controls_def
        map_filter_simps sort_by_def)
qed

lemma live_next:
  "calc_next_schedule_time live_site 1 3600 = (Some 3810, [DERControlStatusChanged 42 EventCompleted ''/rsp''])"
  by (simp add: calc_next_schedule_time_def live_controls calc_next_schedule_time_for_controls_def
      all_future_events_def future_events_of_def response_event_def reply_to_if_required_def earliest_def
      live_defs end_time_def datetime_from_int64_def min_utc_def max_utc_def map_filter_simps arith_defs)

lemma live_parameters:
  assumes "3540 \<le> now" "now < 3810"
  shows "calc_parameters live_site 1 now =
     \<lparr>ca_inner = default_default_der_control
        \<lparr>dd_base := default_der_control_base\<lparr>op_mod_connect := Some False\<rparr>\<rparr>, ca_curves = []\<rparr>"
proof -
  let ?d = "default_default_der_control\<lparr>dd_base := default_der_control_base\<lparr>op_mod_connect := Some False\<rparr>\<rparr>"
  have active: "active_now now (RefScheduled live_control)" "control_to_attributes (RefScheduled live_control) = ?d"
    using assms by (simp_all add: active_now_def control_to_attributes_def end_time_def live_defs arith_defs)
  have first: "overlay_controls default_default_der_control ?d = ?d"
    unfolding overlay_controls_default by (simp add: default_default_der_control_def)
  have "all_curve_hrefs (dd_base ?d) = []"
    by (simp add: all_curve_hrefs_def default_der_control_base_def map_filter_simps)
  then show ?thesis
    by (simp add: calc_parameters_def calc_parameters_for_controls_def live_controls [OF assms(2)] active first map_filter_simps
        bt_collect_def bt_extend_def)
qed

lemma live_translated: "\<exists>p. to_parameters True (calc_parameters live_site 1 3800) = Inr p"
  by (simp only: to_parameters_def Let_def ex_field sum.inject simp_thms ex_simps ex_curves ex_try_option
      ex_unit_ref ex_int vref_auto_tms_of_def)
    (simp add: live_parameters default_default_der_control_def default_der_control_base_def get_curve_data_def)

lemma live_step:
  obtains s where
    "steady_run 1 live_site ([] @ [Handle example_env 3600 NextSchedule]) 3600 s
      [ParametersChanged (calc_parameters live_site 1 3600)]" "ss_model s = live_site"
    "\<forall>next evs. ss_wait_task s = Some (Some next, evs) \<longrightarrow> 3800 < next"
proof -
  have rates: "der_list_poll_rate live_site 1 = None" "mirror_usage_point_post_rate live_site 1 = None"
    by (simp_all add: der_list_poll_rate_def mirror_usage_point_post_rate_def live_site_def example_site_def
        default_sep2_model_def)
  have "\<exists>s. handle_command example_env 3600 1 NextSchedule (initial_scheduler live_site) =
      Some (s, [ParametersChanged (calc_parameters live_site 1 3600)]) \<and> ss_model s = live_site"
    using live_parameters [of 3600]
    by (auto simp: handle_command_def apply_command_def update_post_rates_def update_parameters_def
        initial_scheduler_def rates default_post_rates_def default_control_attributes_def
        default_default_der_control_def default_der_control_base_def Let_def split: prod.split)
  then obtain s where step: "handle_command example_env 3600 1 NextSchedule (initial_scheduler live_site) =
      Some (s, [ParametersChanged (calc_parameters live_site 1 3600)])" and m: "ss_model s = live_site" by blast
  have "steady_run 1 live_site [] 3600 (initial_scheduler live_site) []"
    by (rule steady_start) (simp add: min_utc_def)
  from steady_handle [OF this order_refl step] have "steady_run 1 live_site
      ([] @ [Handle example_env 3600 NextSchedule]) 3600 s [ParametersChanged (calc_parameters live_site 1 3600)]"
    by simp
  then show thesis
    using that m handle_command_state(4) [OF step] by (simp add: live_next initial_scheduler_def)
qed

text \<open>The device accepts everything it is asked for.\<close>

lemma waking_device_ok: "op_ok waking_device tr op"
  by (cases op) (simp_all add: waking_device_def Modbus_Writes.example_device_def)

lemma live_round:
  obtains s c evs where
    "task_round (example_round (Received (UpdateParameters p))) (initial_modbus 0) = Running s evs"
    "ms_device_opt s = Some c" "cn_device c = waking_device"
proof -
  have connect: "establish_connection waking_device [] =
      (Inr (Some (capabilities_from_702 empty_702)), [ReadModel 1, ReadModel 702])"
    by (simp add: establish_connection_def capabilities_query_def read_model1_def read_model_def
        read_model_safe_def io_bind_def io_then_def io_return_def del: One_nat_def)
  obtain st tr where "send_new_parameters waking_device p [ReadModel 1, ReadModel 702] = (Inr st, tr)"
    using stops_succeeds [OF stops_send_new_parameters waking_device_ok] by blast
  with connect that show thesis
    by (auto simp: task_round_def connect_device_def apply_parameters_def poll_device_def on_connection_def
        initial_modbus_def example_round_def io_timeout_def MIN_POLL_PERIOD_def simp del: One_nat_def)
qed

theorem device_follows_model_witness:
  "\<exists>p ms c st. to_parameters True (calc_parameters live_site 1 3800) = Inr p \<and>
     modbus_run [example_round (Received (UpdateParameters p))] (initial_modbus 0) = Some ms \<and>
     ms_device_opt ms = Some c \<and> applied_on (cn_device c) p st (cn_trace c)"
proof -
  obtain p where p: "to_parameters True (calc_parameters live_site 1 3800) = Inr p"
    using live_translated by blast
  obtain s where run: "steady_run 1 live_site ([] @ [Handle example_env 3600 NextSchedule]) 3600 s
      [ParametersChanged (calc_parameters live_site 1 3600)]" and m: "ss_model s = live_site"
    and wait: "\<forall>next evs. ss_wait_task s = Some (Some next, evs) \<longrightarrow> 3800 < next"
    by (rule live_step)
  obtain ms c evs where round:
    "task_round (example_round (Received (UpdateParameters p))) (initial_modbus 0) = Running ms evs"
    and c: "ms_device_opt ms = Some c" by (rule live_round)
  have same: "calc_parameters live_site 1 3600 = calc_parameters live_site 1 3800"
    using live_parameters [of 3600] live_parameters [of 3800] by simp
  let ?es = "[ParametersChanged (calc_parameters live_site 1 3600)]"
  have announced: "announced_parameters True ?es = Some p"
    by (simp add: announced_parameters_def p same)
  have "case announced_parameters True ?es of None \<Rightarrow> list_all is_read (cn_trace c)
     | Some p \<Rightarrow> \<exists>st. applied_on (cn_device c) p st (cn_trace c)"
  proof (rule device_follows_model [OF run _ _ wait _ _ _ c refl, THEN conjunct1])
    show "received_parameters [example_round (Received (UpdateParameters p))] =
        fst (control_change_dispatcher True ?es 1)"
      by (simp add: received_parameters_def map_filter_simps example_round_def control_change_dispatcher_def
          dispatch_loop_eq p same)
    show "modbus_run [example_round (Received (UpdateParameters p))] (initial_modbus 0) = Some ms"
      by (simp add: round)
  qed (use m p in \<open>simp_all add: same max_utc_def\<close>)
  then have "\<exists>st. applied_on (cn_device c) p st (cn_trace c)" by (simp add: announced)
  then show ?thesis using p round c by fastforce
qed

end
