(* ===== verification/Persistence_Examples.thy ===== *)
theory Persistence_Examples
  imports Persistence Dispatch_Examples
begin

text \<open>
  A concrete disk and concrete texts, at which the properties of \<open>Persistence\<close> are applied: the model
  that holds the entry point of a server is persisted, the power is lost, and it is loaded again.
\<close>

text \<open>A format that knows a few values only.\<close>

definition table_codec :: "('a \<times> 'f) list \<Rightarrow> ('a, 'f) codec" where
  "table_codec table =
    \<lparr>encode = (\<lambda>x. case map_of table x of None \<Rightarrow> Inl ''unknown value'' | Some y \<Rightarrow> Inr y),
     decode = (\<lambda>y. case map_of (map prod.swap table) y of None \<Rightarrow> Inl ''unknown text'' | Some x \<Rightarrow> Inr x)\<rparr>"

lemma table_codec_ok:
  assumes "distinct (map snd table)"
  shows "codec_ok (table_codec table)"
proof -
  have "map_of (map prod.swap table) y = Some x" if "map_of table x = Some y" for x y
    using that assms by (intro map_of_is_SomeI) (auto simp: o_def dest: map_of_SomeD)
  then show ?thesis by (auto simp: codec_ok_def table_codec_def split: option.splits)
qed

definition example_xml :: xml_codecs where
  "example_xml =
    \<lparr>xc_time = table_codec [(\<lparr>tm_poll_rate = None\<rparr>, ''<Time/>'')], xc_mrid = table_codec [],
     xc_lfdi = table_codec [], xc_uint32 = table_codec [], xc_int64 = table_codec [],
     xc_dcap = table_codec [(Resource_Links.example_dcap, ''<DeviceCapability/>'')],
     xc_mup_list = table_codec [], xc_der_list = table_codec [], xc_end_device = table_codec [],
     xc_fsa = table_codec [], xc_program = table_codec [], xc_control = table_codec [],
     xc_curve = table_codec [], xc_default_control = table_codec []\<rparr>"

definition example_json :: json where
  "example_json = JObject [(''version'', JNumber 1), (''model'', JObject
     [(''time'', JString ''<Time/>''), (''function_set_assignments_lists'', JObject []),
      (''program_lists'', JObject []), (''control_lists'', JObject []), (''curve_lists'', JObject []),
      (''end_device_list'', JNull), (''dcap'', JString ''<DeviceCapability/>''),
      (''mirror_usage_point_list'', JNull), (''der_lists'', JObject []), (''end_devices'', JObject []),
      (''function_set_assignments'', JObject []), (''programs'', JObject []), (''controls'', JObject []),
      (''curves'', JObject []), (''default_controls'', JObject [])])]"

definition example_formats :: formats where
  "example_formats = \<lparr>fm_xml = example_xml, fm_json = table_codec [(example_json, ''{...}'')]\<rparr>"

lemma example_formats_ok: "formats_ok example_formats"
  by (simp add: formats_ok_def xml_ok_def example_formats_def example_xml_def table_codec_ok)

definition no_faults :: disk_faults where
  "no_faults = \<lparr>fl_create = None, fl_write = None, fl_flush = None, fl_sync = None, fl_rename = None,
     fl_partials = [''{'']\<rparr>"

definition example_path :: path where
  "example_path = [RootDir, Normal ''cache'', Normal ''scheduler.json'']"

lemma example_text:
  "state_text example_formats \<lparr>ps_version = STATE_VERSION, ps_model = example_linked\<rparr> = Inr ''{...}''"
  by (simp add: state_text_def json_object_def serialize_model_def example_formats_def example_xml_def
      example_json_def table_codec_def yaserde_def yaserde_opt_def yaserde_map_values_def yaserde_map_both_def
      yaserde_map_keys_def json_map_def option_codec_def serialize_wrap_def STATE_VERSION_def
      example_linked_def default_sep2_model_def)

lemma example_persisted:
  obtains ds where "persist_state example_formats no_faults example_linked example_path Map.empty = (Inr (), ds)"
  using example_text
  by (simp add: persist_state_def parent_def file_name_def example_path_def no_faults_def Let_def)

text \<open>The power is lost at the end, and the entry of the path is that of one step before.\<close>

theorem state_replaced_atomically_witness:
  "\<exists>ds. persist_state example_formats no_faults example_linked example_path Map.empty = (Inr (), ds) \<and>
     load_persisted_state_inner example_formats None (Some example_path) (List.last ds) = Inr example_linked \<and>
     (power_loss (\<lambda>_. 1) (\<lambda>_. ''junk'') ds example_path = None \<or>
      load_persisted_state_inner example_formats None (Some example_path) (power_loss (\<lambda>_. 1) (\<lambda>_. ''junk'') ds) =
        Inr example_linked)"
proof -
  obtain ds where run: "persist_state example_formats no_faults example_linked example_path Map.empty = (Inr (), ds)"
    by (rule example_persisted)
  then have "ds \<noteq> []" by (rule persist_outcome) simp_all
  have "model_ok example_linked" by (simp add: model_ok_def example_linked_def default_sep2_model_def)
  from state_replaced_atomically [OF run _ example_formats_ok this, of "\<lambda>_. 1" "\<lambda>_. ''junk''"] run \<open>ds \<noteq> []\<close>
  show ?thesis by (auto simp: durable_at_def)
qed

theorem restart_resumes_witness:
  "\<exists>s es ds saved. persisted_run example_formats 7 (Some example_path) (map (\<lambda>x. (x, no_faults)) entry_inputs)
       (initial_scheduler default_sep2_model) Map.empty default_sep2_model = Some (s, es, ds, saved) \<and>
     load_persisted_state example_formats None (Some example_path) (List.last ds) = example_linked \<and>
     load_persisted_state example_formats None (Some example_path) (power_loss (\<lambda>_. 3) (\<lambda>_. ''junk'') ds) \<in>
       {default_sep2_model, example_linked}"
proof -
  obtain ds where persist: "persist_state example_formats no_faults example_linked example_path Map.empty = (Inr (), ds)"
    by (rule example_persisted)
  let ?inputs = "map (\<lambda>x. (x, no_faults)) entry_inputs"
  have model: "ss_model entry_state = example_linked" by (simp add: entry_state_def)
  obtain es ds' where run: "persisted_run example_formats 7 (Some example_path) ?inputs
      (initial_scheduler default_sep2_model) Map.empty default_sep2_model = Some (entry_state, es, ds', example_linked)"
    and "ds' \<noteq> []"
    using entry_steps persist model by (simp add: entry_inputs_def persist_round_def)
  have inputs: "map fst ?inputs = entry_inputs" by (simp add: o_def)
  have held: "models_held 7 entry_inputs (initial_scheduler default_sep2_model) = [default_sep2_model, example_linked]"
    using entry_steps model by (simp add: entry_inputs_def) (simp add: initial_scheduler_def)
  have "load_persisted_state example_formats None (Some example_path) Map.empty = default_sep2_model"
    by (simp add: load_persisted_state_def load_persisted_state_inner_def)
  from restart_resumes [OF run this [symmetric] model_ok_default _ example_formats_ok refl, unfolded inputs held,
      of "\<lambda>_. 3" "\<lambda>_. ''junk''"]
  show ?thesis using run \<open>ds' \<noteq> []\<close> by (auto simp: durable_at_def)
qed

end
