(* ===== verification/Service_Text.thy ===== *)
theory Service_Text
  imports Bridge_Prelude
begin

text \<open>
  The text operations of the standard library that the entry point and the metrics use: numbers in
  decimal, trimming, splitting. Printing a number and parsing it gives the number back, whatever blanks
  surround it.
\<close>

section \<open>Decimal numbers\<close>

definition digit_char :: "nat \<Rightarrow> char" where
  "digit_char n = char_of (48 + n)"

definition char_digit :: "char \<Rightarrow> nat option" where
  "char_digit c = (let n = of_char c in if 48 \<le> n \<and> n \<le> 57 then Some (n - 48) else None)"

text \<open>\<^verbatim>\<open>format!("{}", n)\<close> of an unsigned number.\<close>

fun show_nat :: "nat \<Rightarrow> string" where
  "show_nat n = (if n < 10 then [digit_char n] else show_nat (n div 10) @ [digit_char (n mod 10)])"

declare show_nat.simps [simp del]

text \<open>\<^verbatim>\<open>str::parse::<u32>()\<close>: an optional plus sign and digits, checked for overflow at each step.\<close>

fun parse_digits :: "nat \<Rightarrow> string \<Rightarrow> string + nat" where
  "parse_digits acc [] = Inr acc"
| "parse_digits acc (c # cs) =
    (case char_digit c of
       None \<Rightarrow> Inl ''invalid digit found in string''
     | Some d \<Rightarrow>
         if acc * 10 + d < 2 ^ 32 then parse_digits (acc * 10 + d) cs
         else Inl ''number too large to fit in target type'')"

definition parse_u32 :: "string \<Rightarrow> string + nat" where
  "parse_u32 s =
    (case s of
       [] \<Rightarrow> Inl ''cannot parse integer from empty string''
     | c # cs \<Rightarrow>
         if c = CHR ''+'' then (if cs = [] then Inl ''invalid digit found in string'' else parse_digits 0 cs)
         else parse_digits 0 s)"

lemma char_digit_char: "d < 10 \<Longrightarrow> char_digit (digit_char d) = Some d"
  by (simp add: char_digit_def digit_char_def of_char_of take_bit_nat_eq_self Let_def)

lemma parse_digits_append:
  "parse_digits acc (s @ t) = rbind (parse_digits acc s) (\<lambda>n. parse_digits n t)"
  by (induction s arbitrary: acc) (auto split: option.splits)

lemma parse_show: "n < 2 ^ 32 \<Longrightarrow> parse_digits 0 (show_nat n) = Inr n"
proof (induction n rule: show_nat.induct)
  case (1 n)
  show ?case
  proof (cases "n < 10")
    case True
    then show ?thesis by (subst show_nat.simps) (simp add: char_digit_char)
  next
    case False
    with 1 have "parse_digits 0 (show_nat (n div 10)) = Inr (n div 10)" by auto
    with False 1(2) show ?thesis
      by (subst show_nat.simps) (simp add: parse_digits_append char_digit_char)
  qed
qed

lemma show_nat_chars: "\<forall>c \<in> set (show_nat n). char_digit c \<noteq> None"
proof (induction n rule: show_nat.induct)
  case (1 n)
  then show ?case by (subst show_nat.simps) (auto simp: char_digit_char)
qed

lemma show_nat_nonempty: "show_nat n \<noteq> []"
  by (subst show_nat.simps) simp

lemma digit_no_sign [simp]: "char_digit (CHR ''+'') = None"
  by (simp add: char_digit_def)

lemma parse_u32_show: "n < 2 ^ 32 \<Longrightarrow> parse_u32 (show_nat n) = Inr n"
  using parse_show [of n] show_nat_chars [of n] show_nat_nonempty [of n]
  by (cases "show_nat n") (auto simp: parse_u32_def)

section \<open>Blanks\<close>

text \<open>\<^verbatim>\<open>char::is_whitespace\<close> on the characters up to 255.\<close>

definition is_whitespace :: "char \<Rightarrow> bool" where
  "is_whitespace c \<longleftrightarrow> (let n = (of_char c :: nat) in (9 \<le> n \<and> n \<le> 13) \<or> n = 32 \<or> n = 133 \<or> n = 160)"

definition trim :: "string \<Rightarrow> string" where
  "trim s = rev (dropWhile is_whitespace (rev (dropWhile is_whitespace s)))"

lemma digit_no_blank: "char_digit c \<noteq> None \<Longrightarrow> \<not> is_whitespace c"
  by (auto simp: char_digit_def is_whitespace_def Let_def split: if_splits)

lemma trim_surrounded:
  assumes "\<forall>c \<in> set xs. is_whitespace c" "\<forall>c \<in> set ys. is_whitespace c" "\<forall>c \<in> set s. \<not> is_whitespace c" "s \<noteq> []"
  shows "trim (xs @ s @ ys) = s"
proof -
  have keep: "dropWhile is_whitespace (t @ u) = t @ u" if "\<forall>c \<in> set t. \<not> is_whitespace c" "t \<noteq> []" for t u
    using that by (cases t) auto
  have "dropWhile is_whitespace (xs @ s @ ys) = s @ ys"
    using assms(1) keep [OF assms(3,4)] by (simp add: dropWhile_append1 dropWhile_append2)
  moreover have "dropWhile is_whitespace (rev ys @ rev s) = rev s"
    using assms(2) keep [of "rev s" "[]"] assms(3,4) dropWhile_append2 [of "rev ys" is_whitespace "rev s"] by simp
  ultimately show ?thesis by (simp add: trim_def)
qed

section \<open>Splitting\<close>

text \<open>\<^verbatim>\<open>str::split\<close> at a character.\<close>

fun split_on :: "char \<Rightarrow> string \<Rightarrow> string list" where
  "split_on c [] = [[]]"
| "split_on c (x # xs) =
    (if x = c then [] # split_on c xs
     else (case split_on c xs of [] \<Rightarrow> [[x]] | w # ws \<Rightarrow> (x # w) # ws))"

definition starts_with :: "string \<Rightarrow> string \<Rightarrow> bool" where
  "starts_with s p \<longleftrightarrow> take (length p) s = p"

text \<open>\<^verbatim>\<open>nth\<close> of an iterator.\<close>

definition nth_opt :: "'a list \<Rightarrow> nat \<Rightarrow> 'a option" where
  "nth_opt xs n = (if n < length xs then Some (xs ! n) else None)"

end
