(* ===== verification/Service.thy ===== *)
theory Service
  imports Persistence Service_Text
begin

text \<open>
  \<^verbatim>\<open>src/main.rs\<close>: the parsers of the command line, the registration PIN, the directory of the cache,
  what the entry point starts and with which arguments, and the exit code. The packages \<^verbatim>\<open>url\<close>,
  \<^verbatim>\<open>sep2_common\<close> and \<^verbatim>\<open>sep2_client\<close> and the parser of IP addresses are parameters; the disk is that
  of \<open>Persistence\<close>. A panic is \<open>None\<close>.
\<close>

section \<open>Paths from text\<close>

text \<open>\<^verbatim>\<open>PathBuf::from\<close> and the components it has: a leading dot stays, others and empty parts go.\<close>

definition component_of :: "string \<Rightarrow> component" where
  "component_of s = (if s = ''..'' then ParentDir else Normal s)"

definition path_of :: "string \<Rightarrow> path" where
  "path_of s =
    (let parts = split_on (CHR ''/'') s;
         start = (if starts_with s ''/'' then [RootDir] else if hd parts = ''.'' then [CurDir] else [])
     in start @ map component_of (filter (\<lambda>part. part \<noteq> [] \<and> part \<noteq> ''.'') parts))"

definition is_absolute :: "path \<Rightarrow> bool" where
  "is_absolute p \<longleftrightarrow> p \<noteq> [] \<and> hd p = RootDir"

section \<open>Parsers of arguments\<close>

record url =
  url_scheme :: string
  url_username :: string
  url_password :: "string option"
  url_host_str :: "string option"
  url_port :: "nat option"
  url_path :: string
  url_query :: "string option"
  url_fragment :: "string option"
  url_domain :: "string option"
  url_file_path :: "path option"

record 'ip packages =
  pk_url :: "string \<Rightarrow> url option"
  pk_ip :: "string \<Rightarrow> 'ip option"
  pk_csipaus :: "nat \<Rightarrow> int option"
  pk_pin :: "nat \<Rightarrow> int option"
  pk_client :: "string \<Rightarrow> path \<Rightarrow> path \<Rightarrow> path \<Rightarrow> bool"
  pk_device :: "path \<Rightarrow> se_device option"

datatype 'ip transport = Tcp 'ip nat | Unix path

definition validate_path_exists :: "disk \<Rightarrow> path \<Rightarrow> string + path" where
  "validate_path_exists d path = (if d path = None then Inl ''Cannot find path'' else Inr path)"

definition validate_file_exists :: "disk \<Rightarrow> path \<Rightarrow> string + path" where
  "validate_file_exists d input =
    rbind (validate_path_exists d input) (\<lambda>path.
      if \<exists>f \<in> set_option (d path). f \<noteq> Directory then Inr path else Inl ''Path is not a file.'')"

definition parse_modbus_socket :: "'ip packages \<Rightarrow> string \<Rightarrow> string + 'ip transport" where
  "parse_modbus_socket pk value =
    (case pk_url pk value of
       None \<Rightarrow> Inl ''Unable to parse URL.''
     | Some url \<Rightarrow>
         if url_scheme url = ''unix''
         then (if url_username url \<noteq> [] \<or> url_password url \<noteq> None \<or> url_host_str url \<noteq> None \<or>
                 url_port url \<noteq> None \<or> url_query url \<noteq> None \<or> url_fragment url \<noteq> None
               then Inl ''Unexpected parts of URL present.''
               else case url_file_path url of
                 None \<Rightarrow> Inl ''Unable to extract file path from URL''
               | Some path \<Rightarrow> Inr (Unix path))
         else if url_scheme url = ''tcp''
         then (if url_username url \<noteq> [] \<or> url_password url \<noteq> None \<or>
                 \<not> (url_path url = [] \<or> url_path url = ''/'') \<or> url_query url \<noteq> None \<or> url_fragment url \<noteq> None
               then Inl ''Unexpected parts of URL present.''
               else rbind
                 (case url_domain url of
                    None \<Rightarrow> Inl ''Missing host''
                  | Some host \<Rightarrow> (case pk_ip pk host of
                      None \<Rightarrow> Inl ''Host is not an IP address''
                    | Some ip \<Rightarrow> Inr ip))
                 (\<lambda>ip. Inr (Tcp ip (case url_port url of None \<Rightarrow> 502 | Some port \<Rightarrow> port))))
         else Inl (''Unknown modbus socket scheme '' @ url_scheme url))"

definition parse_metrics_url :: "'ip packages \<Rightarrow> string \<Rightarrow> string + path" where
  "parse_metrics_url pk value =
    (case pk_url pk value of
       None \<Rightarrow> Inl ''Unable to parse URL.''
     | Some url \<Rightarrow>
         if url_scheme url = ''unix''
         then (if url_username url \<noteq> [] \<or> url_password url \<noteq> None \<or> url_fragment url \<noteq> None \<or>
                 url_host_str url \<noteq> None \<or> url_port url \<noteq> None \<or> url_query url \<noteq> None
               then Inl ''Unexpected parts of URL present.''
               else case url_file_path url of
                 None \<Rightarrow> Inl ''Unable to extract file path from URL''
               | Some path \<Rightarrow> Inr path)
         else Inl (''Metrics endpoint scheme '' @ url_scheme url @ '' not supported.''))"

definition parse_pen :: "'ip packages \<Rightarrow> string \<Rightarrow> string + int" where
  "parse_pen pk value =
    rbind (map_err (\<lambda>_. ''PEN is not a valid u32'') (parse_u32 value)) (\<lambda>val.
      case pk_csipaus pk val of
        None \<Rightarrow> Inl ''PEN is not the right size for CSIP-AUS format''
      | Some pen \<Rightarrow> Inr pen)"

section \<open>The registration PIN\<close>

definition load_pin :: "'ip packages \<Rightarrow> disk \<Rightarrow> string option \<Rightarrow> path \<Rightarrow> sep2_error + int option" where
  "load_pin pk d fault credentials_path =
    (let file_path = join_name credentials_path ''registration_pin''
     in case d file_path of
       None \<Rightarrow> Inr None
     | Some node \<Rightarrow>
         if node = Directory then Inl (InvalidInput ''not a file'')
         else rbind (map_err (\<lambda>err. InvalidInput (''Error reading file: '' @ err)) (read_to_string fault node)) (\<lambda>contents.
           rbind (map_err (\<lambda>_. InvalidInput ''Could not parse PIN'') (parse_u32 (trim contents))) (\<lambda>number.
             case pk_pin pk number of
               None \<Rightarrow> Inl (InvalidInput ''PIN is a number but not of the right size'')
             | Some pin \<Rightarrow> Inr (Some pin))))"

section \<open>The directory of the cache\<close>

text \<open>
  \<^verbatim>\<open>fs::create_dir_all\<close>: every ancestor becomes a directory, unless one of them is a file or cannot be
  made.
\<close>

definition ancestors :: "path \<Rightarrow> path list" where
  "ancestors p = map (\<lambda>n. take n p) [1..<Suc (length p)]"

definition create_dir_all :: "string option \<Rightarrow> path \<Rightarrow> disk \<Rightarrow> (string + unit) \<times> disk" where
  "create_dir_all fault path d =
    (if d path = Some Directory then (Inr (), d)
     else if \<exists>p \<in> set (ancestors path). d p \<noteq> None \<and> d p \<noteq> Some Directory then (Inl ''Not a directory'', d)
     else case fault of
       Some err \<Rightarrow> (Inl err, d)
     | None \<Rightarrow> (Inr (), fold (\<lambda>p d. d(p \<mapsto> Directory)) (ancestors path) d))"

definition parse_cache_directory :: "string option \<Rightarrow> path \<Rightarrow> disk \<Rightarrow> (string + path) \<times> disk" where
  "parse_cache_directory fault path d =
    (case create_dir_all fault path d of
       (Inl err, d') \<Rightarrow> (Inl (''Unable to create directory: '' @ err), d')
     | (Inr _, d') \<Rightarrow> (Inr path, d'))"

definition home_cache :: "(string \<rightharpoonup> string) \<Rightarrow> sep2_error + path" where
  "home_cache env =
    (case env ''HOME'' of
       None \<Rightarrow> Inl (InvalidInput ''HOME is not set'')
     | Some home \<Rightarrow> Inr (join_name (path_of home) ''.cache''))"

definition cache_home :: "(string \<rightharpoonup> string) \<Rightarrow> sep2_error + path" where
  "cache_home env =
    (case env ''XDG_CACHE_HOME'' of
       Some path \<Rightarrow> if is_absolute (path_of path) then Inr (path_of path) else home_cache env
     | None \<Rightarrow> home_cache env)"

definition default_cache_directory ::
  "(string \<rightharpoonup> string) \<Rightarrow> string option \<Rightarrow> disk \<Rightarrow> (sep2_error + path) \<times> disk" where
  "default_cache_directory env fault d =
    (case cache_home env of
       Inl err \<Rightarrow> (Inl err, d)
     | Inr home \<Rightarrow>
         (case parse_cache_directory fault (join_name home ''sep2-bridge'') d of
            (r, d') \<Rightarrow> (map_err InvalidInput r, d')))"

section \<open>Starting the service\<close>

record 'ip args =
  ar_ca_path :: path
  ar_credentials_directory :: path
  ar_dcap_uri :: string
  ar_server_addr :: string
  ar_max_list_size :: nat
  ar_default_poll_rate :: int
  ar_modbus_device_id :: nat
  ar_modbus_socket :: "'ip transport"
  ar_pen :: int
  ar_metrics_url :: "path option"
  ar_cache_directory :: "path option"
  ar_no_persistence :: bool

text \<open>What has been started: the tasks by name, their arguments and the first command of each channel.\<close>

record 'ip service =
  se_tasks :: "string list"
  se_conn_args :: conn_args
  se_lfdi :: lfdi
  se_cache_directory :: "path option"
  se_modbus_socket :: "'ip transport"
  se_modbus_device_id :: nat
  se_sep2_inputs :: "conn_command list"
  se_scheduler_inputs :: "command list"

definition resolve_cache_directory ::
  "'ip args \<Rightarrow> (string \<rightharpoonup> string) \<Rightarrow> string option \<Rightarrow> disk \<Rightarrow> (sep2_error + path option) \<times> disk" where
  "resolve_cache_directory args env fault d =
    (if ar_no_persistence args then (Inr None, d)
     else case ar_cache_directory args of
       Some path \<Rightarrow> (Inr (Some path), d)
     | None \<Rightarrow> (case default_cache_directory env fault d of
         (r, d') \<Rightarrow> (rbind r (\<lambda>path. Inr (Some path)), d')))"

definition https_addr :: "string \<Rightarrow> string" where
  "https_addr addr = (if starts_with addr ''https://'' then addr else ''https://'' @ addr)"

definition task_names :: "'ip args \<Rightarrow> string list" where
  "task_names args =
    (case ar_metrics_url args of None \<Rightarrow> [] | Some _ \<Rightarrow> [''metrics_push'']) @
    [''sep2_connection'', ''scheduler'', ''modbus_connection'', ''resource_update_dispatcher'',
     ''sep2_subscription_and_notification_dispatcher'', ''control_change_dispatcher'',
     ''sep2_device_state_dispatcher'', ''signals_handler'']"

definition start_service ::
  "'ip packages \<Rightarrow> 'ip args \<Rightarrow> (string \<rightharpoonup> string) \<Rightarrow> string option \<Rightarrow> string option \<Rightarrow> disk \<Rightarrow>
     (sep2_error + 'ip service) option \<times> disk" where
  "start_service pk args env create_fault read_fault d =
    (case resolve_cache_directory args env create_fault d of
       (Inl err, d') \<Rightarrow> (Some (Inl err), d')
     | (Inr cache_directory, d') \<Rightarrow>
    (case map_err (\<lambda>_. InvalidInput ''Client certificate not present'')
        (validate_file_exists d' (join_name (ar_credentials_directory args) ''client.crt'')) of
       Inl err \<Rightarrow> (Some (Inl err), d')
     | Inr cert_path \<Rightarrow>
    (case map_err (\<lambda>_. InvalidInput ''Client key not present'')
        (validate_file_exists d' (join_name (ar_credentials_directory args) ''client.key'')) of
       Inl err \<Rightarrow> (Some (Inl err), d')
     | Inr key_path \<Rightarrow>
    (if \<not> pk_client pk (https_addr (ar_server_addr args)) cert_path key_path (ar_ca_path args) then (None, d')
     else case pk_device pk cert_path of
       None \<Rightarrow> (Some (Inl (InvalidInput ''Device could not be loaded from certificate'')), d')
     | Some device_to_register \<Rightarrow>
    (case load_pin pk d' read_fault (ar_credentials_directory args) of
       Inl err \<Rightarrow> (Some (Inl err), d')
     | Inr expected_pin \<Rightarrow>
       (Some (Inr
         \<lparr>se_tasks = task_names args,
          se_conn_args =
            \<lparr>ca_dcap_uri = ar_dcap_uri args, ca_max_list_size = ar_max_list_size args,
             ca_default_poll_rate = ar_default_poll_rate args, ca_device_to_register = device_to_register,
             ca_expected_pin = expected_pin, ca_pen = ar_pen args, ca_metrics = is_some (ar_metrics_url args)\<rparr>,
          se_lfdi = sd_lfdi device_to_register, se_cache_directory = cache_directory,
          se_modbus_socket = ar_modbus_socket args, se_modbus_device_id = ar_modbus_device_id args,
          se_sep2_inputs = [Wake], se_scheduler_inputs = [RefreshActiveResources]\<rparr>), d'))))))"

text \<open>The file the scheduler keeps its model in.\<close>

definition persistence_path :: "path option \<Rightarrow> path option" where
  "persistence_path cache_directory = map_option (\<lambda>path. join_name path ''scheduler.json'') cache_directory"

section \<open>Ending it\<close>

text \<open>The first task to finish decides: it ended with a result, or it panicked.\<close>

datatype task_end = JoinError | Returned "sep2_error + unit"

datatype exit_code = SUCCESS | FAILURE

definition exit_code_of :: "task_end \<Rightarrow> exit_code" where
  "exit_code_of result =
    (case result of
       JoinError \<Rightarrow> FAILURE
     | Returned (Inl (SignalReceived signal)) \<Rightarrow> SUCCESS
     | Returned (Inl err) \<Rightarrow> FAILURE
     | Returned (Inr _) \<Rightarrow> FAILURE)"

definition signals_handler :: "bool \<Rightarrow> sep2_error + unit" where
  "signals_handler interrupted = Inl (SignalReceived (if interrupted then ''SIGINT'' else ''SIGTERM''))"

section \<open>Properties\<close>

lemma load_pin_absent:
  "load_pin pk d fault dir = Inr None \<longleftrightarrow> d (join_name dir ''registration_pin'') = None"
  by (auto simp: load_pin_def Let_def result_simps split: option.splits if_splits)

lemma load_pin_result:
  "load_pin pk d fault dir = Inr r \<Longrightarrow> r = None \<longleftrightarrow> d (join_name dir ''registration_pin'') = None"
  by (auto simp: load_pin_def Let_def result_simps split: option.splits if_splits)

lemma tcp_socket:
  "parse_modbus_socket pk value = Inr (Tcp ip port) \<longleftrightarrow>
    (\<exists>url host. pk_url pk value = Some url \<and> url_scheme url = ''tcp'' \<and> url_username url = [] \<and>
       url_password url = None \<and> url_path url \<in> {[], ''/''} \<and> url_query url = None \<and> url_fragment url = None \<and>
       url_domain url = Some host \<and> pk_ip pk host = Some ip \<and>
       port = (case url_port url of None \<Rightarrow> 502 | Some p \<Rightarrow> p))"
  by (auto simp: parse_modbus_socket_def split: option.splits)

lemma create_dir_all_made:
  assumes "create_dir_all fault path d = (Inr (), d')" "path \<noteq> []"
  shows "d' path = Some Directory"
proof -
  have "fold (\<lambda>p d. d(p \<mapsto> Directory)) ps d q = (if q \<in> set ps then Some Directory else d q)" for ps q and d :: disk
    by (induction ps arbitrary: d) auto
  moreover have "path \<in> set (ancestors path)"
    using assms(2) by (auto simp: ancestors_def image_iff intro!: bexI [of _ "length path"] simp: Suc_le_eq)
  ultimately show ?thesis
    using assms(1) by (auto simp: create_dir_all_def split: if_splits option.splits)
qed

lemma default_cache_is_created:
  assumes "default_cache_directory env fault d = (Inr path, d')"
  shows "d' path = Some Directory"
proof -
  have made: "path = p \<and> create_dir_all fault path d = (Inr (), d')"
    if "parse_cache_directory fault p d = (Inr path, d')" for p
    using that unfolding parse_cache_directory_def
    by (cases "create_dir_all fault p d"; cases "fst (create_dir_all fault p d)") simp_all
  obtain home where "parse_cache_directory fault (join_name home ''sep2-bridge'') d = (Inr path, d')"
    using assms unfolding default_cache_directory_def
    by (auto simp: result_simps split: sum.splits prod.splits)
  from made [OF this] have "create_dir_all fault path d = (Inr (), d')" "path \<noteq> []"
    by (blast, simp add: join_name_def)
  then show ?thesis by (rule create_dir_all_made)
qed

text \<open>
  The service starts with the arguments it was given: certificate and key are files, a PIN is expected
  exactly if there is a file for it, and the scheduler is asked to announce what it knows.
\<close>

lemma service_started:
  assumes "start_service pk args env create_fault read_fault d = (Some (Inr service), d')"
  shows "(\<exists>f. d' (join_name (ar_credentials_directory args) ''client.crt'') = Some (File f)) \<and>
    (\<exists>f. d' (join_name (ar_credentials_directory args) ''client.key'') = Some (File f)) \<and>
    (ca_expected_pin (se_conn_args service) = None \<longleftrightarrow>
       d' (join_name (ar_credentials_directory args) ''registration_pin'') = None) \<and>
    (se_cache_directory service = None \<longleftrightarrow> ar_no_persistence args) \<and>
    sd_lfdi (ca_device_to_register (se_conn_args service)) = se_lfdi service \<and>
    RefreshActiveResources \<in> set (se_scheduler_inputs service)"
proof -
  have is_file: "(\<exists>f. d path = Some (File f)) \<and> p = path" if "validate_file_exists d path = Inr p" for d path p
    using that by (cases "the (d path)")
      (auto simp: validate_file_exists_def validate_path_exists_def split: if_splits)
  show ?thesis
    using assms unfolding start_service_def
    by (auto simp: result_simps resolve_cache_directory_def dest!: is_file dest: load_pin_result
        split: sum.splits prod.splits option.splits if_splits)
qed

text \<open>
  C33: the PIN is read as it was written. A file that holds a number in decimal, with blanks or line ends
  around it, gives the PIN of that number, and an error when no PIN has that number; whatever else the
  file holds is never taken for the absence of a PIN.
\<close>

theorem pin_read_back:
  assumes "d (join_name dir ''registration_pin'') = Some (File \<lparr>f_contents = before @ show_nat n @ after, f_synced = s\<rparr>)"
    and "n < 2 ^ 32" "\<forall>c \<in> set before. is_whitespace c" "\<forall>c \<in> set after. is_whitespace c"
  shows "load_pin pk d None dir =
    (case pk_pin pk n of
       None \<Rightarrow> Inl (InvalidInput ''PIN is a number but not of the right size'')
     | Some pin \<Rightarrow> Inr (Some pin))"
proof -
  have "trim (before @ show_nat n @ after) = show_nat n"
    using show_nat_chars [of n] digit_no_blank show_nat_nonempty [of n]
    by (intro trim_surrounded assms(3,4)) simp_all
  then show ?thesis
    using assms(1,2) by (simp add: load_pin_def read_to_string_def parse_u32_show split: option.split)
qed

text \<open>Only a signal ends the service without a failure.\<close>

lemma success_is_a_signal: "exit_code_of r = SUCCESS \<longleftrightarrow> (\<exists>signal. r = Returned (Inl (SignalReceived signal)))"
  by (auto simp: exit_code_of_def split: task_end.splits sum.splits sep2_error.splits)

end
