(* ===== verification/Metrics.thy ===== *)
theory Metrics
  imports Service_Text
begin

text \<open>
  \<^verbatim>\<open>src/metrics.rs\<close>: the two counters, their initialisation, and one round of the task that pushes
  them to a unix socket. The text of the registry is made by the package \<^verbatim>\<open>prometheus_client\<close> and is
  an input, as are the version of the build and what the socket does.
\<close>

record metrics =
  mt_modbus_connection_drops :: int
  mt_sep2_dcap_failures :: int

text \<open>\<^verbatim>\<open>initialise\<close> on the global cell: a second call panics.\<close>

definition initialise :: "metrics option \<Rightarrow> metrics option option" where
  "initialise cell =
    (case cell of
       None \<Rightarrow> Some (Some \<lparr>mt_modbus_connection_drops = 0, mt_sep2_dcap_failures = 0\<rparr>)
     | Some _ \<Rightarrow> None)"

definition crlf :: string where
  "crlf = [CHR 0x0D, CHR 0x0A]"

definition push_header :: "string \<Rightarrow> string \<Rightarrow> string" where
  "push_header version body =
    ''POST /metrics/job/sep2_bridge HTTP/1.1'' @ crlf @
    ''Host: localhost'' @ crlf @
    ''User-Agent: sep2-bridge/'' @ version @ crlf @
    ''Accept: */*'' @ crlf @
    ''Content-Length: '' @ show_nat (length body) @ crlf @
    ''Content-Type: application/openmetrics-text; version=1.0.0; charset=utf-8'' @ crlf @
    ''Connection: close'' @ crlf @ crlf"

text \<open>The first of \<^verbatim>\<open>lines()\<close>, without its line end.\<close>

definition first_line :: "string \<Rightarrow> string" where
  "first_line s =
    (let line = takeWhile (\<lambda>c. c \<noteq> CHR 0x0A) s
     in if line \<noteq> s \<and> line \<noteq> [] \<and> List.last line = CHR 0x0D then butlast line else line)"

datatype push_report = Accepted | UnexpectedStatus string | NoValidResponse

definition push_report_of :: "string \<Rightarrow> push_report" where
  "push_report_of response =
    (case nth_opt (split_on (CHR '' '') (first_line response)) 1 of
       None \<Rightarrow> NoValidResponse
     | Some status_code \<Rightarrow> if starts_with status_code ''2'' then Accepted else UnexpectedStatus status_code)"

text \<open>A socket: whether it can be connected to and written to, and what it answers to what it got.\<close>

record endpoint =
  ep_connect :: "string option"
  ep_write :: "string \<Rightarrow> string option"
  ep_read :: "string \<Rightarrow> string + string"

definition push_metrics :: "endpoint \<Rightarrow> string \<Rightarrow> string \<Rightarrow> (string + push_report) \<times> string" where
  "push_metrics ep version body =
    (let header = push_header version body
     in case ep_connect ep of
       Some err \<Rightarrow> (Inl err, [])
     | None \<Rightarrow>
    (case ep_write ep header of
       Some err \<Rightarrow> (Inl err, [])
     | None \<Rightarrow>
    (case ep_write ep (header @ body) of
       Some err \<Rightarrow> (Inl err, header)
     | None \<Rightarrow>
    (case ep_read ep (header @ body) of
       Inl err \<Rightarrow> (Inl err, header @ body)
     | Inr response \<Rightarrow> (Inr (push_report_of response), header @ body)))))"

text \<open>
  One round of the task: what was written to the socket. The outcome is logged only; the task then
  sleeps and goes on for ever.
\<close>

definition metrics_round :: "string + string \<Rightarrow> bool \<Rightarrow> endpoint \<Rightarrow> string \<Rightarrow> string" where
  "metrics_round encoded timed_out ep version =
    (case encoded of
       Inl err \<Rightarrow> []
     | Inr buffer \<Rightarrow> if timed_out then [] else snd (push_metrics ep version buffer))"

text \<open>The length the request announces is that of the body that follows it.\<close>

lemma announced_length:
  assumes "push_metrics ep version body = (Inr report, sent)" "length body < 2 ^ 32"
  shows "\<exists>before len after. sent = before @ ''Content-Length: '' @ len @ crlf @ after @ crlf @ crlf @ body \<and>
    parse_u32 len = Inr (length body)"
proof (intro exI conjI)
  show "parse_u32 (show_nat (length body)) = Inr (length body)" by (rule parse_u32_show) fact
  show "sent =
    (''POST /metrics/job/sep2_bridge HTTP/1.1'' @ crlf @ ''Host: localhost'' @ crlf @
      ''User-Agent: sep2-bridge/'' @ version @ crlf @ ''Accept: */*'' @ crlf) @
    ''Content-Length: '' @ show_nat (length body) @ crlf @
    (''Content-Type: application/openmetrics-text; version=1.0.0; charset=utf-8'' @ crlf @ ''Connection: close'') @
    crlf @ crlf @ body"
    using assms(1) by (simp add: push_metrics_def push_header_def Let_def split: option.splits sum.splits)
qed

lemma report_of_status: "push_report_of (''HTTP/1.1 204 No Content'' @ crlf) = Accepted"
  by (simp add: push_report_of_def first_line_def crlf_def nth_opt_def starts_with_def)

end
