(* ===== verification/Service_Examples.thy ===== *)
theory Service_Examples
  imports Service Metrics
begin

text \<open>The registration PIN of a concrete file, written with a line end.\<close>

definition example_packages :: "string packages" where
  "example_packages =
    \<lparr>pk_url = (\<lambda>_. None), pk_ip = (\<lambda>_. None), pk_csipaus = (\<lambda>_. None),
     pk_pin = (\<lambda>n. if n \<le> 999999 then Some (int n) else None), pk_client = (\<lambda>_ _ _ _. True), pk_device = (\<lambda>_. None)\<rparr>"

theorem pin_read_back_witness:
  "load_pin example_packages [join_name [] ''registration_pin'' \<mapsto> File \<lparr>f_contents = '' 111115'' @ [CHR 0x0A], f_synced = True\<rparr>]
     None [] = Inr (Some 111115)"
proof -
  have "digit_char 1 = CHR ''1''" "digit_char 5 = CHR ''5''"
    using char_of_char [of "CHR ''1''"] char_of_char [of "CHR ''5''"] by (simp_all add: digit_char_def)
  then have printed: "'' 111115'' @ [CHR 0x0A] = '' '' @ show_nat 111115 @ [CHR 0x0A]"
    by (simp add: show_nat.simps)
  show ?thesis
    unfolding printed
    by (subst pin_read_back [where before = "'' ''" and n = 111115 and after = "[CHR 0x0A]" and s = True])
      (simp_all add: is_whitespace_def example_packages_def)
qed

end
