(* ===== verification/Spec2Isabelle.thy ===== *)
theory Spec2Isabelle
  imports Persistence_Examples Service_Examples
begin

text \<open>
  The service of sep2-bridge, crate \<^verbatim>\<open>sep2-bridge-service\<close>, as definitions of HOL and the theorems that
  make it correct. Paths are relative to \<^verbatim>\<open>src/crates/sep2-bridge-service/src\<close>.

  \<^bold>\<open>The program.\<close> The bridge connects an inverter that speaks SunSpec over Modbus with a utility server that
  speaks IEEE 2030.5 (SEP2). Three tasks run side by side and send each other events and commands
  through four dispatchers. The SEP2 task registers the device with the server, polls resources and puts
  and posts the device's state. The scheduler merges what was polled into a model, keeps the
  model on disk, derives which links have to be polled and which parameters apply now, and sleeps until the
  parameters may change next. The Modbus task keeps a connection to the device, writes the parameters to
  its registers, retries limits that had to be deferred and polls the device.

  \<^bold>\<open>Theories and sources.\<close>
  \<^item> \<open>Bridge_Prelude\<close>, \<open>Ordered_Map\<close>: bounded integers of Rust, results, \<^verbatim>\<open>HashMap\<close>, \<^verbatim>\<open>BTreeMap\<close>, \<^verbatim>\<open>sort_by\<close>.
  \<^item> \<open>Scaled_Value\<close>: \<^verbatim>\<open>scaled_value.rs\<close>. \<open>Sep2_Types\<close>: the fields of the SEP2 types that are read or written.
  \<^item> \<open>Attributes\<close>: \<^verbatim>\<open>scheduler/attributes.rs\<close>. \<open>Sep2_Model\<close> (the upserts and the controls of a device),
    \<open>Resource_Links\<close> (links, their difference, the collection of garbage) and \<open>Persisted_Format\<close> (JSON and XML):
    \<^verbatim>\<open>scheduler/sep2_model.rs\<close>. \<open>Scheduler\<close> (parameters, prediction, the loop), \<open>Scheduler_Clock\<close> (the loop
    in time) and \<open>Persistence\<close> (the file): \<^verbatim>\<open>scheduler.rs\<close>.
  \<^item> \<open>Translation\<close> (from the device to SEP2) and \<open>Translation_Params\<close> (from SEP2 to the device): \<^verbatim>\<open>translation.rs\<close>.
  \<^item> \<open>Percent\<close>, \<open>Modbus_Types\<close>, \<open>Modbus_IO\<close>, \<open>Modbus_Writes\<close> (models 703 and 704), \<open>Modbus_Curves\<close> (705 to 711)
    and \<open>Modbus_Task\<close> (the loop): \<^verbatim>\<open>modbus_connection.rs\<close>.
  \<^item> \<open>Sep2_Connection\<close> (commands, registration, responses, readings, polls), \<open>Sep2_Task\<close> (the stages of a
    round and their composition) and \<open>Sep2_Rounds\<close>: \<^verbatim>\<open>sep2_connection.rs\<close>, \<^verbatim>\<open>sep2_connection/polling.rs\<close>.
  \<^item> \<open>Dispatch\<close>: \<^verbatim>\<open>dispatch.rs\<close>. \<open>Service_Text\<close>, \<open>Service\<close>: \<^verbatim>\<open>main.rs\<close>. \<open>Metrics\<close>: \<^verbatim>\<open>metrics.rs\<close>.
  \<^item> \<open>Sep2_Examples\<close>, \<open>Dispatch_Examples\<close>, \<open>Persistence_Examples\<close>, \<open>Service_Examples\<close>: concrete runs; the other
    theories end with their own.

  \<^bold>\<open>How the code is rendered.\<close> A struct is a record with the fields of the struct under a prefix, an enum a
  datatype, \<^verbatim>\<open>Result<T, E>\<close> is \<open>'e + 'a\<close> with the error on the left, a panic is \<open>None\<close>. Integers are integers with
  the saturation, the wrapping and the bounds of their type written out; register addresses are
  \<open>16 word\<close>. A \<^verbatim>\<open>HashMap\<close> is a list of pairs with distinct keys whose order stands for the iteration
  order. A loop over a channel is one function for an iteration (\<open>handle_command\<close>, \<open>task_round\<close>,
  \<open>conn_round\<close>) and a run over a list of inputs; what the outside does (the clock, the random numbers, the
  answers of the server and of the device, the faults of the disk, the timeouts) is a parameter or part of
  the input, and may depend on everything that was communicated before. Whatever is sent is recorded in a
  trace. No fuel is used: every loop is structural or has a measure, so each definition is total.

  \<^bold>\<open>What the lemmas show.\<close>
  \<^item> The scheduler: each attribute is that of the first active control that sets it; nothing changes before
    the predicted instant, and the prepared responses are the right ones; on a steady clock no start and no
    end of a control is missed, and what was broadcast is right at every instant; a consumer of the events
    tracks exactly the links, the parameters and the post rates of the model; a control keeps its randomised
    interval until it is collected; garbage collection keeps what is linked and only that. Where the text
    speaks of links, \<open>strict\<close> in a predicate demands that the server never moves the link of the mirror usage
    point list away from the list held; without it all is shown but the rate of that list. In \<open>wakes\<close> the sleeping task
    wakes the scheduler by the command it sends, with a delay that is part of the input.
  \<^item> The disk: whenever the power is lost, a restart goes on from a model the scheduler had, and the
    format loses nothing. \<open>power_loss\<close> loses the contents that were not synced, and it may undo the last changes
    of each entry of the directory, which the code never syncs. The texts of \<^verbatim>\<open>sepserde\<close> and \<^verbatim>\<open>serde_json\<close> are
    parameters; that they read back what they wrote is the hypothesis \<open>formats_ok\<close>.
  \<^item> The translation: when it succeeds, what it loses (nothing of a rating) and how limits and curves
    are mapped; rescaling and the derived percentages are exact up to the rounding that is safe.
  \<^item> The Modbus task: a connected device was completely sent the newest parameters; limits that need
    the rating wait for it and are applied once it is known; curves are written to the right registers,
    in the scale the device reports for each axis, adopted, then enabled; the first failed operation is
    the last one.
  \<^item> The SEP2 task: the device is our own; responses keep their order; until the connection is reset, post
    rates are kept and a reading keeps its mRID; a failed exchange makes the task wait, and a round that
    asks for no retry has posted and put what was due.
  \<^item> The whole: the polls of the SEP2 task are those the scheduler's model asks for, and the registers
    of the device follow, at every instant, from the parameters of that model. The channels deliver in order; how
    many commands the receiver took is a number of the dispatcher.

  The locales state what several operations share: \<open>weak_order\<close> in \<open>Ordered_Map\<close> (what a stable sort needs
  of its comparator, interpreted at that of the controls), \<open>scaled_inner\<close> in \<open>Scaled_Value\<close> (rescaling within the
  bounds of a type, interpreted at the four types of the trait), \<open>layering\<close> in \<open>Attributes\<close> (an attribute under the
  overlay, interpreted at all thirty-nine), \<open>scheduler_consumer\<close> in \<open>Scheduler\<close> (a relation kept by every
  command and every wake-up is kept by a run, interpreted at the values its consumers hold, at the links they track
  and, for the file, at the soundness of the links), \<open>round_relation\<close> in \<open>Sep2_Task\<close> (a relation kept by every stage is kept
  by a round, interpreted at the mRIDs, the spacing of the PUTs, the invariant of the state, the known
  device and the polls).

  \<^bold>\<open>Known defects of the program\<close> that the lemmas exhibit: a negative bound of randomisation panics; the
  duration wraps when it is cast; the sort gets a comparator that is no order; a wake-up that comes early
  is not repeated, and \<open>steady_run\<close> therefore excludes it; a PIN that does not match is refused only once; after a restart with empty
  parameters the device keeps its old limits; a mirror usage point list whose link is moved is polled at the rate
  of the old one; a state reported as written may be lost with the power.

  \<^bold>\<open>Not modelled.\<close> Logging and its formats. The parsing of the command line (\<^verbatim>\<open>clap\<close>), the spawning and
  aborting of tasks and the delivery of channels (\<^verbatim>\<open>tokio\<close>, \<^verbatim>\<open>async_broadcast\<close>), sockets and TLS, the contents of
  certificates, the wire formats of Modbus and SEP2 (\<^verbatim>\<open>tokio-modbus\<close>, \<^verbatim>\<open>sunspec\<close>, \<^verbatim>\<open>sep2_client\<close>, \<^verbatim>\<open>sep2_common\<close>),
  URLs and IP addresses. The addresses and lengths of SunSpec models are parameters. Of the standard
  library, texts are sequences of characters up to 255. The error messages are shortened, where nothing depends
  on them.
\<close>

end
